theory Spec2Isabelle
  imports
    Complex_Main
    "HOL-Library.Log_Nat"
    "HOL-Library.Sublist"
    "HOL-Library.AList"
    "HOL-Library.Char_ord"
    "HOL-Library.List_Lexorder"
begin

section \<open>Python values used by converter.py\<close>

subsection \<open>Exceptions\<close>

text \<open>
  Every exception that converter.py raises itself is a \<open>RuntimeError\<close> with a message.
  The arithmetic of the language raises \<open>ZeroDivisionError\<close> and \<open>OverflowError\<close>,
  Pillow's \<open>Image.new\<close> raises \<open>ValueError\<close> on a negative size, the name \<open>Image\<close>
  is unbound (\<open>NameError\<close>) when Pillow could not be imported, and the libraries
  the script drives (PyMuPDF, python-pptx, Pillow's codecs) may raise anything of their
  own, which is \<open>LibraryError\<close> here. Each carries its message (those of the
  interpreter are CPython's).
\<close>

datatype py_error =
    RuntimeError string
  | ZeroDivisionError string
  | OverflowError string
  | ValueError string
  | NameError string
  | LibraryError string

fun exc_str :: "py_error \<Rightarrow> string" where
  \<comment> \<open>\<open>str(e)\<close>: the message\<close>
  "exc_str (RuntimeError m) = m"
| "exc_str (ZeroDivisionError m) = m"
| "exc_str (OverflowError m) = m"
| "exc_str (ValueError m) = m"
| "exc_str (NameError m) = m"
| "exc_str (LibraryError m) = m"

subsection \<open>Floats\<close>

text \<open>
  A Python float is an IEEE 754 binary64 number. Its finite values are modelled by the
  rationals they denote, and the two infinities by constructors of their own. The
  operations below round the exact result to the nearest representable value, ties to
  even, with 53 bits of precision, gradual underflow below \<open>2 powi (- 1022)\<close> and
  overflow to an infinity from \<open>2 ^ 1024\<close> on. The sign of a zero is not modelled (no
  operation of the script observes it), and no operation of the script can produce a NaN
  from finite arguments.
\<close>

datatype double = Fin rat | PInf | NInf

definition ilog2 :: "rat \<Rightarrow> int" where
  \<comment> \<open>\<open>\<lfloor>log\<^sub>2 x\<rfloor>\<close> for \<open>0 < x\<close>, from the bit lengths of numerator and denominator\<close>
  "ilog2 x = (let (p, q) = quotient_of x; k = bitlen p - bitlen q
              in if 2 powi k \<le> x then k else k - 1)"

definition round_half_even :: "rat \<Rightarrow> int" where
  "round_half_even x = (let f = \<lfloor>x\<rfloor>; d = x - of_int f
     in if d < 1 / 2 then f else if 1 / 2 < d then f + 1 else if even f then f else f + 1)"

definition fl :: "rat \<Rightarrow> rat" where
  \<comment> \<open>the nearest binary64 value, exponent range unbounded above\<close>
  "fl x = (if x = 0 then 0
           else let e = max (ilog2 \<bar>x\<bar> - 52) (- 1074)
                in of_int (round_half_even (x / 2 powi e)) * 2 powi e)"

definition round_double :: "rat \<Rightarrow> double" where
  "round_double x = (let y = fl x
     in if 2 ^ 1024 \<le> y then PInf else if y \<le> - (2 ^ 1024) then NInf else Fin y)"

definition int_to_float :: "int \<Rightarrow> py_error + rat" where
  \<comment> \<open>\<open>float(n)\<close>: correctly rounded, OverflowError beyond the range of a float\<close>
  "int_to_float n =
     (case round_double (of_int n) of
        Fin r \<Rightarrow> Inr r
      | _ \<Rightarrow> Inl (OverflowError ''int too large to convert to float''))"

definition int_truediv :: "int \<Rightarrow> int \<Rightarrow> py_error + rat" where
  \<comment> \<open>\<open>a / b\<close> on two ints: the exact quotient, rounded once\<close>
  "int_truediv a b =
     (if b = 0 then Inl (ZeroDivisionError ''division by zero'')
      else case round_double (of_int a / of_int b) of
             Fin r \<Rightarrow> Inr r
           | _ \<Rightarrow> Inl (OverflowError ''integer division result too large for a float''))"

definition float_truediv :: "rat \<Rightarrow> rat \<Rightarrow> py_error + double" where
  \<comment> \<open>\<open>x / y\<close> on two finite floats\<close>
  "float_truediv x y =
     (if y = 0 then Inl (ZeroDivisionError ''float division by zero'')
      else Inr (round_double (x / y)))"

definition int_float_truediv :: "int \<Rightarrow> rat \<Rightarrow> py_error + double" where
  \<comment> \<open>\<open>n / y\<close> with an int on the left: the int is converted first\<close>
  "int_float_truediv n y =
     (case int_to_float n of Inl e \<Rightarrow> Inl e | Inr x \<Rightarrow> float_truediv x y)"

definition float_mul :: "rat \<Rightarrow> rat \<Rightarrow> double" where
  "float_mul x y = round_double (x * y)"

definition py_int :: "double \<Rightarrow> py_error + int" where
  \<comment> \<open>\<open>int(x)\<close>: truncation towards zero\<close>
  "py_int d = (case d of
       Fin x \<Rightarrow> Inr (if 0 \<le> x then \<lfloor>x\<rfloor> else \<lceil>x\<rceil>)
     | _ \<Rightarrow> Inl (OverflowError ''cannot convert float infinity to integer''))"

definition py_round :: "rat \<Rightarrow> int" where
  \<comment> \<open>\<open>round(x)\<close> of a finite float: to the nearest integer, ties to even\<close>
  "py_round x = round_half_even x"

fun double_less :: "double \<Rightarrow> double \<Rightarrow> bool" where
  "double_less (Fin x) (Fin y) = (x < y)"
| "double_less NInf NInf = False"
| "double_less NInf _ = True"
| "double_less _ PInf = False"
| "double_less (Fin x) NInf = False"
| "double_less PInf _ = False"

definition py_min :: "double \<Rightarrow> double \<Rightarrow> double" where
  \<comment> \<open>\<open>min(a, b)\<close>: the second argument only when it is strictly smaller\<close>
  "py_min a b = (if double_less b a then b else a)"

subsection \<open>Strings\<close>

fun str_nat :: "nat \<Rightarrow> string" where
  "str_nat n = (if n < 10 then [char_of (48 + n)]
                else str_nat (n div 10) @ [char_of (48 + n mod 10)])"

definition str_int :: "int \<Rightarrow> string" where
  "str_int i = (if i < 0 then CHR ''-'' # str_nat (nat (- i)) else str_nat (nat i))"

definition fmt_03d :: "nat \<Rightarrow> string" where
  \<comment> \<open>the format \<open>{n:03d}\<close>\<close>
  "fmt_03d n = replicate (3 - length (str_nat n)) CHR ''0'' @ str_nat n"

definition startswith :: "string \<Rightarrow> string \<Rightarrow> bool" where
  "startswith s p = prefix p s"

definition endswith :: "string \<Rightarrow> string \<Rightarrow> bool" where
  "endswith s p = suffix p s"

definition contains :: "string \<Rightarrow> string \<Rightarrow> bool" where
  \<comment> \<open>\<open>p in s\<close>\<close>
  "contains s p = sublist p s"

fun str_replace :: "string \<Rightarrow> string \<Rightarrow> string \<Rightarrow> string" where
  \<comment> \<open>\<open>s.replace(old, new)\<close> for a non-empty \<open>old\<close>: every occurrence, left to right\<close>
  "str_replace [] old new = []"
| "str_replace (c # cs) old new =
     (if old \<noteq> [] \<and> prefix old (c # cs)
      then new @ str_replace (drop (length old) (c # cs)) old new
      else c # str_replace cs old new)"

section \<open>Images, files and the state of a run\<close>

text \<open>
  A Pillow image is its size and its pixels. \<open>Image.new\<close> fills every pixel with one
  colour and rejects a negative size; \<open>paste\<close> copies the pasted image into the box at the
  given position, clipped to the canvas, and leaves the size of the canvas as it is.
\<close>

type_synonym rgb = "nat \<times> nat \<times> nat"

record image =
  img_width :: int
  img_height :: int
  img_pixel :: "int \<Rightarrow> int \<Rightarrow> rgb"

definition Image_new :: "int \<Rightarrow> int \<Rightarrow> rgb \<Rightarrow> py_error + image" where
  "Image_new w h colour =
     (if w < 0 \<or> h < 0 then Inl (ValueError ''Width and height must be >= 0'')
      else Inr \<lparr>img_width = w, img_height = h, img_pixel = (\<lambda>x y. colour)\<rparr>)"

definition in_box :: "int \<times> int \<Rightarrow> image \<Rightarrow> int \<Rightarrow> int \<Rightarrow> bool" where
  "in_box pos im x y =
     (fst pos \<le> x \<and> x < fst pos + img_width im \<and> snd pos \<le> y \<and> y < snd pos + img_height im)"

definition paste :: "image \<Rightarrow> image \<Rightarrow> int \<times> int \<Rightarrow> image" where
  "paste canvas im pos =
     canvas\<lparr>img_pixel := (\<lambda>x y. if in_box pos im x y
                               then img_pixel im (x - fst pos) (y - snd pos)
                               else img_pixel canvas x y)\<rparr>"

text \<open>
  A page of the intermediate PDF, as PyMuPDF presents it: the size of its rectangle (two
  finite floats) and the rasterizer, which renders the page at a zoom factor into a pixel
  buffer or raises. The rasterizer is the library's, so it is a field here.
\<close>

record page =
  rect_width :: rat
  rect_height :: rat
  get_pixmap :: "double \<Rightarrow> py_error + image"

text \<open>
  What \<open>extract_text_from_pptx\<close> builds for one slide (its key \<open>text\<close> is the field
  \<open>slide_text\<close>), and the dictionary that
  \<open>create_metadata\<close> dumps.
\<close>

record text_record =
  slide_text :: string
  firstLine :: string

record metadata =
  sourceFile :: string
  slideCount :: nat
  generatedAt :: string
  slides :: "text_record list"

text \<open>
  A file of the output directory: an image as handed to \<open>save\<close>, with the format and the
  encoder options of the call, the metadata record, or anything else that was there
  before. JPEG's loss is not modelled: opening an image file gives the image that was
  saved (the script reads back only its size).
\<close>

datatype out_file =
    ImageFile (file_format: string) (file_quality: nat) (file_optimize: bool) (file_image: image)
  | MetadataFile metadata
  | OtherFile

text \<open>A file of the temporary directory: a PDF that PyMuPDF can open, or something else.\<close>

datatype tmp_file = Pdf "page list" | NotPdf

text \<open>
  The state a run changes: the output directory (file name to file, in directory order),
  the lines printed on standard output, and the temporary directories that exist, each
  with its files.
\<close>

record world =
  out_dir :: "(string \<times> out_file) list"
  stdout :: "string list"
  temp_dirs :: "(string \<times> (string \<times> tmp_file) list) list"

definition print :: "string \<Rightarrow> world \<Rightarrow> world" where
  "print line w = w\<lparr>stdout := stdout w @ [line]\<rparr>"

definition save :: "string \<Rightarrow> out_file \<Rightarrow> world \<Rightarrow> world" where
  "save name f w = w\<lparr>out_dir := AList.update name f (out_dir w)\<rparr>"

text \<open>
  The result of \<open>subprocess.run\<close>: the process could not be started, it was killed at the
  timeout, or it completed; the last two with the files it left in its output directory.
\<close>

datatype proc_result =
    SpawnError string
  | TimeoutExpired "(string \<times> tmp_file) list"
  | CompletedProcess (returncode: int) (proc_stdout: string) (proc_stderr: string)
      (proc_files: "(string \<times> tmp_file) list")

text \<open>
  Everything a run reads and does not change: the availability flags set by the imports
  at the top of the module, the machine (\<open>platform.system\<close>, \<open>shutil.which\<close>,
  \<open>os.path.exists\<close>, \<open>os.path.expanduser\<close>), the name \<open>tempfile\<close> picks, the
  external converter behind \<open>subprocess.run\<close>, the presentation as python-pptx reads it
  (one entry per slide: the text record the walk over its shapes yields, or the exception
  it raises), Pillow's \<open>thumbnail\<close>, the clock, and the two path functions of the standard
  library that depend on the platform.
\<close>

datatype resampling = NEAREST | BOX | BILINEAR | HAMMING | BICUBIC | LANCZOS

record env =
  PIL_AVAILABLE :: bool
  PYMUPDF_AVAILABLE :: bool
  PPTX_AVAILABLE :: bool
  platform_system :: string
  shutil_which :: "string \<Rightarrow> string option"
  os_path_exists :: "string \<Rightarrow> bool"
  expanduser :: "string \<Rightarrow> string"
  path_stem :: "string \<Rightarrow> string"
  basename :: "string \<Rightarrow> string"
  mkdtemp :: string
  subprocess_run :: "string list \<Rightarrow> proc_result"
  Presentation :: "string \<Rightarrow> py_error + (py_error + text_record) list"
  pil_thumbnail :: "image \<Rightarrow> int \<times> int \<Rightarrow> resampling \<Rightarrow> py_error + image"
  now_isoformat :: string

section \<open>converter.py\<close>

subsection \<open>find\_libreoffice\<close>

definition win_path :: "string list \<Rightarrow> string" where
  \<comment> \<open>the components of a Windows path, joined by backslashes\<close>
  "win_path parts = concat (case parts of [] \<Rightarrow> [] | q # qs \<Rightarrow> q # map (\<lambda>r. CHR 0x5C # r) qs)"

definition possible_paths :: "env \<Rightarrow> string list" where
  "possible_paths env =
     (if platform_system env = ''Windows'' then
        [win_path [''C:'', ''Program Files'', ''LibreOffice'', ''program'', ''soffice.exe''],
         win_path [''C:'', ''Program Files (x86)'', ''LibreOffice'', ''program'', ''soffice.exe''],
         win_path [''C:'', ''Program Files'', ''LibreOffice'', ''program'', ''soffice.com''],
         expanduser env
           (win_path [''~'', ''AppData'', ''Local'', ''Programs'', ''LibreOffice'', ''program'',
                      ''soffice.exe''])]
      else if platform_system env = ''Darwin'' then
        [''/Applications/LibreOffice.app/Contents/MacOS/soffice'',
         expanduser env ''~/Applications/LibreOffice.app/Contents/MacOS/soffice'']
      else
        [''/usr/bin/soffice'',
         ''/usr/bin/libreoffice'',
         ''/usr/local/bin/soffice'',
         ''/usr/local/bin/libreoffice'',
         ''/opt/libreoffice/program/soffice'',
         ''/snap/bin/libreoffice'',
         expanduser env ''~/.local/bin/soffice''])"

definition truthy :: "string option \<Rightarrow> bool" where
  \<comment> \<open>the truth value of a string or None\<close>
  "truthy r = (case r of None \<Rightarrow> False | Some p \<Rightarrow> p \<noteq> [])"

definition find_libreoffice :: "env \<Rightarrow> string option" where
  "find_libreoffice env =
     (if truthy (shutil_which env ''soffice'') then Some ''soffice''
      else if truthy (shutil_which env ''soffice.exe'') then Some ''soffice.exe''
      else find (os_path_exists env) (possible_paths env))"

subsection \<open>The progress line\<close>

definition progress_percent :: "int \<Rightarrow> int \<Rightarrow> py_error + int" where
  \<comment> \<open>\<open>int(k / n * 100)\<close>: a true division of two ints, a float product, a truncation\<close>
  "progress_percent k n =
     (case int_truediv k n of
        Inl e \<Rightarrow> Inl e
      | Inr q \<Rightarrow> py_int (float_mul q 100))"

definition print_progress :: "int \<Rightarrow> world \<Rightarrow> world" where
  "print_progress progress w = print (''PROGRESS:'' @ str_int progress) w"

definition slide_filename :: "nat \<Rightarrow> string" where
  \<comment> \<open>the name of the slide with 0-based index \<open>idx\<close>\<close>
  "slide_filename idx = ''slide_'' @ fmt_03d (idx + 1) @ ''.jpg''"

subsection \<open>convert\_pdf\_to\_images\<close>

definition zoom_for :: "int \<Rightarrow> int \<Rightarrow> page \<Rightarrow> py_error + double" where
  \<comment> \<open>lines 170 to 173: the zoom factor that fits the page into the target\<close>
  "zoom_for width height pg =
     (case int_float_truediv width (rect_width pg) of
        Inl e \<Rightarrow> Inl e
      | Inr zoom_x \<Rightarrow>
          (case int_float_truediv height (rect_height pg) of
             Inl e \<Rightarrow> Inl e
           | Inr zoom_y \<Rightarrow> Inr (py_min zoom_x zoom_y)))"

definition x_offset :: "int \<Rightarrow> image \<Rightarrow> int" where
  "x_offset width img = (width - img_width img) div 2"

definition y_offset :: "int \<Rightarrow> image \<Rightarrow> int" where
  "y_offset height img = (height - img_height img) div 2"

definition center_on_canvas :: "int \<Rightarrow> int \<Rightarrow> image \<Rightarrow> py_error + image" where
  \<comment> \<open>lines 185 to 192: resize to the exact dimensions if needed, centering the content\<close>
  "center_on_canvas width height img =
     (if img_width img \<noteq> width \<or> img_height img \<noteq> height then
        (case Image_new width height (0, 0, 0) of
           Inl e \<Rightarrow> Inl e
         | Inr final_img \<Rightarrow>
             Inr (paste final_img img (x_offset width img, y_offset height img)))
      else Inr img)"

definition Image_unbound :: py_error where
  "Image_unbound = NameError (''name '' @ [CHR 0x27] @ ''Image'' @ [CHR 0x27] @ '' is not defined'')"

definition render_page :: "env \<Rightarrow> int \<Rightarrow> int \<Rightarrow> page \<Rightarrow> py_error + image" where
  \<comment> \<open>lines 166 to 192: the image that is saved for a page\<close>
  "render_page env width height pg =
     (case zoom_for width height pg of
        Inl e \<Rightarrow> Inl e
      | Inr zoom \<Rightarrow>
          (case get_pixmap pg zoom of
             Inl e \<Rightarrow> Inl e
           | Inr img \<Rightarrow>
               if \<not> PIL_AVAILABLE env then Inl Image_unbound
               else center_on_canvas width height img))"

definition pdf_page_step ::
  "env \<Rightarrow> int \<Rightarrow> int \<Rightarrow> nat \<Rightarrow> nat \<Rightarrow> page \<Rightarrow> world \<Rightarrow> world \<times> (py_error + unit)" where
  \<comment> \<open>one round of the loop over the pages\<close>
  "pdf_page_step env width height total_pages page_num pg w =
     (case render_page env width height pg of
        Inl e \<Rightarrow> (w, Inl e)
      | Inr img \<Rightarrow>
          (let w1 = save (slide_filename page_num) (ImageFile ''JPEG'' 92 True img) w
           in case progress_percent (int page_num + 1) (int total_pages) of
                Inl e \<Rightarrow> (w1, Inl e)
              | Inr progress \<Rightarrow> (print_progress progress w1, Inr ())))"

fun pdf_pages_loop ::
  "env \<Rightarrow> int \<Rightarrow> int \<Rightarrow> nat \<Rightarrow> nat \<Rightarrow> page list \<Rightarrow> world \<Rightarrow> world \<times> (py_error + unit)" where
  "pdf_pages_loop env width height total_pages page_num [] w = (w, Inr ())"
| "pdf_pages_loop env width height total_pages page_num (pg # pgs) w =
     (case pdf_page_step env width height total_pages page_num pg w of
        (w', Inl e) \<Rightarrow> (w', Inl e)
      | (w', Inr u) \<Rightarrow> pdf_pages_loop env width height total_pages (Suc page_num) pgs w')"

definition fitz_open :: "world \<Rightarrow> string \<Rightarrow> string \<Rightarrow> py_error + page list" where
  \<comment> \<open>\<open>fitz.open\<close> on the file \<open>name\<close> of the temporary directory \<open>dir\<close>\<close>
  "fitz_open w dir name =
     (case map_of (temp_dirs w) dir of
        None \<Rightarrow> Inl (LibraryError ''no such file'')
      | Some files \<Rightarrow>
          (case map_of files name of
             Some (Pdf doc) \<Rightarrow> Inr doc
           | Some NotPdf \<Rightarrow> Inl (LibraryError ''cannot open document'')
           | None \<Rightarrow> Inl (LibraryError ''no such file'')))"

definition convert_pdf_to_images ::
  "env \<Rightarrow> string \<times> string \<Rightarrow> int \<Rightarrow> int \<Rightarrow> world \<Rightarrow> world \<times> (py_error + nat)" where
  \<comment> \<open>\<open>pdf_path\<close> is the temporary directory and the name of the file in it\<close>
  "convert_pdf_to_images env pdf_path width height w =
     (if \<not> PYMUPDF_AVAILABLE env
      then (w, Inl (RuntimeError ''PyMuPDF not installed. Install with: pip install PyMuPDF''))
      else case fitz_open w (fst pdf_path) (snd pdf_path) of
             Inl e \<Rightarrow> (w, Inl e)
           | Inr doc \<Rightarrow>
               (case pdf_pages_loop env width height (length doc) 0 doc w of
                  (w', Inl e) \<Rightarrow> (w', Inl e)
                | (w', Inr u) \<Rightarrow> (w', Inr (length doc))))"

subsection \<open>convert\_with\_pptx\_direct\<close>

definition direct_slide_step ::
  "env \<Rightarrow> int \<Rightarrow> int \<Rightarrow> nat \<Rightarrow> nat \<Rightarrow> world \<Rightarrow> world \<times> (py_error + unit)" where
  "direct_slide_step env width height total_slides idx w =
     (case (if \<not> PIL_AVAILABLE env then Inl Image_unbound
            else Image_new width height (0, 0, 32)) of
        Inl e \<Rightarrow> (w, Inl e)
      | Inr img \<Rightarrow>
          (let w1 = save (slide_filename idx) (ImageFile ''JPEG'' 92 False img) w
           in case progress_percent (int idx + 1) (int total_slides) of
                Inl e \<Rightarrow> (w1, Inl e)
              | Inr progress \<Rightarrow> (print_progress progress w1, Inr ())))"

fun direct_slides_loop ::
  "env \<Rightarrow> int \<Rightarrow> int \<Rightarrow> nat \<Rightarrow> nat \<Rightarrow> 'a list \<Rightarrow> world \<Rightarrow> world \<times> (py_error + unit)" where
  "direct_slides_loop env width height total_slides idx [] w = (w, Inr ())"
| "direct_slides_loop env width height total_slides idx (slide # rest) w =
     (case direct_slide_step env width height total_slides idx w of
        (w', Inl e) \<Rightarrow> (w', Inl e)
      | (w', Inr u) \<Rightarrow> direct_slides_loop env width height total_slides (Suc idx) rest w')"

definition convert_with_pptx_direct ::
  "env \<Rightarrow> string \<Rightarrow> int \<Rightarrow> int \<Rightarrow> world \<Rightarrow> world \<times> (py_error + nat)" where
  "convert_with_pptx_direct env input_path width height w =
     (if \<not> PPTX_AVAILABLE env
      then (w, Inl (RuntimeError
                     ''python-pptx not installed. Install with: pip install python-pptx''))
      else case Presentation env input_path of
             Inl e \<Rightarrow> (w, Inl e)
           | Inr prs \<Rightarrow>
               (let w1 = print ''WARNING: Direct PPTX rendering has limited support for complex formatting.'' w;
                    w2 = print ''Consider installing LibreOffice for better results.'' w1
                in case direct_slides_loop env width height (length prs) 0 prs w2 of
                     (w', Inl e) \<Rightarrow> (w', Inl e)
                   | (w', Inr u) \<Rightarrow> (w', Inr (length prs))))"

subsection \<open>convert\_with\_libreoffice\<close>

definition TemporaryDirectory ::
  "env \<Rightarrow> (string \<Rightarrow> world \<Rightarrow> world \<times> 'a) \<Rightarrow> world \<Rightarrow> world \<times> 'a" where
  \<comment> \<open>\<open>with tempfile.TemporaryDirectory() as temp_dir\<close>: the directory is created empty,
      the body runs, and the directory is removed with its files however the body ends\<close>
  "TemporaryDirectory env body w =
     (let temp_dir = mkdtemp env;
          w1 = w\<lparr>temp_dirs := AList.update temp_dir [] (temp_dirs w)\<rparr>;
          (w2, r) = body temp_dir w1
      in (w2\<lparr>temp_dirs := AList.delete temp_dir (temp_dirs w2)\<rparr>, r))"

definition temp_files :: "world \<Rightarrow> string \<Rightarrow> (string \<times> tmp_file) list" where
  "temp_files w dir = (case map_of (temp_dirs w) dir of None \<Rightarrow> [] | Some files \<Rightarrow> files)"

definition put_temp_files :: "string \<Rightarrow> (string \<times> tmp_file) list \<Rightarrow> world \<Rightarrow> world" where
  \<comment> \<open>the files the external converter leaves in the directory\<close>
  "put_temp_files dir files w = w\<lparr>temp_dirs := AList.update dir files (temp_dirs w)\<rparr>"

definition os_path_join :: "string \<Rightarrow> string \<Rightarrow> string" where
  "os_path_join dir name = dir @ ''/'' @ name"

definition repr_paths :: "string \<Rightarrow> string list \<Rightarrow> string" where
  \<comment> \<open>how a list of paths prints\<close>
  "repr_paths dir names =
     ''['' @ concat (case map (\<lambda>n. ''PosixPath('' @ [CHR 0x27] @ os_path_join dir n @ [CHR 0x27] @ '')'') names of
                       [] \<Rightarrow> []
                     | q # qs \<Rightarrow> q # map (\<lambda>r. '', '' @ r) qs) @ '']''"

definition soffice_cmd :: "string \<Rightarrow> string \<Rightarrow> string \<Rightarrow> string list" where
  "soffice_cmd soffice_path temp_dir input_path =
     [soffice_path, ''--headless'', ''--nofirststartwizard'', ''--norestore'',
      ''--convert-to'', ''pdf'', ''--outdir'', temp_dir, input_path]"

definition not_found_msg :: string where
  "not_found_msg = ''LibreOffice not found. Please install LibreOffice.''"

definition failed_msg :: "int \<Rightarrow> string \<Rightarrow> string \<Rightarrow> string" where
  "failed_msg rc out err =
     ''LibreOffice conversion failed: '' @
       (if err \<noteq> [] then err
        else if out \<noteq> [] then out
        else ''Unknown error (exit code: '' @ str_int rc @ '')'')"

definition timeout_msg :: string where
  "timeout_msg = ''LibreOffice conversion timed out after 5 minutes''"

definition no_pdf_msg :: "string \<Rightarrow> string" where
  "no_pdf_msg pdf_filename = ''PDF file not generated. Expected: '' @ pdf_filename"

definition find_pdf :: "string \<Rightarrow> string \<Rightarrow> world \<Rightarrow> world \<times> (py_error + string)" where
  \<comment> \<open>lines 133 to 149: the expected name, else the first \<open>*.pdf\<close> of the directory\<close>
  "find_pdf temp_dir pdf_filename w =
     (let names = map fst (temp_files w temp_dir);
          w1 = print (''Looking for PDF at: '' @ os_path_join temp_dir pdf_filename) w
      in if pdf_filename \<notin> set names then
           (let pdf_files = filter (\<lambda>n. endswith n ''.pdf'') names;
                w2 = print (''Found PDF files in temp dir: '' @ repr_paths temp_dir pdf_files) w1
            in if pdf_files \<noteq> [] then (w2, Inr (hd pdf_files))
               else (print (''Files in temp dir: '' @ repr_paths temp_dir names) w2,
                     Inl (RuntimeError (no_pdf_msg pdf_filename))))
         else (w1, Inr pdf_filename))"

definition libreoffice_body ::
  "env \<Rightarrow> string \<Rightarrow> string \<Rightarrow> int \<Rightarrow> int \<Rightarrow> string \<Rightarrow> world \<Rightarrow> world \<times> (py_error + nat)" where
  \<comment> \<open>the body of the \<open>with\<close> statement\<close>
  "libreoffice_body env soffice_path input_path width height temp_dir w =
     (let w1 = print ''Converting PPTX to PDF with LibreOffice...'' w;
          w2 = print (''Using LibreOffice at: '' @ soffice_path) w1
      in case subprocess_run env (soffice_cmd soffice_path temp_dir input_path) of
           SpawnError m \<Rightarrow> (w2, Inl (LibraryError m))
         | TimeoutExpired files \<Rightarrow>
             (put_temp_files temp_dir files w2, Inl (RuntimeError timeout_msg))
         | CompletedProcess rc out err files \<Rightarrow>
             (let w3 = put_temp_files temp_dir files w2;
                  w4 = print (''LibreOffice stdout: '' @ out) w3;
                  w5 = (if err \<noteq> [] then print (''LibreOffice stderr: '' @ err) w4 else w4)
              in if rc \<noteq> 0 then (w5, Inl (RuntimeError (failed_msg rc out err)))
                 else case find_pdf temp_dir (path_stem env input_path @ ''.pdf'') w5 of
                        (w6, Inl e) \<Rightarrow> (w6, Inl e)
                      | (w6, Inr pdf_name) \<Rightarrow>
                          convert_pdf_to_images env (temp_dir, pdf_name) width height
                            (print ''Converting PDF pages to images...'' w6)))"

definition convert_with_libreoffice ::
  "env \<Rightarrow> string \<Rightarrow> int \<Rightarrow> int \<Rightarrow> world \<Rightarrow> world \<times> (py_error + nat)" where
  "convert_with_libreoffice env input_path width height w =
     (case find_libreoffice env of
        None \<Rightarrow> (w, Inl (RuntimeError not_found_msg))
      | Some soffice_path \<Rightarrow>
          if soffice_path = [] then (w, Inl (RuntimeError not_found_msg))
          else TemporaryDirectory env
                 (libreoffice_body env soffice_path input_path width height) w)"

subsection \<open>generate\_thumbnails\<close>

definition is_full_size_name :: "string \<Rightarrow> bool" where
  \<comment> \<open>the filter of lines 245 and 246\<close>
  "is_full_size_name f =
     (startswith f ''slide_'' \<and> endswith f ''.jpg'' \<and> \<not> contains f ''_thumb'')"

definition thumbnail_inputs :: "world \<Rightarrow> string list" where
  "thumbnail_inputs w = sort (filter is_full_size_name (map fst (out_dir w)))"

definition thumb_filename :: "string \<Rightarrow> string" where
  "thumb_filename slide_file = str_replace slide_file ''.jpg'' ''_thumb.jpg''"

definition Image_open :: "world \<Rightarrow> string \<Rightarrow> py_error + image" where
  "Image_open w name =
     (case map_of (out_dir w) name of
        Some (ImageFile fmt q opt img) \<Rightarrow> Inr img
      | Some other \<Rightarrow> Inl (LibraryError ''cannot identify image file'')
      | None \<Rightarrow> Inl (LibraryError ''no such file''))"

definition thumb_height :: "int \<Rightarrow> image \<Rightarrow> py_error + int" where
  \<comment> \<open>lines 255 and 256: \<open>aspect = img.width / img.height\<close>, \<open>int(thumb_width / aspect)\<close>\<close>
  "thumb_height thumb_width img =
     (case int_truediv (img_width img) (img_height img) of
        Inl e \<Rightarrow> Inl e
      | Inr aspect \<Rightarrow>
          (case int_float_truediv thumb_width aspect of
             Inl e \<Rightarrow> Inl e
           | Inr h \<Rightarrow> py_int h))"

definition make_thumbnail :: "env \<Rightarrow> int \<Rightarrow> image \<Rightarrow> py_error + out_file" where
  \<comment> \<open>lines 255 to 261: the file that is saved for an opened image\<close>
  "make_thumbnail env thumb_width img =
     (case thumb_height thumb_width img of
        Inl e \<Rightarrow> Inl e
      | Inr h \<Rightarrow>
          (case pil_thumbnail env img (thumb_width, h) LANCZOS of
             Inl e \<Rightarrow> Inl e
           | Inr thumb \<Rightarrow> Inr (ImageFile ''JPEG'' 85 False thumb)))"

definition thumbnail_step :: "env \<Rightarrow> int \<Rightarrow> string \<Rightarrow> world \<Rightarrow> world \<times> (py_error + unit)" where
  "thumbnail_step env thumb_width slide_file w =
     (case Image_open w slide_file of
        Inl e \<Rightarrow> (w, Inl e)
      | Inr img \<Rightarrow>
          (case make_thumbnail env thumb_width img of
             Inl e \<Rightarrow> (w, Inl e)
           | Inr f \<Rightarrow> (save (thumb_filename slide_file) f w, Inr ())))"

fun thumbnails_loop :: "env \<Rightarrow> int \<Rightarrow> string list \<Rightarrow> world \<Rightarrow> world \<times> (py_error + unit)" where
  "thumbnails_loop env thumb_width [] w = (w, Inr ())"
| "thumbnails_loop env thumb_width (slide_file # rest) w =
     (case thumbnail_step env thumb_width slide_file w of
        (w', Inl e) \<Rightarrow> (w', Inl e)
      | (w', Inr u) \<Rightarrow> thumbnails_loop env thumb_width rest w')"

definition generate_thumbnails :: "env \<Rightarrow> int \<Rightarrow> world \<Rightarrow> world \<times> (py_error + unit)" where
  "generate_thumbnails env thumb_width w =
     (let w1 = print ''Generating thumbnails...'' w
      in thumbnails_loop env thumb_width (thumbnail_inputs w1) w1)"

subsection \<open>extract\_text\_from\_pptx and create\_metadata\<close>

fun collect_records :: "(py_error + text_record) list \<Rightarrow> py_error + text_record list" where
  \<comment> \<open>the loop over the slides: the records in order, or the first exception\<close>
  "collect_records [] = Inr []"
| "collect_records (Inl e # rest) = Inl e"
| "collect_records (Inr r # rest) =
     (case collect_records rest of Inl e \<Rightarrow> Inl e | Inr rs \<Rightarrow> Inr (r # rs))"

definition extract_text_from_pptx ::
  "env \<Rightarrow> string \<Rightarrow> world \<Rightarrow> world \<times> (py_error + text_record list)" where
  "extract_text_from_pptx env input_path w =
     (if \<not> PPTX_AVAILABLE env
      then (print ''WARNING: python-pptx not available, skipping text extraction'' w, Inr [])
      else (let w1 = print ''Extracting slide text...'' w
            in case Presentation env input_path of
                 Inl e \<Rightarrow> (w1, Inl e)
               | Inr prs \<Rightarrow> (w1, collect_records prs)))"

definition create_metadata ::
  "env \<Rightarrow> string \<Rightarrow> string \<Rightarrow> nat \<Rightarrow> text_record list \<Rightarrow> world \<Rightarrow> world" where
  "create_metadata env output_dir input_path slide_count slides_text w =
     (let md = \<lparr>sourceFile = basename env input_path,
                 slideCount = slide_count,
                 generatedAt = now_isoformat env,
                 slides = slides_text\<rparr>;
          w1 = save ''metadata.json'' (MetadataFile md) w
      in print (''Metadata saved to '' @ os_path_join output_dir ''metadata.json'') w1)"

subsection \<open>main\<close>

record args =
  arg_input :: string
  arg_output :: string
  arg_width :: int
  arg_height :: int
  arg_thumbnail_width :: int
  arg_method :: string

definition choose_method :: "env \<Rightarrow> string \<Rightarrow> world \<Rightarrow> string \<times> world" where
  \<comment> \<open>lines 342 to 348\<close>
  "choose_method env method w =
     (if method = ''auto'' then
        (if truthy (find_libreoffice env) \<and> PYMUPDF_AVAILABLE env then (''libreoffice'', w)
         else (''direct'',
               print ''WARNING: LibreOffice not available, using direct conversion (limited formatting)'' w))
      else (method, w))"

definition after_conversion ::
  "env \<Rightarrow> args \<Rightarrow> nat \<Rightarrow> world \<Rightarrow> world \<times> (py_error + unit)" where
  \<comment> \<open>lines 366 to 379: what follows the conversion inside the \<open>try\<close>\<close>
  "after_conversion env a slide_count w =
     (let w1 = print (''Converted '' @ str_nat slide_count @ '' slides'') w;
          (w2, r) = (if PIL_AVAILABLE env then generate_thumbnails env (arg_thumbnail_width a) w1
                     else (w1, Inr ()))
      in case r of
           Inl e \<Rightarrow> (w2, Inl e)
         | Inr u \<Rightarrow>
             (case extract_text_from_pptx env (arg_input a) w2 of
                (w3, Inl e) \<Rightarrow> (w3, Inl e)
              | (w3, Inr slides_text) \<Rightarrow>
                  (let w4 = create_metadata env (arg_output a) (arg_input a) slide_count slides_text w3;
                       w5 = print ''PROGRESS:100'' w4
                   in (print ''Conversion complete!'' w5, Inr ()))))"

definition try_body :: "env \<Rightarrow> args \<Rightarrow> string \<Rightarrow> world \<Rightarrow> world \<times> (py_error + unit)" where
  \<comment> \<open>lines 356 to 379\<close>
  "try_body env a method w =
     (case (if method = ''libreoffice''
            then convert_with_libreoffice env (arg_input a) (arg_width a) (arg_height a) w
            else convert_with_pptx_direct env (arg_input a) (arg_width a) (arg_height a) w) of
        (w1, Inl e) \<Rightarrow> (w1, Inl e)
      | (w1, Inr slide_count) \<Rightarrow> after_conversion env a slide_count w1)"

definition main :: "env \<Rightarrow> args \<Rightarrow> world \<Rightarrow> world \<times> int" where
  \<comment> \<open>the run, with its exit status; the traceback on standard error is not modelled\<close>
  "main env a w0 =
     (let w = (if PIL_AVAILABLE env then w0
               else print ''WARNING: Pillow not installed. Install with: pip install Pillow'' w0)
      in if \<not> os_path_exists env (arg_input a)
         then (print (''ERROR: Input file not found: '' @ arg_input a) w, 1)
         else (let (method, w1) = choose_method env (arg_method a) w;
                   w2 = print (''Starting conversion: '' @ arg_input a) w1;
                   w3 = print (''Output directory: '' @ arg_output a) w2;
                   w4 = print (''Resolution: '' @ str_int (arg_width a) @ ''x'' @ str_int (arg_height a)) w3;
                   w5 = print (''Method: '' @ method) w4
               in case try_body env a method w5 of
                    (w6, Inl e) \<Rightarrow> (print (''ERROR: '' @ exc_str e) w6, 1)
                  | (w6, Inr u) \<Rightarrow> (w6, 0)))"

section \<open>Notions used in the statements\<close>

text \<open>A full-size slide image of the target size, as the two conversion paths save it.\<close>

definition full_size :: "int \<Rightarrow> int \<Rightarrow> out_file \<Rightarrow> bool" where
  "full_size width height f =
     (case f of ImageFile fmt q opt img \<Rightarrow> fmt = ''JPEG'' \<and> q = 92 \<and> img_width img = width \<and> img_height img = height
      | _ \<Rightarrow> False)"





text \<open>
  A machine and a deck for the concrete runs below: LibreOffice on the path, every
  library present, a deck of one slide that LibreOffice turns into a PDF of one page of
  800 by 600 points, a rasterizer that renders a page at a scale into a white buffer of
  the scaled size, and a \<open>thumbnail\<close> that gives the requested size.
\<close>

definition example_buffer :: "rat \<Rightarrow> rat \<Rightarrow> double \<Rightarrow> py_error + image" where
  "example_buffer pw ph zoom =
     (case zoom of
        Fin z \<Rightarrow> Inr \<lparr>img_width = \<lceil>z * pw - 1 / 1000\<rceil>, img_height = \<lceil>z * ph - 1 / 1000\<rceil>,
                       img_pixel = (\<lambda>x y. (255, 255, 255))\<rparr>
      | _ \<Rightarrow> Inl (LibraryError ''bad matrix''))"

definition example_page :: page where
  "example_page = \<lparr>rect_width = 800, rect_height = 600, get_pixmap = example_buffer 800 600\<rparr>"

definition example_env :: env where
  "example_env =
     \<lparr>PIL_AVAILABLE = True, PYMUPDF_AVAILABLE = True, PPTX_AVAILABLE = True,
      platform_system = ''Linux'',
      shutil_which = (\<lambda>n. if n = ''soffice'' then Some ''/usr/bin/soffice'' else None),
      os_path_exists = (\<lambda>p. p = ''deck.pptx''),
      expanduser = (\<lambda>p. p),
      path_stem = (\<lambda>p. ''deck''),
      basename = (\<lambda>p. p),
      mkdtemp = ''/tmp/tmpa1'',
      subprocess_run = (\<lambda>cmd. CompletedProcess 0 [] [] [(''deck.pdf'', Pdf [example_page])]),
      Presentation = (\<lambda>p. Inr [Inr \<lparr>slide_text = ''Hello'', firstLine = ''Hello''\<rparr>]),
      pil_thumbnail = (\<lambda>img size flt. Inr (img\<lparr>img_width := fst size, img_height := snd size\<rparr>)),
      now_isoformat = ''2024-01-01T00:00:00''\<rparr>"

definition empty_world :: world where
  "empty_world = \<lparr>out_dir = [], stdout = [], temp_dirs = []\<rparr>"

text \<open>
  The image that the fallback path saves for every slide, and the file it is saved as.
\<close>

definition placeholder_image :: "int \<Rightarrow> int \<Rightarrow> image" where
  "placeholder_image width height =
     \<lparr>img_width = width, img_height = height, img_pixel = (\<lambda>x y. (0, 0, 32))\<rparr>"

definition placeholder_file :: "int \<Rightarrow> int \<Rightarrow> out_file" where
  "placeholder_file width height = ImageFile ''JPEG'' 92 False (placeholder_image width height)"

text \<open>
  The state in which LibreOffice has left the PDF of the example deck in the temporary
  directory, the buffer the example rasterizer gives for its page at the fitting scale,
  and the slide image that results.
\<close>

definition pdf_world :: world where
  "pdf_world =
     \<lparr>out_dir = [], stdout = [],
      temp_dirs = [(''/tmp/tmpa1'', [(''deck.pdf'', Pdf [example_page])])]\<rparr>"

definition example_slide :: image where
  "example_slide =
     \<lparr>img_width = 1920, img_height = 1080,
      img_pixel = (\<lambda>x y. if 240 \<le> x \<and> x < 1680 \<and> 0 \<le> y \<and> y < 1080
                           then (255, 255, 255) else (0, 0, 0))\<rparr>"

definition white_buffer :: image where
  "white_buffer = \<lparr>img_width = 1440, img_height = 1080, img_pixel = (\<lambda>x y. (255, 255, 255))\<rparr>"

text \<open>The example machine without LibreOffice: nothing on the path, no file but the deck.\<close>

definition bare_env :: env where
  "bare_env = example_env\<lparr>shutil_which := (\<lambda>n. None)\<rparr>"

definition fallback_warning :: string where
  "fallback_warning =
     ''WARNING: LibreOffice not available, using direct conversion (limited formatting)''"

text \<open>
  The method and the state with which the \<open>try\<close> of \<open>main\<close> begins: after the warning of
  the import, the choice of the method and the four lines that announce the conversion.
\<close>

definition main_start :: "env \<Rightarrow> args \<Rightarrow> world \<Rightarrow> string \<times> world" where
  "main_start env a w0 =
     (let w = (if PIL_AVAILABLE env then w0
               else print ''WARNING: Pillow not installed. Install with: pip install Pillow'' w0);
          (method, w1) = choose_method env (arg_method a) w;
          w2 = print (''Starting conversion: '' @ arg_input a) w1;
          w3 = print (''Output directory: '' @ arg_output a) w2;
          w4 = print (''Resolution: '' @ str_int (arg_width a) @ ''x'' @ str_int (arg_height a)) w3;
          w5 = print (''Method: '' @ method) w4
      in (method, w5))"

text \<open>
  The arguments of the example run, and three machines on which LibreOffice fails: it
  runs into the timeout, it exits with status 1, it exits with status 0 and leaves no PDF.
\<close>

definition example_args :: args where
  "example_args =
     \<lparr>arg_input = ''deck.pptx'', arg_output = ''out'', arg_width = 1920, arg_height = 1080,
      arg_thumbnail_width = 300, arg_method = ''libreoffice''\<rparr>"

definition timeout_env :: env where
  "timeout_env = example_env\<lparr>subprocess_run := (\<lambda>cmd. TimeoutExpired [])\<rparr>"

definition failing_env :: env where
  "failing_env =
     example_env\<lparr>subprocess_run :=
       (\<lambda>cmd. CompletedProcess 1 [] ''Error: source file could not be loaded'' [])\<rparr>"

definition no_pdf_env :: env where
  "no_pdf_env =
     example_env\<lparr>subprocess_run := (\<lambda>cmd. CompletedProcess 0 [] [] [(''deck.txt'', NotPdf)])\<rparr>"

definition start_world :: world where
  "start_world =
     \<lparr>out_dir = [],
      stdout = [''Starting conversion: deck.pptx'', ''Output directory: out'',
                ''Resolution: 1920x1080'', ''Method: libreoffice''],
      temp_dirs = []\<rparr>"

text \<open>
  A buffer smaller than the target in both directions, with one red pixel in its top left
  corner, and the slide image that centring it on a canvas of 1920 by 1080 gives; and a
  page of the target size that the rasterizer renders dark blue all over.
\<close>

definition small_buffer :: image where
  "small_buffer =
     \<lparr>img_width = 1600, img_height = 900,
      img_pixel = (\<lambda>x y. if x = 0 \<and> y = 0 then (255, 0, 0) else (255, 255, 255))\<rparr>"

definition small_slide :: image where
  "small_slide =
     \<lparr>img_width = 1920, img_height = 1080,
      img_pixel = (\<lambda>x y. if 160 \<le> x \<and> x < 1760 \<and> 90 \<le> y \<and> y < 990
                           then (if x = 160 \<and> y = 90 then (255, 0, 0) else (255, 255, 255))
                           else (0, 0, 0))\<rparr>"

definition blue_page :: page where
  "blue_page =
     \<lparr>rect_width = 1920, rect_height = 1080,
      get_pixmap = (\<lambda>zoom. Inr (placeholder_image 1920 1080))\<rparr>"

text \<open>
  The height of the thumbnail as the specification words it, with \<open>round\<close> where the
  script has \<open>int\<close>.
\<close>

definition spec_thumb_height :: "int \<Rightarrow> image \<Rightarrow> py_error + int" where
  "spec_thumb_height thumb_width img =
     (case int_truediv (img_width img) (img_height img) of
        Inl e \<Rightarrow> Inl e
      | Inr aspect \<Rightarrow>
          (case int_float_truediv thumb_width aspect of
             Inl e \<Rightarrow> Inl e
           | Inr (Fin x) \<Rightarrow> Inr (py_round x)
           | Inr other \<Rightarrow> Inl (OverflowError ''cannot convert float infinity to integer'')))"

text \<open>The thumbnail of the example slide, as the example \<open>thumbnail\<close> makes it.\<close>

definition example_thumb :: image where
  "example_thumb = example_slide\<lparr>img_width := 300, img_height := 168\<rparr>"

text \<open>An output directory that holds the example slide, before and after the thumbnails.\<close>

definition slide_world :: world where
  "slide_world =
     \<lparr>out_dir = [(''slide_001.jpg'', ImageFile ''JPEG'' 92 True example_slide)],
      stdout = [], temp_dirs = []\<rparr>"

definition thumb_world :: world where
  "thumb_world =
     \<lparr>out_dir = [(''slide_001.jpg'', ImageFile ''JPEG'' 92 True example_slide),
                 (''slide_001_thumb.jpg'', ImageFile ''JPEG'' 85 False example_thumb)],
      stdout = [], temp_dirs = []\<rparr>"

text \<open>
  The example machine with another deck: LibreOffice still makes a PDF of one page, and
  python-pptx reads two slides (LibreOffice leaves a hidden slide out of the PDF). Then
  the state after the conversion of that deck, and the state in which the run ends.
\<close>

definition mismatch_env :: env where
  "mismatch_env =
     example_env\<lparr>Presentation :=
       (\<lambda>p. Inr [Inr \<lparr>slide_text = ''Hello'', firstLine = ''Hello''\<rparr>,
                  Inr \<lparr>slide_text = ''Hidden'', firstLine = ''Hidden''\<rparr>])\<rparr>"

definition converted_world :: world where
  "converted_world =
     \<lparr>out_dir = [(''slide_001.jpg'', ImageFile ''JPEG'' 92 True example_slide)],
      stdout = [''Starting conversion: deck.pptx'', ''Output directory: out'',
                ''Resolution: 1920x1080'', ''Method: libreoffice'',
                ''Converting PPTX to PDF with LibreOffice...'',
                ''Using LibreOffice at: soffice'',
                ''LibreOffice stdout: '',
                ''Looking for PDF at: /tmp/tmpa1/deck.pdf'',
                ''Converting PDF pages to images...'',
                ''PROGRESS:100''],
      temp_dirs = []\<rparr>"

definition mismatch_metadata :: metadata where
  "mismatch_metadata =
     \<lparr>sourceFile = ''deck.pptx'', slideCount = 1, generatedAt = ''2024-01-01T00:00:00'',
      slides = [\<lparr>slide_text = ''Hello'', firstLine = ''Hello''\<rparr>,
                \<lparr>slide_text = ''Hidden'', firstLine = ''Hidden''\<rparr>]\<rparr>"

definition finished_world :: world where
  "finished_world =
     \<lparr>out_dir = [(''slide_001.jpg'', ImageFile ''JPEG'' 92 True example_slide),
                 (''slide_001_thumb.jpg'', ImageFile ''JPEG'' 85 False example_thumb),
                 (''metadata.json'', MetadataFile mismatch_metadata)],
      stdout = [''Starting conversion: deck.pptx'', ''Output directory: out'',
                ''Resolution: 1920x1080'', ''Method: libreoffice'',
                ''Converting PPTX to PDF with LibreOffice...'',
                ''Using LibreOffice at: soffice'',
                ''LibreOffice stdout: '',
                ''Looking for PDF at: /tmp/tmpa1/deck.pdf'',
                ''Converting PDF pages to images...'',
                ''PROGRESS:100'',
                ''Converted 1 slides'',
                ''Generating thumbnails...'',
                ''Extracting slide text...'',
                ''Metadata saved to out/metadata.json'',
                ''PROGRESS:100'',
                ''Conversion complete!''],
      temp_dirs = []\<rparr>"

text \<open>
  The fit as the specification words it, over exact numbers: the scale is the smaller of
  the two quotients, the scaled page is within the target, and one of its sides is equal
  to the target's.
\<close>

definition spec_scale :: "rat \<Rightarrow> rat \<Rightarrow> rat \<Rightarrow> rat \<Rightarrow> rat" where
  "spec_scale W H w h = min (W / w) (H / h)"

definition spec_tight_fit :: "rat \<Rightarrow> rat \<Rightarrow> rat \<Rightarrow> rat \<Rightarrow> rat \<Rightarrow> bool" where
  "spec_tight_fit W H w h scale =
     (scale * w \<le> W \<and> scale * h \<le> H \<and> (scale * w = W \<or> scale * h = H))"

text \<open>A page of 113 by 63 points, with the rasterizer of the example page.\<close>

definition narrow_page :: page where
  "narrow_page = \<lparr>rect_width = 113, rect_height = 63, get_pixmap = example_buffer 113 63\<rparr>"

section \<open>Arithmetic of floats\<close>

lemma bitlen_powi_bounds:
  assumes "0 < p"
  shows "(2::rat) powi (bitlen p - 1) \<le> of_int p" and "of_int p < (2::rat) powi bitlen p"
proof -
  from assms have b: "2 ^ nat (bitlen p - 1) \<le> p" "p < 2 ^ nat (bitlen p)"
    using bitlen_bounds[of p] by auto
  have ge: "1 \<le> bitlen p"
    using assms bitlen_eq_zero_iff[of p] bitlen_nonneg[of p] by linarith
  have "(of_int (2 ^ nat (bitlen p - 1)) :: rat) \<le> of_int p"
    using b(1) by (simp only: of_int_le_iff)
  then show "(2::rat) powi (bitlen p - 1) \<le> of_int p"
    using ge by (simp add: power_int_def)
  have "(of_int p :: rat) < of_int (2 ^ nat (bitlen p))"
    using b(2) by (simp only: of_int_less_iff)
  then show "of_int p < (2::rat) powi bitlen p"
    using ge by (simp add: power_int_def)
qed

lemma two_powi_pos [simp]: "0 < (2::rat) powi k"
  by (simp add: zero_less_power_int)

lemma ilog2_bounds:
  assumes "0 < x"
  shows "2 powi ilog2 x \<le> x" and "x < 2 powi (ilog2 x + 1)"
proof -
  obtain p q where pq: "quotient_of x = (p, q)" by (cases "quotient_of x")
  then have q: "0 < q" and x: "x = of_int p / of_int q"
    using quotient_of_denom_pos[OF pq] quotient_of_div[OF pq] by auto
  with assms have p: "0 < p"
    by (simp add: zero_less_divide_iff)
  define k where "k = bitlen p - bitlen q"
  have il: "ilog2 x = (if 2 powi k \<le> x then k else k - 1)"
    by (simp add: ilog2_def pq k_def Let_def)
  have up: "x < 2 powi (k + 1)"
  proof -
    have "of_int p < (2::rat) powi bitlen p" using bitlen_powi_bounds[OF p] by simp
    moreover have "(2::rat) powi (bitlen q - 1) \<le> of_int q" using bitlen_powi_bounds[OF q] by simp
    ultimately have "of_int p * (2::rat) powi (bitlen q - 1) < 2 powi bitlen p * of_int q"
      using p q by (intro mult_less_le_imp_less) auto
    then have "x * 2 powi (bitlen q - 1) < 2 powi bitlen p"
      using q by (simp add: x field_simps)
    then have "x < 2 powi bitlen p / 2 powi (bitlen q - 1)"
      by (simp add: pos_less_divide_eq)
    also have "\<dots> = 2 powi (k + 1)"
      by (simp add: k_def power_int_diff power_int_add)
    finally show ?thesis .
  qed
  have lo: "2 powi (k - 1) \<le> x"
  proof -
    have "(2::rat) powi (bitlen p - 1) \<le> of_int p" using bitlen_powi_bounds[OF p] by simp
    moreover have "of_int q < (2::rat) powi bitlen q" using bitlen_powi_bounds[OF q] by simp
    ultimately have "(2::rat) powi (bitlen p - 1) * of_int q \<le> of_int p * 2 powi bitlen q"
      using p q by (intro mult_mono) auto
    then have "2 powi (bitlen p - 1) / 2 powi bitlen q \<le> x"
      using q by (simp add: x field_simps)
    moreover have "(2::rat) powi (bitlen p - 1) / 2 powi bitlen q = 2 powi (k - 1)"
      by (simp add: k_def power_int_diff power_int_add)
    ultimately show ?thesis by simp
  qed
  show "2 powi ilog2 x \<le> x" using il lo by auto
  show "x < 2 powi (ilog2 x + 1)"
  proof (cases "2 powi k \<le> x")
    case True
    then show ?thesis using il up by simp
  next
    case False
    then show ?thesis using il by simp
  qed
qed


lemma round_half_even_error: "\<bar>of_int (round_half_even x) - x\<bar> \<le> 1 / 2"
proof -
  have "of_int \<lfloor>x\<rfloor> \<le> x" "x < of_int \<lfloor>x\<rfloor> + 1" by linarith+
  then show ?thesis
    by (auto simp: round_half_even_def Let_def)
qed

lemma round_half_even_of_int [simp]: "round_half_even (of_int k) = k"
  by (simp add: round_half_even_def)

lemma ilog2_unique:
  assumes "0 < x" "2 powi k \<le> x" "x < 2 powi (k + 1)"
  shows "ilog2 x = k"
proof -
  have a: "(2::rat) powi ilog2 x < 2 powi (k + 1)"
    using ilog2_bounds(1)[OF assms(1)] assms(3) by linarith
  have b: "(2::rat) powi k < 2 powi (ilog2 x + 1)"
    using ilog2_bounds(2)[OF assms(1)] assms(2) by linarith
  have "ilog2 x < k + 1"
  proof (rule ccontr)
    assume "\<not> ilog2 x < k + 1"
    then have "(2::rat) powi (k + 1) \<le> 2 powi ilog2 x"
      by (intro power_int_increasing) auto
    with a show False by linarith
  qed
  moreover have "k < ilog2 x + 1"
  proof (rule ccontr)
    assume "\<not> k < ilog2 x + 1"
    then have "(2::rat) powi (ilog2 x + 1) \<le> 2 powi k"
      by (intro power_int_increasing) auto
    with b show False by linarith
  qed
  ultimately show ?thesis by linarith
qed

lemma fl_error_exponent:
  assumes "x \<noteq> 0"
  shows "\<bar>fl x - x\<bar> \<le> 2 powi (max (ilog2 \<bar>x\<bar> - 52) (- 1074)) / 2"
proof -
  define e where "e = max (ilog2 \<bar>x\<bar> - 52) (- 1074)"
  define m where "m = round_half_even (x / 2 powi e)"
  have f: "fl x = of_int m * 2 powi e"
    using assms by (simp add: fl_def Let_def e_def m_def)
  have "\<bar>of_int m - x / 2 powi e\<bar> \<le> 1 / 2"
    unfolding m_def by (rule round_half_even_error)
  then have "\<bar>of_int m - x / 2 powi e\<bar> * 2 powi e \<le> 1 / 2 * 2 powi e"
    by (intro mult_right_mono) (auto simp: less_imp_le)
  moreover have "\<bar>of_int m - x / 2 powi e\<bar> * 2 powi e = \<bar>of_int m * 2 powi e - x\<bar>"
  proof -
    have "\<bar>of_int m - x / 2 powi e\<bar> * 2 powi e = \<bar>(of_int m - x / 2 powi e) * 2 powi e\<bar>"
      by (simp add: abs_mult)
    also have "(of_int m - x / 2 powi e) * 2 powi e = of_int m * 2 powi e - x"
      by (simp add: field_simps)
    finally show ?thesis .
  qed
  ultimately have "\<bar>of_int m * 2 powi e - x\<bar> \<le> 2 powi e / 2"
    by linarith
  then show ?thesis
    unfolding f e_def .
qed

lemma fl_error_relative:
  assumes "2 powi (- 1022) \<le> \<bar>x\<bar>"
  shows "\<bar>fl x - x\<bar> \<le> \<bar>x\<bar> / 2 ^ 53"
proof -
  have pos: "0 < \<bar>x\<bar>"
    using assms two_powi_pos[of "- 1022"] by linarith
  then have nz: "x \<noteq> 0" by auto
  have "- 1022 \<le> ilog2 \<bar>x\<bar>"
  proof (rule ccontr)
    assume "\<not> - 1022 \<le> ilog2 \<bar>x\<bar>"
    then have "ilog2 \<bar>x\<bar> + 1 \<le> - 1022" by linarith
    then have "(2::rat) powi (ilog2 \<bar>x\<bar> + 1) \<le> 2 powi (- 1022)"
      by (intro power_int_increasing) auto
    with ilog2_bounds(2)[OF pos] assms show False by linarith
  qed
  then have e: "max (ilog2 \<bar>x\<bar> - 52) (- 1074) = ilog2 \<bar>x\<bar> - 52" by linarith
  have "\<bar>fl x - x\<bar> \<le> 2 powi (ilog2 \<bar>x\<bar> - 52) / 2"
    using fl_error_exponent[OF nz] e by simp
  also have "\<dots> = 2 powi ilog2 \<bar>x\<bar> / 2 ^ 53"
    by (simp add: power_int_diff)
  also have "\<dots> \<le> \<bar>x\<bar> / 2 ^ 53"
    using ilog2_bounds(1)[OF pos] by (simp add: divide_right_mono)
  finally show ?thesis .
qed

lemma fl_of_int:
  assumes "\<bar>n\<bar> \<le> 2 ^ 53"
  shows "fl (of_int n) = of_int n"
proof (cases "n = 0")
  case True
  then show ?thesis by (simp add: fl_def)
next
  case False
  define x :: rat where "x = of_int n"
  have pos: "0 < \<bar>x\<bar>" using False by (simp add: x_def)
  have ge1: "1 \<le> \<bar>x\<bar>"
  proof -
    have "1 \<le> \<bar>n\<bar>" using False by linarith
    then have "(of_int 1 :: rat) \<le> of_int \<bar>n\<bar>" by (simp only: of_int_le_iff)
    then show ?thesis by (simp add: x_def)
  qed
  have le53: "\<bar>x\<bar> \<le> 2 ^ 53"
  proof -
    have "(of_int \<bar>n\<bar> :: rat) \<le> of_int (2 ^ 53)" using assms by (simp only: of_int_le_iff)
    then show ?thesis by (simp add: x_def)
  qed
  define e where "e = max (ilog2 \<bar>x\<bar> - 52) (- 1074)"
  have lo: "0 \<le> ilog2 \<bar>x\<bar>"
  proof (rule ccontr)
    assume "\<not> 0 \<le> ilog2 \<bar>x\<bar>"
    then have "ilog2 \<bar>x\<bar> + 1 \<le> 0" by linarith
    then have "(2::rat) powi (ilog2 \<bar>x\<bar> + 1) \<le> 2 powi 0"
      by (intro power_int_increasing) auto
    with ilog2_bounds(2)[OF pos] ge1 show False by simp
  qed
  have hi: "ilog2 \<bar>x\<bar> \<le> 53"
  proof (rule ccontr)
    assume "\<not> ilog2 \<bar>x\<bar> \<le> 53"
    then have "54 \<le> ilog2 \<bar>x\<bar>" by linarith
    then have "(2::rat) powi 54 \<le> 2 powi ilog2 \<bar>x\<bar>"
      by (intro power_int_increasing) auto
    with ilog2_bounds(1)[OF pos] le53 show False by simp
  qed
  show ?thesis
  proof (cases "ilog2 \<bar>x\<bar> = 53")
    case True
    then have e1: "e = 1" by (simp add: e_def)
    have "2 ^ 53 \<le> \<bar>x\<bar>" using ilog2_bounds(1)[OF pos] True by simp
    with le53 have "\<bar>x\<bar> = 2 ^ 53" by linarith
    then have "x = 2 ^ 53 \<or> x = - (2 ^ 53)" by linarith
    then have "of_int (round_half_even (x / 2)) * 2 = x"
    proof
      assume "x = 2 ^ 53"
      then have h: "x / 2 = of_int (2 ^ 52)" by simp
      have "round_half_even (x / 2) = 2 ^ 52"
        unfolding h by (rule round_half_even_of_int)
      then show ?thesis using \<open>x = 2 ^ 53\<close> by simp
    next
      assume "x = - (2 ^ 53)"
      then have h: "x / 2 = of_int (- (2 ^ 52))" by simp
      have "round_half_even (x / 2) = - (2 ^ 52)"
        unfolding h by (rule round_half_even_of_int)
      then show ?thesis using \<open>x = - (2 ^ 53)\<close> by simp
    qed
    then show ?thesis
      using pos e1 by (simp add: fl_def Let_def e_def[symmetric] x_def[symmetric])
  next
    case False
    with hi lo have e: "e = ilog2 \<bar>x\<bar> - 52" "e \<le> 0" by (auto simp: e_def)
    define N where "N = nat (- e)"
    have eN: "e = - int N" using e(2) by (simp add: N_def)
    have p: "(2::rat) powi e = inverse (2 ^ N)"
      unfolding eN by (simp add: power_int_minus)
    have h: "x / 2 powi e = of_int (n * 2 ^ N)"
      unfolding p by (simp add: x_def divide_inverse)
    have "round_half_even (x / 2 powi e) = n * 2 ^ N"
      unfolding h by (rule round_half_even_of_int)
    then have "of_int (round_half_even (x / 2 powi e)) * 2 powi e = x"
      unfolding p by (simp add: x_def)
    then show ?thesis
      using pos by (simp add: fl_def Let_def e_def[symmetric] x_def[symmetric])
  qed
qed

lemma round_double_Fin:
  assumes "fl x = y" "- (2 ^ 1024) < y" "y < 2 ^ 1024"
  shows "round_double x = Fin y"
  using assms by (simp add: round_double_def Let_def)

section \<open>Files written by the conversion loops\<close>

lemma out_dir_print [simp]: "out_dir (print l w) = out_dir w"
  by (simp add: print_def)

lemma out_dir_print_progress [simp]: "out_dir (print_progress p w) = out_dir w"
  by (simp add: print_progress_def)

lemma map_of_save [simp]:
  "map_of (out_dir (save name f w)) k = (if k = name then Some f else map_of (out_dir w) k)"
  by (simp add: save_def update_conv)

lemma center_on_canvas_size:
  "center_on_canvas width height buf = Inr img \<Longrightarrow> img_width img = width \<and> img_height img = height"
  by (auto simp: center_on_canvas_def Image_new_def paste_def split: if_splits)

lemma render_page_size:
  "render_page env width height pg = Inr img \<Longrightarrow> img_width img = width \<and> img_height img = height"
  by (auto simp: render_page_def center_on_canvas_size split: sum.splits if_splits)

lemma pdf_page_step_files:
  assumes "pdf_page_step env width height n k pg w = (w', r)"
  shows "map_of (out_dir w') name = map_of (out_dir w) name \<or>
         (\<exists>f. map_of (out_dir w') name = Some f \<and> full_size width height f)"
  using assms
  by (auto simp: pdf_page_step_def Let_def full_size_def dest: render_page_size split: sum.splits if_splits)

lemma pdf_page_step_slide:
  assumes "pdf_page_step env width height n k pg w = (w', Inr u)"
  shows "\<exists>f. map_of (out_dir w') (slide_filename k) = Some f \<and> full_size width height f"
  using assms
  by (auto simp: pdf_page_step_def Let_def full_size_def dest: render_page_size split: sum.splits if_splits)

lemma pdf_pages_loop_files:
  "pdf_pages_loop env width height n k pgs w = (w', r) \<Longrightarrow>
   map_of (out_dir w') name = map_of (out_dir w) name \<or>
   (\<exists>f. map_of (out_dir w') name = Some f \<and> full_size width height f)"
proof (induction pgs arbitrary: k w)
  case Nil
  then show ?case by simp
next
  case (Cons pg pgs)
  obtain w1 r1 where s: "pdf_page_step env width height n k pg w = (w1, r1)"
    by (cases "pdf_page_step env width height n k pg w")
  show ?case
  proof (cases r1)
    case (Inl e)
    with Cons.prems s have "w' = w1" by simp
    with s show ?thesis using pdf_page_step_files by blast
  next
    case (Inr u)
    with Cons.prems s have l: "pdf_pages_loop env width height n (Suc k) pgs w1 = (w', r)" by simp
    from Cons.IH[OF l] pdf_page_step_files[OF s, of name] show ?thesis by auto
  qed
qed

lemma pdf_pages_loop_slides:
  "pdf_pages_loop env width height n k pgs w = (w', Inr u) \<Longrightarrow> k \<le> i \<Longrightarrow> i < k + length pgs \<Longrightarrow>
   \<exists>f. map_of (out_dir w') (slide_filename i) = Some f \<and> full_size width height f"
proof (induction pgs arbitrary: k w)
  case Nil
  then show ?case by simp
next
  case (Cons pg pgs)
  obtain w1 r1 where s: "pdf_page_step env width height n k pg w = (w1, r1)"
    by (cases "pdf_page_step env width height n k pg w")
  show ?case
  proof (cases r1)
    case (Inl e)
    with Cons.prems s show ?thesis by simp
  next
    case (Inr u1)
    with Cons.prems s have l: "pdf_pages_loop env width height n (Suc k) pgs w1 = (w', Inr u)" by simp
    show ?thesis
    proof (cases "i = k")
      case True
      from pdf_page_step_slide s Inr obtain f where
        "map_of (out_dir w1) (slide_filename k) = Some f" "full_size width height f" by blast
      with pdf_pages_loop_files[OF l, of "slide_filename k"] True show ?thesis by auto
    next
      case False
      with Cons.prems have "Suc k \<le> i" "i < Suc k + length pgs" by auto
      from Cons.IH[OF l this] show ?thesis .
    qed
  qed
qed

section \<open>The fitter on a degenerate page\<close>

lemma int_to_float_exact:
  assumes "\<bar>n\<bar> \<le> 2 ^ 53"
  shows "int_to_float n = Inr (of_int n)"
proof -
  have "(of_int \<bar>n\<bar> :: rat) \<le> of_int (2 ^ 53)" using assms by (simp only: of_int_le_iff)
  then have b: "\<bar>of_int n :: rat\<bar> \<le> 2 ^ 53" by simp
  have "(2::rat) ^ 53 < 2 ^ 1024" by simp
  with b have "- (2 ^ 1024) < (of_int n :: rat)" "(of_int n :: rat) < 2 ^ 1024" by linarith+
  then have "round_double (of_int n) = Fin (of_int n)"
    using fl_of_int[OF assms] by (intro round_double_Fin)
  then show ?thesis by (simp add: int_to_float_def)
qed










section \<open>The example run\<close>

lemma fl_12_5: "fl (12 / 5) = 5404319552844595 / 2251799813685248"
  by code_simp

lemma fl_9_5: "fl (9 / 5) = 8106479329266893 / 4503599627370496"
  by code_simp

lemma example_zoom:
  "zoom_for 1920 1080 example_page = Inr (Fin (8106479329266893 / 4503599627370496))"
proof -
  have a: "int_float_truediv 1920 800 = Inr (Fin (5404319552844595 / 2251799813685248))"
    by (simp add: int_float_truediv_def int_to_float_exact float_truediv_def round_double_def fl_12_5)
  have b: "int_float_truediv 1080 600 = Inr (Fin (8106479329266893 / 4503599627370496))"
    by (simp add: int_float_truediv_def int_to_float_exact float_truediv_def round_double_def fl_9_5)
  show ?thesis
    by (simp add: zoom_for_def example_page_def a b py_min_def)
qed

lemma example_ceil:
  "\<lceil>(8106479329266893 / 4503599627370496 :: rat) * 800 - 1 / 1000\<rceil> = 1440"
  "\<lceil>(8106479329266893 / 4503599627370496 :: rat) * 600 - 1 / 1000\<rceil> = 1080"
  by code_simp+

lemma example_buffer_Fin:
  "get_pixmap example_page (Fin z) =
     Inr \<lparr>img_width = \<lceil>z * 800 - 1 / 1000\<rceil>, img_height = \<lceil>z * 600 - 1 / 1000\<rceil>,
          img_pixel = (\<lambda>x y. (255, 255, 255))\<rparr>"
  by (simp add: example_page_def example_buffer_def)

lemma example_pixmap:
  "get_pixmap example_page (Fin (8106479329266893 / 4503599627370496)) =
     Inr \<lparr>img_width = 1440, img_height = 1080, img_pixel = (\<lambda>x y. (255, 255, 255))\<rparr>"
  by (simp only: example_buffer_Fin example_ceil)

lemma example_render:
  "render_page example_env 1920 1080 example_page =
     Inr \<lparr>img_width = 1920, img_height = 1080,
          img_pixel = (\<lambda>x y. if 240 \<le> x \<and> x < 1680 \<and> 0 \<le> y \<and> y < 1080
                               then (255, 255, 255) else (0, 0, 0))\<rparr>"
  by (simp add: render_page_def example_zoom example_pixmap example_env_def center_on_canvas_def
      Image_new_def paste_def in_box_def x_offset_def y_offset_def fun_eq_iff)

section \<open>The size and the background of the slide images\<close>

lemma full_size_placeholder [simp]: "full_size width height (placeholder_file width height)"
  by (simp add: full_size_def placeholder_file_def placeholder_image_def)

lemma direct_slide_step_files:
  assumes "direct_slide_step env width height n k w = (w', r)"
  shows "map_of (out_dir w') name = map_of (out_dir w) name \<or>
         map_of (out_dir w') name = Some (placeholder_file width height)"
  using assms
  by (auto simp: direct_slide_step_def Let_def Image_new_def placeholder_file_def
      placeholder_image_def split: sum.splits if_splits)

lemma direct_slide_step_slide:
  assumes "direct_slide_step env width height n k w = (w', Inr u)"
  shows "map_of (out_dir w') (slide_filename k) = Some (placeholder_file width height)"
  using assms
  by (auto simp: direct_slide_step_def Let_def Image_new_def placeholder_file_def
      placeholder_image_def split: sum.splits if_splits)

lemma direct_slides_loop_files:
  "direct_slides_loop env width height n k xs w = (w', r) \<Longrightarrow>
   map_of (out_dir w') name = map_of (out_dir w) name \<or>
   map_of (out_dir w') name = Some (placeholder_file width height)"
proof (induction xs arbitrary: k w)
  case Nil
  then show ?case by simp
next
  case (Cons x xs)
  obtain w1 r1 where s: "direct_slide_step env width height n k w = (w1, r1)"
    by (cases "direct_slide_step env width height n k w")
  show ?case
  proof (cases r1)
    case (Inl e)
    with Cons.prems s have "w' = w1" by simp
    with s show ?thesis using direct_slide_step_files by blast
  next
    case (Inr u)
    with Cons.prems s have l: "direct_slides_loop env width height n (Suc k) xs w1 = (w', r)"
      by simp
    from Cons.IH[OF l] direct_slide_step_files[OF s, of name] show ?thesis by auto
  qed
qed

lemma direct_slides_loop_slides:
  "direct_slides_loop env width height n k xs w = (w', Inr u) \<Longrightarrow> k \<le> i \<Longrightarrow>
   i < k + length xs \<Longrightarrow>
   map_of (out_dir w') (slide_filename i) = Some (placeholder_file width height)"
proof (induction xs arbitrary: k w)
  case Nil
  then show ?case by simp
next
  case (Cons x xs)
  obtain w1 r1 where s: "direct_slide_step env width height n k w = (w1, r1)"
    by (cases "direct_slide_step env width height n k w")
  show ?case
  proof (cases r1)
    case (Inl e)
    with Cons.prems s show ?thesis by simp
  next
    case (Inr u1)
    with Cons.prems s have l: "direct_slides_loop env width height n (Suc k) xs w1 = (w', Inr u)"
      by simp
    show ?thesis
    proof (cases "i = k")
      case True
      from direct_slide_step_slide s Inr have
        "map_of (out_dir w1) (slide_filename k) = Some (placeholder_file width height)" by blast
      with direct_slides_loop_files[OF l, of "slide_filename k"] True show ?thesis by auto
    next
      case False
      with Cons.prems have "Suc k \<le> i" "i < Suc k + length xs" by auto
      from Cons.IH[OF l this] show ?thesis .
    qed
  qed
qed

lemma convert_pdf_to_images_files:
  assumes "convert_pdf_to_images env pdf_path width height w = (w', r)"
  shows "map_of (out_dir w') name = map_of (out_dir w) name \<or>
         (\<exists>f. map_of (out_dir w') name = Some f \<and> full_size width height f)"
  using assms pdf_pages_loop_files
  by (fastforce simp: convert_pdf_to_images_def split: if_splits sum.splits prod.splits)

lemma convert_pdf_to_images_slides:
  assumes "convert_pdf_to_images env pdf_path width height w = (w', Inr n)" and "i < n"
  shows "\<exists>f. map_of (out_dir w') (slide_filename i) = Some f \<and> full_size width height f"
proof -
  from assms(1) obtain doc u where
    "pdf_pages_loop env width height (length doc) 0 doc w = (w', Inr u)" "n = length doc"
    by (auto simp: convert_pdf_to_images_def split: if_splits sum.splits prod.splits)
  with pdf_pages_loop_slides[of env width height "length doc" 0 doc w w' u i] assms(2)
  show ?thesis by simp
qed

lemma convert_with_pptx_direct_files:
  assumes "convert_with_pptx_direct env input_path width height w = (w', r)"
  shows "map_of (out_dir w') name = map_of (out_dir w) name \<or>
         map_of (out_dir w') name = Some (placeholder_file width height)"
proof (cases "PPTX_AVAILABLE env")
  case False
  with assms show ?thesis by (simp add: convert_with_pptx_direct_def)
next
  case True
  show ?thesis
  proof (cases "Presentation env input_path")
    case (Inl e)
    with assms True show ?thesis by (simp add: convert_with_pptx_direct_def)
  next
    case (Inr prs)
    define w2 where "w2 = print ''Consider installing LibreOffice for better results.''
      (print ''WARNING: Direct PPTX rendering has limited support for complex formatting.'' w)"
    obtain w3 r3 where l: "direct_slides_loop env width height (length prs) 0 prs w2 = (w3, r3)"
      by (cases "direct_slides_loop env width height (length prs) 0 prs w2")
    with assms True Inr have "w' = w3"
      by (auto simp: convert_with_pptx_direct_def Let_def w2_def split: sum.splits)
    with direct_slides_loop_files[OF l, of name] show ?thesis
      by (simp add: w2_def)
  qed
qed

lemma convert_with_pptx_direct_slides:
  assumes "convert_with_pptx_direct env input_path width height w = (w', Inr n)" and "i < n"
  shows "map_of (out_dir w') (slide_filename i) = Some (placeholder_file width height)"
proof -
  from assms(1) obtain prs :: "(py_error + text_record) list" and w2 u where
    "direct_slides_loop env width height (length prs) 0 prs w2 = (w', Inr u)" "n = length prs"
    by (auto simp: convert_with_pptx_direct_def Let_def split: if_splits sum.splits prod.splits)
  with direct_slides_loop_slides[of env width height "length prs" 0 prs w2 w' u i] assms(2)
  show ?thesis by simp
qed

lemma round_double_of_int:
  assumes "\<bar>n\<bar> \<le> 2 ^ 53"
  shows "round_double (of_int n) = Fin (of_int n)"
  using int_to_float_exact[OF assms]
  by (simp add: int_to_float_def split: double.splits)

lemma progress_percent_full:
  assumes "n \<noteq> 0"
  shows "progress_percent n n = Inr 100"
proof -
  have a: "round_double 1 = Fin 1" using round_double_of_int[of 1] by simp
  have b: "round_double 100 = Fin 100" using round_double_of_int[of 100] by simp
  show ?thesis
    using assms by (simp add: progress_percent_def int_truediv_def a float_mul_def b py_int_def)
qed

lemma slide_filename_0: "slide_filename 0 = ''slide_001.jpg''"
  by code_simp

lemma str_int_100: "str_int 100 = ''100''"
  by code_simp

lemma example_pdf_run:
  "convert_pdf_to_images example_env (''/tmp/tmpa1'', ''deck.pdf'') 1920 1080 pdf_world =
     (pdf_world\<lparr>out_dir := [(''slide_001.jpg'', ImageFile ''JPEG'' 92 True example_slide)],
                stdout := [''PROGRESS:100'']\<rparr>, Inr 1)"
proof -
  have r: "render_page example_env 1920 1080 example_page = Inr example_slide"
    by (simp add: example_render example_slide_def)
  have p: "PYMUPDF_AVAILABLE example_env" by (simp add: example_env_def)
  have f: "fitz_open pdf_world ''/tmp/tmpa1'' ''deck.pdf'' = Inr [example_page]"
    by (simp add: fitz_open_def pdf_world_def)
  have "convert_pdf_to_images example_env (''/tmp/tmpa1'', ''deck.pdf'') 1920 1080 pdf_world =
     (print ''PROGRESS:100''
        (save ''slide_001.jpg'' (ImageFile ''JPEG'' 92 True example_slide) pdf_world), Inr 1)"
    by (simp add: convert_pdf_to_images_def p f pdf_page_step_def r slide_filename_0
        progress_percent_full print_progress_def str_int_100)
  then show ?thesis
    by (simp add: save_def print_def pdf_world_def)
qed

lemma example_direct_run:
  "convert_with_pptx_direct example_env ''deck.pptx'' 1920 1080 empty_world =
     (\<lparr>out_dir = [(''slide_001.jpg'', placeholder_file 1920 1080)],
       stdout = [''WARNING: Direct PPTX rendering has limited support for complex formatting.'',
                 ''Consider installing LibreOffice for better results.'',
                 ''PROGRESS:100''],
       temp_dirs = []\<rparr>, Inr 1)"
proof -
  have p: "PPTX_AVAILABLE example_env" "PIL_AVAILABLE example_env"
    "Presentation example_env ''deck.pptx'' = Inr [Inr \<lparr>slide_text = ''Hello'', firstLine = ''Hello''\<rparr>]"
    by (simp_all add: example_env_def)
  show ?thesis
    by (simp add: convert_with_pptx_direct_def p direct_slide_step_def Image_new_def
        slide_filename_0 progress_percent_full print_progress_def str_int_100 save_def print_def
        empty_world_def placeholder_file_def placeholder_image_def)
qed

lemma center_on_canvas_composite:
  assumes "img_width buf \<noteq> width \<or> img_height buf \<noteq> height" and "0 \<le> width" and "0 \<le> height"
  shows "center_on_canvas width height buf =
           Inr \<lparr>img_width = width, img_height = height,
                img_pixel = (\<lambda>x y. if (width - img_width buf) div 2 \<le> x \<and>
                                     x < (width - img_width buf) div 2 + img_width buf \<and>
                                     (height - img_height buf) div 2 \<le> y \<and>
                                     y < (height - img_height buf) div 2 + img_height buf
                                  then img_pixel buf (x - (width - img_width buf) div 2)
                                         (y - (height - img_height buf) div 2)
                                  else (0, 0, 0))\<rparr>"
  using assms
  by (auto simp: center_on_canvas_def Image_new_def paste_def in_box_def x_offset_def
      y_offset_def fun_eq_iff)

lemma center_on_canvas_identity:
  assumes "img_width buf = width" and "img_height buf = height"
  shows "center_on_canvas width height buf = Inr buf"
  using assms by (simp add: center_on_canvas_def)

lemma center_small_buffer: "center_on_canvas 1920 1080 small_buffer = Inr small_slide"
  by (simp add: center_on_canvas_def Image_new_def paste_def in_box_def x_offset_def
      y_offset_def small_buffer_def small_slide_def fun_eq_iff)

text \<open>
  C1. Every full-size image has exactly the target size. The renderer returns an image of
  the target width and height whatever the size of the page. A buffer of another size is
  composited onto a new canvas of the target size: the buffer's pixels fill the box that
  starts at \<open>(width - buffer width) div 2\<close> from the left and
  \<open>(height - buffer height) div 2\<close> from the top, and every other pixel is black. A
  buffer of the target size is saved as it is. After \<open>convert_pdf_to_images\<close>, and after
  \<open>convert_with_pptx_direct\<close>, every file of the output directory is as it was before or
  is a JPEG of the target size, and on success there is such a file under the name of
  every slide.
\<close>

theorem full_size_images_have_target_size:
  "(render_page env width height pg = Inr img \<longrightarrow>
      img_width img = width \<and> img_height img = height) \<and>
   ((img_width buf \<noteq> width \<or> img_height buf \<noteq> height) \<and> 0 \<le> width \<and> 0 \<le> height \<longrightarrow>
      center_on_canvas width height buf =
        Inr \<lparr>img_width = width, img_height = height,
             img_pixel = (\<lambda>x y. if (width - img_width buf) div 2 \<le> x \<and>
                                     x < (width - img_width buf) div 2 + img_width buf \<and>
                                     (height - img_height buf) div 2 \<le> y \<and>
                                     y < (height - img_height buf) div 2 + img_height buf
                                  then img_pixel buf (x - (width - img_width buf) div 2)
                                         (y - (height - img_height buf) div 2)
                                  else (0, 0, 0))\<rparr>) \<and>
   (img_width buf = width \<and> img_height buf = height \<longrightarrow>
      center_on_canvas width height buf = Inr buf) \<and>
   (convert_pdf_to_images env pdf_path width height w = (w', r) \<longrightarrow>
      (\<forall>name. map_of (out_dir w') name = map_of (out_dir w) name \<or>
              (\<exists>f. map_of (out_dir w') name = Some f \<and> full_size width height f)) \<and>
      (\<forall>n i. r = Inr n \<and> i < n \<longrightarrow>
              (\<exists>f. map_of (out_dir w') (slide_filename i) = Some f \<and> full_size width height f))) \<and>
   (convert_with_pptx_direct env input_path width height v = (v', s) \<longrightarrow>
      (\<forall>name. map_of (out_dir v') name = map_of (out_dir v) name \<or>
              (\<exists>f. map_of (out_dir v') name = Some f \<and> full_size width height f)) \<and>
      (\<forall>n i. s = Inr n \<and> i < n \<longrightarrow>
              (\<exists>f. map_of (out_dir v') (slide_filename i) = Some f \<and> full_size width height f)))"
proof (intro conjI impI allI)
  assume "render_page env width height pg = Inr img"
  then show "img_width img = width" "img_height img = height"
    using render_page_size by blast+
next
  assume "(img_width buf \<noteq> width \<or> img_height buf \<noteq> height) \<and> 0 \<le> width \<and> 0 \<le> height"
  then show "center_on_canvas width height buf =
        Inr \<lparr>img_width = width, img_height = height,
             img_pixel = (\<lambda>x y. if (width - img_width buf) div 2 \<le> x \<and>
                                     x < (width - img_width buf) div 2 + img_width buf \<and>
                                     (height - img_height buf) div 2 \<le> y \<and>
                                     y < (height - img_height buf) div 2 + img_height buf
                                  then img_pixel buf (x - (width - img_width buf) div 2)
                                         (y - (height - img_height buf) div 2)
                                  else (0, 0, 0))\<rparr>"
    using center_on_canvas_composite by blast
next
  assume "img_width buf = width \<and> img_height buf = height"
  then show "center_on_canvas width height buf = Inr buf"
    by (simp add: center_on_canvas_identity)
next
  fix name
  assume "convert_pdf_to_images env pdf_path width height w = (w', r)"
  then show "map_of (out_dir w') name = map_of (out_dir w) name \<or>
              (\<exists>f. map_of (out_dir w') name = Some f \<and> full_size width height f)"
    by (rule convert_pdf_to_images_files)
next
  fix n i
  assume "convert_pdf_to_images env pdf_path width height w = (w', r)" "r = Inr n \<and> i < n"
  then show "\<exists>f. map_of (out_dir w') (slide_filename i) = Some f \<and> full_size width height f"
    using convert_pdf_to_images_slides by blast
next
  fix name
  assume "convert_with_pptx_direct env input_path width height v = (v', s)"
  from convert_with_pptx_direct_files[OF this, of name]
  show "map_of (out_dir v') name = map_of (out_dir v) name \<or>
              (\<exists>f. map_of (out_dir v') name = Some f \<and> full_size width height f)"
    by auto
next
  fix n i
  assume "convert_with_pptx_direct env input_path width height v = (v', s)" "s = Inr n \<and> i < n"
  then have "map_of (out_dir v') (slide_filename i) = Some (placeholder_file width height)"
    using convert_with_pptx_direct_slides by blast
  then show "\<exists>f. map_of (out_dir v') (slide_filename i) = Some f \<and> full_size width height f"
    by simp
qed

theorem full_size_images_have_target_size_witness:
  "render_page example_env 1920 1080 example_page = Inr example_slide \<and>
   img_width example_slide = 1920 \<and> img_height example_slide = 1080 \<and>
   img_width small_buffer \<noteq> 1920 \<and> img_height small_buffer \<noteq> 1080 \<and>
   center_on_canvas 1920 1080 small_buffer = Inr small_slide \<and>
   img_pixel small_slide 160 90 = (255, 0, 0) \<and>
   img_pixel small_slide 161 90 = (255, 255, 255) \<and>
   img_pixel small_slide 160 89 = (0, 0, 0) \<and>
   img_pixel small_slide 159 90 = (0, 0, 0) \<and>
   img_pixel small_slide 1759 989 = (255, 255, 255) \<and>
   img_pixel small_slide 1759 990 = (0, 0, 0) \<and>
   img_pixel small_slide 1760 989 = (0, 0, 0) \<and>
   center_on_canvas 1920 1080 example_slide = Inr example_slide \<and>
   snd (convert_pdf_to_images example_env (''/tmp/tmpa1'', ''deck.pdf'') 1920 1080 pdf_world) = Inr 1 \<and>
   (\<exists>f. map_of (out_dir (fst (convert_pdf_to_images example_env (''/tmp/tmpa1'', ''deck.pdf'')
                                 1920 1080 pdf_world))) (slide_filename 0) = Some f \<and>
        full_size 1920 1080 f) \<and>
   snd (convert_with_pptx_direct example_env ''deck.pptx'' 1920 1080 empty_world) = Inr 1 \<and>
   (\<exists>f. map_of (out_dir (fst (convert_with_pptx_direct example_env ''deck.pptx'' 1920 1080
                                 empty_world))) (slide_filename 0) = Some f \<and>
        full_size 1920 1080 f)"
proof -
  have r: "render_page example_env 1920 1080 example_page = Inr example_slide"
    by (simp add: example_render example_slide_def)
  obtain w' where p: "convert_pdf_to_images example_env (''/tmp/tmpa1'', ''deck.pdf'') 1920 1080
      pdf_world = (w', Inr 1)"
    using example_pdf_run by blast
  obtain v' where d: "convert_with_pptx_direct example_env ''deck.pptx'' 1920 1080 empty_world =
      (v', Inr 1)"
    using example_direct_run by blast
  have b: "(img_width small_buffer \<noteq> 1920 \<or> img_height small_buffer \<noteq> 1080) \<and>
      (0::int) \<le> 1920 \<and> (0::int) \<le> 1080"
    by (simp add: small_buffer_def)
  note t = full_size_images_have_target_size[of example_env 1920 1080 example_page example_slide
      small_buffer "(''/tmp/tmpa1'', ''deck.pdf'')" pdf_world w' "Inr 1" "''deck.pptx''"
      empty_world v' "Inr 1"]
  from t r have 1: "img_width example_slide = 1920 \<and> img_height example_slide = 1080"
    by blast
  note c = t[THEN conjunct2, THEN conjunct1, THEN mp, OF b]
  have 2: "center_on_canvas 1920 1080 small_buffer = Inr small_slide"
    unfolding c by (simp add: small_buffer_def small_slide_def fun_eq_iff)
  have 3: "center_on_canvas 1920 1080 example_slide = Inr example_slide"
    using full_size_images_have_target_size[of example_env 1920 1080 example_page example_slide
      example_slide "(''/tmp/tmpa1'', ''deck.pdf'')" pdf_world w' "Inr 1" "''deck.pptx''"
      empty_world v' "Inr 1"] 1
    by blast
  from t p have 4: "\<exists>f. map_of (out_dir w') (slide_filename 0) = Some f \<and> full_size 1920 1080 f"
    by blast
  from t d have 5: "\<exists>f. map_of (out_dir v') (slide_filename 0) = Some f \<and> full_size 1920 1080 f"
    by blast
  have 6: "img_width small_buffer \<noteq> 1920 \<and> img_height small_buffer \<noteq> 1080"
    by (simp add: small_buffer_def)
  have 7: "img_pixel small_slide 160 90 = (255, 0, 0) \<and>
   img_pixel small_slide 161 90 = (255, 255, 255) \<and>
   img_pixel small_slide 160 89 = (0, 0, 0) \<and>
   img_pixel small_slide 159 90 = (0, 0, 0) \<and>
   img_pixel small_slide 1759 989 = (255, 255, 255) \<and>
   img_pixel small_slide 1759 990 = (0, 0, 0) \<and>
   img_pixel small_slide 1760 989 = (0, 0, 0)"
    by (simp add: small_slide_def)
  from r 1 2 3 4 5 6 7 p d show ?thesis by simp
qed

text \<open>
  C10, as the code has it. In the fallback path every file written is the placeholder,
  whose pixels are all the dark blue (0, 0, 32), and on success every slide has one. In
  the rendering path, a buffer of another size than the target is centred on a canvas
  whose pixels outside the box of the buffer are the black (0, 0, 0), which differs from
  the placeholder's pixel at the same place; a buffer of the target size is saved as it
  is, with no canvas and no background of the script's own. So the background tells the
  two paths apart only in the runs in which a canvas is allocated.
\<close>

theorem placeholder_background_is_dark_blue:
  "(convert_with_pptx_direct env input_path width height w = (w', r) \<longrightarrow>
      (\<forall>name. map_of (out_dir w') name = map_of (out_dir w) name \<or>
              map_of (out_dir w') name = Some (placeholder_file width height)) \<and>
      (\<forall>n i. r = Inr n \<and> i < n \<longrightarrow>
              map_of (out_dir w') (slide_filename i) = Some (placeholder_file width height))) \<and>
   file_image (placeholder_file width height) = placeholder_image width height \<and>
   (\<forall>x y. img_pixel (placeholder_image width height) x y = (0, 0, 32)) \<and>
   (center_on_canvas width height buf = Inr img \<and>
    (img_width buf \<noteq> width \<or> img_height buf \<noteq> height) \<longrightarrow>
      (\<forall>x y. \<not> ((width - img_width buf) div 2 \<le> x \<and>
                 x < (width - img_width buf) div 2 + img_width buf \<and>
                 (height - img_height buf) div 2 \<le> y \<and>
                 y < (height - img_height buf) div 2 + img_height buf) \<longrightarrow>
             img_pixel img x y = (0, 0, 0) \<and>
             img_pixel img x y \<noteq> img_pixel (placeholder_image width height) x y)) \<and>
   (img_width buf = width \<and> img_height buf = height \<longrightarrow>
      center_on_canvas width height buf = Inr buf)"
proof (intro conjI impI allI)
  fix name
  assume "convert_with_pptx_direct env input_path width height w = (w', r)"
  then show "map_of (out_dir w') name = map_of (out_dir w) name \<or>
              map_of (out_dir w') name = Some (placeholder_file width height)"
    by (rule convert_with_pptx_direct_files)
next
  fix n i
  assume "convert_with_pptx_direct env input_path width height w = (w', r)" "r = Inr n \<and> i < n"
  then show "map_of (out_dir w') (slide_filename i) = Some (placeholder_file width height)"
    using convert_with_pptx_direct_slides by blast
next
  show "file_image (placeholder_file width height) = placeholder_image width height"
    by (simp add: placeholder_file_def)
next
  fix x y
  show "img_pixel (placeholder_image width height) x y = (0, 0, 32)"
    by (simp add: placeholder_image_def)
next
  fix x y
  assume a: "center_on_canvas width height buf = Inr img \<and>
    (img_width buf \<noteq> width \<or> img_height buf \<noteq> height)"
    and b: "\<not> ((width - img_width buf) div 2 \<le> x \<and>
                 x < (width - img_width buf) div 2 + img_width buf \<and>
                 (height - img_height buf) div 2 \<le> y \<and>
                 y < (height - img_height buf) div 2 + img_height buf)"
  from a b show c: "img_pixel img x y = (0, 0, 0)"
    by (auto simp: center_on_canvas_def Image_new_def paste_def in_box_def x_offset_def
        y_offset_def split: if_splits)
  then show "img_pixel img x y \<noteq> img_pixel (placeholder_image width height) x y"
    by (simp add: placeholder_image_def)
next
  assume "img_width buf = width \<and> img_height buf = height"
  then show "center_on_canvas width height buf = Inr buf"
    by (simp add: center_on_canvas_identity)
qed

theorem placeholder_background_is_dark_blue_witness:
  "snd (convert_with_pptx_direct example_env ''deck.pptx'' 1920 1080 empty_world) = Inr 1 \<and>
   map_of (out_dir (fst (convert_with_pptx_direct example_env ''deck.pptx'' 1920 1080
                           empty_world))) ''slide_001.jpg'' = Some (placeholder_file 1920 1080) \<and>
   img_pixel (file_image (placeholder_file 1920 1080)) 0 0 = (0, 0, 32) \<and>
   center_on_canvas 1920 1080 small_buffer = Inr small_slide \<and>
   img_width small_buffer \<noteq> 1920 \<and>
   img_pixel small_slide 500 89 = (0, 0, 0) \<and>
   img_pixel small_slide 159 500 = (0, 0, 0) \<and>
   img_width (placeholder_image 1920 1080) = 1920 \<and>
   img_height (placeholder_image 1920 1080) = 1080 \<and>
   center_on_canvas 1920 1080 (placeholder_image 1920 1080) = Inr (placeholder_image 1920 1080)"
proof -
  obtain v' where d: "convert_with_pptx_direct example_env ''deck.pptx'' 1920 1080 empty_world =
      (v', Inr 1)"
    using example_direct_run by blast
  have "img_width small_buffer \<noteq> 1920 \<or> img_height small_buffer \<noteq> 1080"
    by (simp add: small_buffer_def)
  with center_small_buffer
  have c: "center_on_canvas 1920 1080 small_buffer = Inr small_slide \<and>
      (img_width small_buffer \<noteq> 1920 \<or> img_height small_buffer \<noteq> 1080)"
    by blast
  have b1: "\<not> ((1920 - img_width small_buffer) div 2 \<le> 500 \<and>
                 500 < (1920 - img_width small_buffer) div 2 + img_width small_buffer \<and>
                 (1080 - img_height small_buffer) div 2 \<le> 89 \<and>
                 89 < (1080 - img_height small_buffer) div 2 + img_height small_buffer)"
    by (simp add: small_buffer_def)
  have b2: "\<not> ((1920 - img_width small_buffer) div 2 \<le> 159 \<and>
                 159 < (1920 - img_width small_buffer) div 2 + img_width small_buffer \<and>
                 (1080 - img_height small_buffer) div 2 \<le> 500 \<and>
                 500 < (1080 - img_height small_buffer) div 2 + img_height small_buffer)"
    by (simp add: small_buffer_def)
  note t = placeholder_background_is_dark_blue[of example_env "''deck.pptx''" 1920 1080
      empty_world v' "Inr 1" small_buffer small_slide]
  from t d have 1: "map_of (out_dir v') (slide_filename 0) = Some (placeholder_file 1920 1080)"
    by blast
  from t have 2: "img_pixel (file_image (placeholder_file 1920 1080)) 0 0 = (0, 0, 32)"
    by simp
  from t c b1 have 3: "img_pixel small_slide 500 89 = (0, 0, 0)"
    by blast
  from t c b2 have 4: "img_pixel small_slide 159 500 = (0, 0, 0)"
    by blast
  have 5: "img_width small_buffer \<noteq> 1920" by (simp add: small_buffer_def)
  have 6: "img_width (placeholder_image 1920 1080) = 1920 \<and>
      img_height (placeholder_image 1920 1080) = 1080"
    by (simp add: placeholder_image_def)
  from placeholder_background_is_dark_blue[of example_env "''deck.pptx''" 1920 1080
      empty_world v' "Inr 1" "placeholder_image 1920 1080" small_slide] 6
  have 7: "center_on_canvas 1920 1080 (placeholder_image 1920 1080) =
      Inr (placeholder_image 1920 1080)"
    by blast
  from d 1 2 3 4 5 6 7 c show ?thesis
    by (simp add: slide_filename_0)
qed

text \<open>
  C10, as the specification states it, fails: the two paths are not told apart by the
  background in every run. A page that the rasterizer renders at the target size is
  saved as rendered, and when it is dark blue all over, the image of the rendering path
  is the placeholder image of the fallback path.
\<close>

theorem placeholder_background_counterexample:
  "render_page example_env 1920 1080 blue_page = Inr (placeholder_image 1920 1080) \<and>
   file_image (placeholder_file 1920 1080) = placeholder_image 1920 1080"
proof -
  have o: "round_double 1 = Fin 1" using round_double_of_int[of 1] by simp
  have z: "zoom_for 1920 1080 blue_page = Inr (Fin 1)"
    by (simp add: zoom_for_def blue_page_def int_float_truediv_def int_to_float_exact
        float_truediv_def o py_min_def)
  have p: "PIL_AVAILABLE example_env" by (simp add: example_env_def)
  have g: "get_pixmap blue_page (Fin 1) = Inr (placeholder_image 1920 1080)"
    by (simp add: blue_page_def)
  have c: "center_on_canvas 1920 1080 (placeholder_image 1920 1080) =
      Inr (placeholder_image 1920 1080)"
    by (simp add: center_on_canvas_def placeholder_image_def)
  show ?thesis
    by (simp add: render_page_def z g p c placeholder_file_def)
qed

section \<open>The choice of the conversion method\<close>

lemma find_libreoffice_example: "find_libreoffice example_env = Some ''soffice''"
  by (simp add: find_libreoffice_def example_env_def truthy_def)

lemma find_libreoffice_bare: "find_libreoffice bare_env = None"
  by (simp add: find_libreoffice_def bare_env_def example_env_def truthy_def possible_paths_def)

text \<open>
  C4. With the method \<open>auto\<close>, the LibreOffice path is chosen exactly when
  \<open>find_libreoffice\<close> finds the binary and PyMuPDF is available, and nothing is printed;
  otherwise the direct path is chosen and the warning is printed. A method given by the
  caller is kept as it is, whatever the machine has, and nothing is printed.
\<close>

theorem auto_selects_libreoffice_iff_available:
  "(choose_method env ''auto'' w = (m, w') \<longrightarrow>
      (m = ''libreoffice'' \<longleftrightarrow> truthy (find_libreoffice env) \<and> PYMUPDF_AVAILABLE env) \<and>
      (m = ''libreoffice'' \<longrightarrow> w' = w) \<and>
      (m \<noteq> ''libreoffice'' \<longrightarrow> m = ''direct'' \<and> w' = print fallback_warning w \<and>
          stdout w' = stdout w @ [fallback_warning])) \<and>
   (method = ''libreoffice'' \<or> method = ''direct'' \<longrightarrow> choose_method env method w = (method, w))"
  by (auto simp: choose_method_def fallback_warning_def print_def)

theorem auto_selects_libreoffice_iff_available_witness:
  "choose_method example_env ''auto'' empty_world = (''libreoffice'', empty_world) \<and>
   truthy (find_libreoffice example_env) \<and> PYMUPDF_AVAILABLE example_env \<and>
   choose_method bare_env ''auto'' empty_world = (''direct'', print fallback_warning empty_world) \<and>
   \<not> truthy (find_libreoffice bare_env) \<and>
   stdout (print fallback_warning empty_world) = [fallback_warning] \<and>
   choose_method bare_env ''libreoffice'' empty_world = (''libreoffice'', empty_world) \<and>
   choose_method example_env ''direct'' empty_world = (''direct'', empty_world)"
proof -
  have "truthy (find_libreoffice example_env)"
    by (simp add: find_libreoffice_example truthy_def)
  moreover have "PYMUPDF_AVAILABLE example_env"
    by (simp add: example_env_def)
  ultimately have a: "truthy (find_libreoffice example_env) \<and> PYMUPDF_AVAILABLE example_env"
    by simp
  have b: "\<not> truthy (find_libreoffice bare_env)"
    by (simp add: find_libreoffice_bare truthy_def)
  obtain m w' where c: "choose_method example_env ''auto'' empty_world = (m, w')"
    by (cases "choose_method example_env ''auto'' empty_world")
  obtain n v' where d: "choose_method bare_env ''auto'' empty_world = (n, v')"
    by (cases "choose_method bare_env ''auto'' empty_world")
  from auto_selects_libreoffice_iff_available[of example_env empty_world m w' "''direct''"] a c
  have 1: "m = ''libreoffice'' \<and> w' = empty_world"
    "choose_method example_env ''direct'' empty_world = (''direct'', empty_world)"
    by blast+
  from auto_selects_libreoffice_iff_available[of bare_env empty_world n v' "''libreoffice''"] b d
  have 2: "n = ''direct'' \<and> v' = print fallback_warning empty_world \<and>
      stdout v' = stdout empty_world @ [fallback_warning]"
    "choose_method bare_env ''libreoffice'' empty_world = (''libreoffice'', empty_world)"
    by blast+
  from 1 2 a b c d show ?thesis
    by (simp add: empty_world_def print_def)
qed

section \<open>The temporary directory of the LibreOffice path\<close>

lemma temp_dirs_print [simp]: "temp_dirs (print l w) = temp_dirs w"
  by (simp add: print_def)

lemma temp_dirs_print_progress [simp]: "temp_dirs (print_progress p w) = temp_dirs w"
  by (simp add: print_progress_def)

lemma temp_dirs_save [simp]: "temp_dirs (save name f w) = temp_dirs w"
  by (simp add: save_def)

lemma temp_dirs_put_temp_files:
  "AList.delete d (temp_dirs (put_temp_files d files w)) = AList.delete d (temp_dirs w)"
  by (simp add: put_temp_files_def delete_update_same)

lemma pdf_page_step_temp_dirs:
  "pdf_page_step env width height n k pg w = (w', r) \<Longrightarrow> temp_dirs w' = temp_dirs w"
  by (auto simp: pdf_page_step_def Let_def split: sum.splits)

lemma pdf_pages_loop_temp_dirs:
  "pdf_pages_loop env width height n k pgs w = (w', r) \<Longrightarrow> temp_dirs w' = temp_dirs w"
proof (induction pgs arbitrary: k w)
  case Nil
  then show ?case by simp
next
  case (Cons pg pgs)
  obtain w1 r1 where s: "pdf_page_step env width height n k pg w = (w1, r1)"
    by (cases "pdf_page_step env width height n k pg w")
  from pdf_page_step_temp_dirs[OF s] have t: "temp_dirs w1 = temp_dirs w" .
  show ?case
  proof (cases r1)
    case (Inl e)
    with Cons.prems s t show ?thesis by simp
  next
    case (Inr u)
    with Cons.prems s have "pdf_pages_loop env width height n (Suc k) pgs w1 = (w', r)" by simp
    from Cons.IH[OF this] t show ?thesis by simp
  qed
qed

lemma convert_pdf_to_images_temp_dirs:
  "convert_pdf_to_images env pdf_path width height w = (w', r) \<Longrightarrow> temp_dirs w' = temp_dirs w"
  using pdf_pages_loop_temp_dirs
  by (fastforce simp: convert_pdf_to_images_def split: if_splits sum.splits prod.splits)

lemma find_pdf_temp_dirs:
  "find_pdf d name w = (w', r) \<Longrightarrow> temp_dirs w' = temp_dirs w"
  by (auto simp: find_pdf_def Let_def split: if_splits)

lemma libreoffice_body_temp_dirs:
  assumes "libreoffice_body env soffice_path input_path width height d w = (w', r)"
  shows "AList.delete d (temp_dirs w') = AList.delete d (temp_dirs w)"
  using assms
  by (auto simp: libreoffice_body_def Let_def temp_dirs_put_temp_files
      split: proc_result.splits if_splits prod.splits sum.splits
      dest!: find_pdf_temp_dirs convert_pdf_to_images_temp_dirs)

lemma TemporaryDirectory_released:
  assumes "TemporaryDirectory env body w = (w', r)"
  shows "map_of (temp_dirs w') (mkdtemp env) = None"
  using assms
  by (auto simp: TemporaryDirectory_def Let_def delete_conv split: prod.splits)

lemma convert_with_libreoffice_temp_dirs:
  assumes "convert_with_libreoffice env input_path width height w = (w', r)"
    and "mkdtemp env \<notin> fst ` set (temp_dirs w)"
  shows "temp_dirs w' = temp_dirs w"
proof (cases "truthy (find_libreoffice env)")
  case False
  with assms(1) show ?thesis
    by (auto simp: convert_with_libreoffice_def truthy_def split: option.splits if_splits)
next
  case True
  then obtain p where p: "find_libreoffice env = Some p" "p \<noteq> []"
    by (auto simp: truthy_def split: option.splits)
  define w1 where "w1 = w\<lparr>temp_dirs := AList.update (mkdtemp env) [] (temp_dirs w)\<rparr>"
  obtain w2 r2 where b: "libreoffice_body env p input_path width height (mkdtemp env) w1 = (w2, r2)"
    by (cases "libreoffice_body env p input_path width height (mkdtemp env) w1")
  from assms(1) p b have "temp_dirs w' = AList.delete (mkdtemp env) (temp_dirs w2)"
    by (auto simp: convert_with_libreoffice_def TemporaryDirectory_def Let_def w1_def)
  also have "\<dots> = AList.delete (mkdtemp env) (temp_dirs w1)"
    using libreoffice_body_temp_dirs[OF b] .
  also have "\<dots> = AList.delete (mkdtemp env) (temp_dirs w)"
    by (simp add: w1_def delete_update_same)
  also have "\<dots> = temp_dirs w"
    using assms(2) by simp
  finally show ?thesis .
qed

section \<open>The failures of the LibreOffice path\<close>

lemma main_from_start:
  assumes "os_path_exists env (arg_input a)"
  shows "main env a w0 =
           (case main_start env a w0 of
              (method, w5) \<Rightarrow>
                (case try_body env a method w5 of
                   (w6, Inl e) \<Rightarrow> (print (''ERROR: '' @ exc_str e) w6, 1)
                 | (w6, Inr u) \<Rightarrow> (w6, 0)))"
  using assms by (simp add: main_def main_start_def Let_def split: prod.splits)

lemma main_start_temp_dirs:
  "main_start env a w0 = (method, w5) \<Longrightarrow> temp_dirs w5 = temp_dirs w0"
  by (auto simp: main_start_def Let_def choose_method_def split: prod.splits if_splits)

lemma temp_files_put [simp]: "temp_files (put_temp_files d files w) d = files"
  by (simp add: temp_files_def put_temp_files_def update_conv)

lemma temp_files_print [simp]: "temp_files (print l w) d = temp_files w d"
  by (simp add: temp_files_def)

lemma TemporaryDirectory_result:
  "snd (TemporaryDirectory env body w) =
     snd (body (mkdtemp env) (w\<lparr>temp_dirs := AList.update (mkdtemp env) [] (temp_dirs w)\<rparr>))"
  by (simp add: TemporaryDirectory_def Let_def split: prod.splits)

lemma not_found_raises:
  assumes "\<not> truthy (find_libreoffice env)"
  shows "convert_with_libreoffice env input_path width height w = (w, Inl (RuntimeError not_found_msg))"
  using assms by (auto simp: convert_with_libreoffice_def truthy_def split: option.splits)

lemma timeout_raises:
  assumes "find_libreoffice env = Some p" "p \<noteq> []"
    and "subprocess_run env (soffice_cmd p (mkdtemp env) input_path) = TimeoutExpired files"
  shows "snd (convert_with_libreoffice env input_path width height w) = Inl (RuntimeError timeout_msg)"
  using assms
  by (simp add: convert_with_libreoffice_def TemporaryDirectory_def libreoffice_body_def Let_def)

lemma exit_code_raises:
  assumes "find_libreoffice env = Some p" "p \<noteq> []"
    and "subprocess_run env (soffice_cmd p (mkdtemp env) input_path) =
           CompletedProcess rc out err files"
    and "rc \<noteq> 0"
  shows "snd (convert_with_libreoffice env input_path width height w) =
           Inl (RuntimeError (failed_msg rc out err))"
  using assms
  by (simp add: convert_with_libreoffice_def TemporaryDirectory_def libreoffice_body_def Let_def)

lemma find_pdf_lookup:
  "snd (find_pdf d name w) =
     (if name \<in> fst ` set (temp_files w d) then Inr name
      else case filter (\<lambda>n. endswith n ''.pdf'') (map fst (temp_files w d)) of
             [] \<Rightarrow> Inl (RuntimeError (no_pdf_msg name))
           | n # ns \<Rightarrow> Inr n)"
  by (auto simp: find_pdf_def Let_def split: list.splits)

lemma libreoffice_body_completed:
  assumes "subprocess_run env (soffice_cmd p d input_path) = CompletedProcess 0 out err files"
  shows "\<exists>w5. temp_files w5 d = files \<and>
           libreoffice_body env p input_path width height d w =
             (case find_pdf d (path_stem env input_path @ ''.pdf'') w5 of
                (w6, Inl e) \<Rightarrow> (w6, Inl e)
              | (w6, Inr pdf_name) \<Rightarrow>
                  convert_pdf_to_images env (d, pdf_name) width height
                    (print ''Converting PDF pages to images...'' w6))"
proof (cases "err = []")
  case True
  show ?thesis
    by (rule exI[of _ "print (''LibreOffice stdout: '' @ out) (put_temp_files d files
         (print (''Using LibreOffice at: '' @ p)
           (print ''Converting PPTX to PDF with LibreOffice...'' w)))"])
       (simp add: libreoffice_body_def assms True Let_def)
next
  case False
  show ?thesis
    by (rule exI[of _ "print (''LibreOffice stderr: '' @ err)
         (print (''LibreOffice stdout: '' @ out) (put_temp_files d files
           (print (''Using LibreOffice at: '' @ p)
             (print ''Converting PPTX to PDF with LibreOffice...'' w))))"])
       (simp add: libreoffice_body_def assms False Let_def)
qed

lemma no_pdf_raises:
  assumes "find_libreoffice env = Some p" "p \<noteq> []"
    and "subprocess_run env (soffice_cmd p (mkdtemp env) input_path) =
           CompletedProcess 0 out err files"
    and "path_stem env input_path @ ''.pdf'' \<notin> fst ` set files"
    and "filter (\<lambda>n. endswith n ''.pdf'') (map fst files) = []"
  shows "snd (convert_with_libreoffice env input_path width height w) =
           Inl (RuntimeError (no_pdf_msg (path_stem env input_path @ ''.pdf'')))"
proof -
  define w1 where "w1 = w\<lparr>temp_dirs := AList.update (mkdtemp env) [] (temp_dirs w)\<rparr>"
  from libreoffice_body_completed[OF assms(3), of width height w1] obtain w5 where
    t: "temp_files w5 (mkdtemp env) = files" and
    b: "libreoffice_body env p input_path width height (mkdtemp env) w1 =
             (case find_pdf (mkdtemp env) (path_stem env input_path @ ''.pdf'') w5 of
                (w6, Inl e) \<Rightarrow> (w6, Inl e)
              | (w6, Inr pdf_name) \<Rightarrow>
                  convert_pdf_to_images env (mkdtemp env, pdf_name) width height
                    (print ''Converting PDF pages to images...'' w6))"
    by blast
  have "snd (find_pdf (mkdtemp env) (path_stem env input_path @ ''.pdf'') w5) =
      Inl (RuntimeError (no_pdf_msg (path_stem env input_path @ ''.pdf'')))"
    using assms(4,5) by (simp add: find_pdf_lookup t)
  then obtain w6 where
    "find_pdf (mkdtemp env) (path_stem env input_path @ ''.pdf'') w5 =
       (w6, Inl (RuntimeError (no_pdf_msg (path_stem env input_path @ ''.pdf''))))"
    by (cases "find_pdf (mkdtemp env) (path_stem env input_path @ ''.pdf'') w5") auto
  with b have "snd (libreoffice_body env p input_path width height (mkdtemp env) w1) =
      Inl (RuntimeError (no_pdf_msg (path_stem env input_path @ ''.pdf'')))"
    by simp
  then show ?thesis
    using assms(1,2)
    by (simp add: convert_with_libreoffice_def TemporaryDirectory_result w1_def)
qed

lemma messages_distinct:
  "not_found_msg \<noteq> timeout_msg"
  "not_found_msg \<noteq> failed_msg rc out err"
  "timeout_msg \<noteq> failed_msg rc out err"
  "no_pdf_msg name \<noteq> not_found_msg"
  "no_pdf_msg name \<noteq> timeout_msg"
  "no_pdf_msg name \<noteq> failed_msg rc out err"
  by (simp_all add: not_found_msg_def timeout_msg_def failed_msg_def no_pdf_msg_def)

lemma main_libreoffice_error:
  assumes "os_path_exists env (arg_input a)"
    and "main_start env a w0 = (''libreoffice'', w5)"
    and "convert_with_libreoffice env (arg_input a) (arg_width a) (arg_height a) w5 = (w6, Inl e)"
  shows "main env a w0 = (print (''ERROR: '' @ exc_str e) w6, 1)"
  using assms by (simp add: main_from_start try_body_def)

text \<open>
  C5. In the LibreOffice path, a binary that is not found, a timeout of the subprocess, an
  exit status other than zero, and a missing PDF (the expected name is absent and no
  name of the temporary directory ends in \<open>.pdf\<close>) each raise a \<open>RuntimeError\<close>, with
  four messages that differ from each other; the lookup of the PDF takes the expected
  name if it is there and else the first \<open>*.pdf\<close> of the directory. However the call
  ends, the temporary directories are afterwards what they were before (the directory of
  the call is gone, with its files). In \<open>main\<close>, an exception of the conversion ends the
  run with the line \<open>ERROR:\<close> and the message, and exit status 1.
\<close>

theorem libreoffice_failures_abort_and_release:
  "(\<not> truthy (find_libreoffice env) \<longrightarrow>
      convert_with_libreoffice env input_path width height w =
        (w, Inl (RuntimeError not_found_msg))) \<and>
   (find_libreoffice env = Some p \<and> p \<noteq> [] \<and>
    subprocess_run env (soffice_cmd p (mkdtemp env) input_path) = TimeoutExpired files \<longrightarrow>
      snd (convert_with_libreoffice env input_path width height w) =
        Inl (RuntimeError timeout_msg)) \<and>
   (find_libreoffice env = Some p \<and> p \<noteq> [] \<and>
    subprocess_run env (soffice_cmd p (mkdtemp env) input_path) =
      CompletedProcess rc out err files \<and> rc \<noteq> 0 \<longrightarrow>
      snd (convert_with_libreoffice env input_path width height w) =
        Inl (RuntimeError (failed_msg rc out err))) \<and>
   (find_libreoffice env = Some p \<and> p \<noteq> [] \<and>
    subprocess_run env (soffice_cmd p (mkdtemp env) input_path) =
      CompletedProcess 0 out err files \<and>
    path_stem env input_path @ ''.pdf'' \<notin> fst ` set files \<and>
    filter (\<lambda>n. endswith n ''.pdf'') (map fst files) = [] \<longrightarrow>
      snd (convert_with_libreoffice env input_path width height w) =
        Inl (RuntimeError (no_pdf_msg (path_stem env input_path @ ''.pdf'')))) \<and>
   snd (find_pdf d name v) =
     (if name \<in> fst ` set (temp_files v d) then Inr name
      else case filter (\<lambda>n. endswith n ''.pdf'') (map fst (temp_files v d)) of
             [] \<Rightarrow> Inl (RuntimeError (no_pdf_msg name))
           | n # ns \<Rightarrow> Inr n) \<and>
   not_found_msg \<noteq> timeout_msg \<and>
   not_found_msg \<noteq> failed_msg rc out err \<and>
   timeout_msg \<noteq> failed_msg rc out err \<and>
   no_pdf_msg name \<noteq> not_found_msg \<and>
   no_pdf_msg name \<noteq> timeout_msg \<and>
   no_pdf_msg name \<noteq> failed_msg rc out err \<and>
   (convert_with_libreoffice env input_path width height w = (w', r) \<and>
    mkdtemp env \<notin> fst ` set (temp_dirs w) \<longrightarrow>
      temp_dirs w' = temp_dirs w \<and> map_of (temp_dirs w') (mkdtemp env) = None) \<and>
   (os_path_exists env (arg_input a) \<and> main_start env a w0 = (''libreoffice'', w5) \<and>
    convert_with_libreoffice env (arg_input a) (arg_width a) (arg_height a) w5 = (w6, Inl e) \<longrightarrow>
      main env a w0 = (print (''ERROR: '' @ exc_str e) w6, 1) \<and>
      (mkdtemp env \<notin> fst ` set (temp_dirs w0) \<longrightarrow> temp_dirs (fst (main env a w0)) = temp_dirs w0))"
proof (intro conjI impI)
  assume "\<not> truthy (find_libreoffice env)"
  then show "convert_with_libreoffice env input_path width height w =
        (w, Inl (RuntimeError not_found_msg))"
    by (rule not_found_raises)
next
  assume "find_libreoffice env = Some p \<and> p \<noteq> [] \<and>
    subprocess_run env (soffice_cmd p (mkdtemp env) input_path) = TimeoutExpired files"
  then show "snd (convert_with_libreoffice env input_path width height w) =
        Inl (RuntimeError timeout_msg)"
    using timeout_raises by blast
next
  assume "find_libreoffice env = Some p \<and> p \<noteq> [] \<and>
    subprocess_run env (soffice_cmd p (mkdtemp env) input_path) =
      CompletedProcess rc out err files \<and> rc \<noteq> 0"
  then show "snd (convert_with_libreoffice env input_path width height w) =
        Inl (RuntimeError (failed_msg rc out err))"
    using exit_code_raises by blast
next
  assume "find_libreoffice env = Some p \<and> p \<noteq> [] \<and>
    subprocess_run env (soffice_cmd p (mkdtemp env) input_path) =
      CompletedProcess 0 out err files \<and>
    path_stem env input_path @ ''.pdf'' \<notin> fst ` set files \<and>
    filter (\<lambda>n. endswith n ''.pdf'') (map fst files) = []"
  then show "snd (convert_with_libreoffice env input_path width height w) =
        Inl (RuntimeError (no_pdf_msg (path_stem env input_path @ ''.pdf'')))"
    using no_pdf_raises by blast
next
  show "snd (find_pdf d name v) =
     (if name \<in> fst ` set (temp_files v d) then Inr name
      else case filter (\<lambda>n. endswith n ''.pdf'') (map fst (temp_files v d)) of
             [] \<Rightarrow> Inl (RuntimeError (no_pdf_msg name))
           | n # ns \<Rightarrow> Inr n)"
    by (rule find_pdf_lookup)
next
  assume c: "convert_with_libreoffice env input_path width height w = (w', r) \<and>
    mkdtemp env \<notin> fst ` set (temp_dirs w)"
  then show t: "temp_dirs w' = temp_dirs w"
    using convert_with_libreoffice_temp_dirs by blast
  from c show "map_of (temp_dirs w') (mkdtemp env) = None"
    unfolding t by (simp add: map_of_eq_None_iff)
next
  assume m: "os_path_exists env (arg_input a) \<and> main_start env a w0 = (''libreoffice'', w5) \<and>
    convert_with_libreoffice env (arg_input a) (arg_width a) (arg_height a) w5 = (w6, Inl e)"
  then show r: "main env a w0 = (print (''ERROR: '' @ exc_str e) w6, 1)"
    using main_libreoffice_error by blast
  assume f: "mkdtemp env \<notin> fst ` set (temp_dirs w0)"
  from m have "temp_dirs w5 = temp_dirs w0"
    using main_start_temp_dirs by blast
  with m f have "temp_dirs w6 = temp_dirs w0"
    using convert_with_libreoffice_temp_dirs[of env "arg_input a" "arg_width a" "arg_height a" w5 w6 "Inl e"]
    by simp
  then show "temp_dirs (fst (main env a w0)) = temp_dirs w0"
    by (simp add: r)
qed (rule messages_distinct)+

lemma str_int_1920: "str_int 1920 = ''1920''"
  by code_simp

lemma str_int_1080: "str_int 1080 = ''1080''"
  by code_simp

lemma main_start_example:
  assumes "PIL_AVAILABLE env"
  shows "main_start env example_args empty_world = (''libreoffice'', start_world)"
  using assms
  by (simp add: main_start_def example_args_def choose_method_def str_int_1920 str_int_1080
      print_def empty_world_def start_world_def)

lemma failing_machines:
  "PIL_AVAILABLE bare_env" "PIL_AVAILABLE timeout_env" "PIL_AVAILABLE failing_env"
  "PIL_AVAILABLE no_pdf_env"
  "os_path_exists bare_env ''deck.pptx''" "os_path_exists timeout_env ''deck.pptx''"
  "os_path_exists failing_env ''deck.pptx''" "os_path_exists no_pdf_env ''deck.pptx''"
  "mkdtemp timeout_env = ''/tmp/tmpa1''" "mkdtemp failing_env = ''/tmp/tmpa1''"
  "mkdtemp no_pdf_env = ''/tmp/tmpa1''"
  "path_stem no_pdf_env ''deck.pptx'' = ''deck''"
  "subprocess_run timeout_env cmd = TimeoutExpired []"
  "subprocess_run failing_env cmd =
     CompletedProcess 1 [] ''Error: source file could not be loaded'' []"
  "subprocess_run no_pdf_env cmd = CompletedProcess 0 [] [] [(''deck.txt'', NotPdf)]"
  by (simp_all add: bare_env_def timeout_env_def failing_env_def no_pdf_env_def example_env_def)

lemma find_libreoffice_failing:
  "find_libreoffice timeout_env = Some ''soffice''"
  "find_libreoffice failing_env = Some ''soffice''"
  "find_libreoffice no_pdf_env = Some ''soffice''"
  by (simp_all add: find_libreoffice_def timeout_env_def failing_env_def no_pdf_env_def
      example_env_def truthy_def)

theorem libreoffice_failures_abort_and_release_witness:
  "main bare_env example_args empty_world =
     (print (''ERROR: '' @ not_found_msg) start_world, 1) \<and>
   snd (main timeout_env example_args empty_world) = 1 \<and>
   last (stdout (fst (main timeout_env example_args empty_world))) = ''ERROR: '' @ timeout_msg \<and>
   temp_dirs (fst (main timeout_env example_args empty_world)) = [] \<and>
   snd (main failing_env example_args empty_world) = 1 \<and>
   last (stdout (fst (main failing_env example_args empty_world))) =
     ''ERROR: '' @ failed_msg 1 [] ''Error: source file could not be loaded'' \<and>
   temp_dirs (fst (main failing_env example_args empty_world)) = [] \<and>
   snd (main no_pdf_env example_args empty_world) = 1 \<and>
   last (stdout (fst (main no_pdf_env example_args empty_world))) =
     ''ERROR: '' @ no_pdf_msg ''deck.pdf'' \<and>
   temp_dirs (fst (main no_pdf_env example_args empty_world)) = []"
proof -
  note t = libreoffice_failures_abort_and_release
  have fresh: "mkdtemp timeout_env \<notin> fst ` set (temp_dirs empty_world)"
    "mkdtemp failing_env \<notin> fst ` set (temp_dirs empty_world)"
    "mkdtemp no_pdf_env \<notin> fst ` set (temp_dirs empty_world)"
    by (simp_all add: empty_world_def)
  have e0: "temp_dirs empty_world = []" by (simp add: empty_world_def)
  \<comment> \<open>the binary is not found\<close>
  have n1: "\<not> truthy (find_libreoffice bare_env)"
    by (simp add: find_libreoffice_bare truthy_def)
  note c1 = t[where env = bare_env and input_path = "''deck.pptx''" and width = 1920
      and height = 1080 and w = start_world, THEN conjunct1, THEN mp, OF n1]
  have a1: "os_path_exists bare_env (arg_input example_args) \<and>
      main_start bare_env example_args empty_world = (''libreoffice'', start_world) \<and>
      convert_with_libreoffice bare_env (arg_input example_args) (arg_width example_args)
        (arg_height example_args) start_world = (start_world, Inl (RuntimeError (not_found_msg)))"
    using c1 failing_machines(1,5) main_start_example[of bare_env]
    by (simp add: example_args_def)
  note m1 = t[where env = bare_env and a = example_args and ?w0.0 = empty_world
      and ?w5.0 = start_world and ?w6.0 = start_world and e = "RuntimeError (not_found_msg)",
      THEN conjunct2, THEN conjunct2, THEN conjunct2, THEN conjunct2, THEN conjunct2, THEN conjunct2, THEN conjunct2, THEN conjunct2, THEN conjunct2, THEN conjunct2, THEN conjunct2, THEN conjunct2, THEN mp, OF a1]

  \<comment> \<open>the subprocess runs into the timeout\<close>
  have n2: "find_libreoffice timeout_env = Some ''soffice'' \<and> ''soffice'' \<noteq> [] \<and>
      subprocess_run timeout_env (soffice_cmd ''soffice'' (mkdtemp timeout_env) ''deck.pptx'') =
        TimeoutExpired []"
    by (simp add: find_libreoffice_failing failing_machines)
  note s2 = t[where env = timeout_env and input_path = "''deck.pptx''" and width = 1920
      and height = 1080 and w = start_world and p = "''soffice''" and files = "[]",
      THEN conjunct2, THEN conjunct1, THEN mp, OF n2]
  obtain x2 where c2: "convert_with_libreoffice timeout_env ''deck.pptx'' 1920 1080
      start_world = (x2, Inl (RuntimeError timeout_msg))"
    using s2 by (cases "convert_with_libreoffice timeout_env ''deck.pptx'' 1920 1080 start_world") auto
  have a2: "os_path_exists timeout_env (arg_input example_args) \<and>
      main_start timeout_env example_args empty_world = (''libreoffice'', start_world) \<and>
      convert_with_libreoffice timeout_env (arg_input example_args) (arg_width example_args)
        (arg_height example_args) start_world = (x2, Inl (RuntimeError (timeout_msg)))"
    using c2 failing_machines(2,6) main_start_example[of timeout_env]
    by (simp add: example_args_def)
  note m2 = t[where env = timeout_env and a = example_args and ?w0.0 = empty_world
      and ?w5.0 = start_world and ?w6.0 = x2 and e = "RuntimeError (timeout_msg)",
      THEN conjunct2, THEN conjunct2, THEN conjunct2, THEN conjunct2, THEN conjunct2, THEN conjunct2, THEN conjunct2, THEN conjunct2, THEN conjunct2, THEN conjunct2, THEN conjunct2, THEN conjunct2, THEN mp, OF a2]

  \<comment> \<open>the subprocess exits with status 1\<close>
  have n3: "find_libreoffice failing_env = Some ''soffice'' \<and> ''soffice'' \<noteq> [] \<and>
      subprocess_run failing_env (soffice_cmd ''soffice'' (mkdtemp failing_env) ''deck.pptx'') =
        CompletedProcess 1 [] ''Error: source file could not be loaded'' [] \<and> (1::int) \<noteq> 0"
    by (simp add: find_libreoffice_failing failing_machines)
  note s3 = t[where env = failing_env and input_path = "''deck.pptx''" and width = 1920
      and height = 1080 and w = start_world and p = "''soffice''" and files = "[]"
      and rc = 1 and out = "[]" and err = "''Error: source file could not be loaded''",
      THEN conjunct2, THEN conjunct2, THEN conjunct1, THEN mp, OF n3]
  obtain x3 where c3: "convert_with_libreoffice failing_env ''deck.pptx'' 1920 1080
      start_world =
        (x3, Inl (RuntimeError (failed_msg 1 [] ''Error: source file could not be loaded'')))"
    using s3 by (cases "convert_with_libreoffice failing_env ''deck.pptx'' 1920 1080 start_world") auto
  have a3: "os_path_exists failing_env (arg_input example_args) \<and>
      main_start failing_env example_args empty_world = (''libreoffice'', start_world) \<and>
      convert_with_libreoffice failing_env (arg_input example_args) (arg_width example_args)
        (arg_height example_args) start_world = (x3, Inl (RuntimeError (failed_msg 1 [] ''Error: source file could not be loaded'')))"
    using c3 failing_machines(3,7) main_start_example[of failing_env]
    by (simp add: example_args_def)
  note m3 = t[where env = failing_env and a = example_args and ?w0.0 = empty_world
      and ?w5.0 = start_world and ?w6.0 = x3 and e = "RuntimeError (failed_msg 1 [] ''Error: source file could not be loaded'')",
      THEN conjunct2, THEN conjunct2, THEN conjunct2, THEN conjunct2, THEN conjunct2, THEN conjunct2, THEN conjunct2, THEN conjunct2, THEN conjunct2, THEN conjunct2, THEN conjunct2, THEN conjunct2, THEN mp, OF a3]

  \<comment> \<open>the subprocess leaves no PDF\<close>
  have n4: "find_libreoffice no_pdf_env = Some ''soffice'' \<and> ''soffice'' \<noteq> [] \<and>
      subprocess_run no_pdf_env (soffice_cmd ''soffice'' (mkdtemp no_pdf_env) ''deck.pptx'') =
        CompletedProcess 0 [] [] [(''deck.txt'', NotPdf)] \<and>
      path_stem no_pdf_env ''deck.pptx'' @ ''.pdf'' \<notin> fst ` set [(''deck.txt'', NotPdf)] \<and>
      filter (\<lambda>n. endswith n ''.pdf'') (map fst [(''deck.txt'', NotPdf)]) = []"
    by (simp add: find_libreoffice_failing failing_machines endswith_def suffix_def)
  note s4 = t[where env = no_pdf_env and input_path = "''deck.pptx''" and width = 1920
      and height = 1080 and w = start_world and p = "''soffice''"
      and files = "[(''deck.txt'', NotPdf)]" and out = "[]" and err = "[]",
      THEN conjunct2, THEN conjunct2, THEN conjunct2, THEN conjunct1, THEN mp, OF n4]
  obtain x4 where c4: "convert_with_libreoffice no_pdf_env ''deck.pptx'' 1920 1080
      start_world = (x4, Inl (RuntimeError (no_pdf_msg ''deck.pdf'')))"
    using s4 failing_machines(12)
    by (cases "convert_with_libreoffice no_pdf_env ''deck.pptx'' 1920 1080 start_world") auto
  have a4: "os_path_exists no_pdf_env (arg_input example_args) \<and>
      main_start no_pdf_env example_args empty_world = (''libreoffice'', start_world) \<and>
      convert_with_libreoffice no_pdf_env (arg_input example_args) (arg_width example_args)
        (arg_height example_args) start_world = (x4, Inl (RuntimeError (no_pdf_msg ''deck.pdf'')))"
    using c4 failing_machines(4,8) main_start_example[of no_pdf_env]
    by (simp add: example_args_def)
  note m4 = t[where env = no_pdf_env and a = example_args and ?w0.0 = empty_world
      and ?w5.0 = start_world and ?w6.0 = x4 and e = "RuntimeError (no_pdf_msg ''deck.pdf'')",
      THEN conjunct2, THEN conjunct2, THEN conjunct2, THEN conjunct2, THEN conjunct2, THEN conjunct2, THEN conjunct2, THEN conjunct2, THEN conjunct2, THEN conjunct2, THEN conjunct2, THEN conjunct2, THEN mp, OF a4]

  note r1 = m1[THEN conjunct1]
  note r2 = m2[THEN conjunct1] m2[THEN conjunct2, THEN mp, OF fresh(1)]
  note r3 = m3[THEN conjunct1] m3[THEN conjunct2, THEN mp, OF fresh(2)]
  note r4 = m4[THEN conjunct1] m4[THEN conjunct2, THEN mp, OF fresh(3)]
  have d: "temp_dirs x2 = []" "temp_dirs x3 = []" "temp_dirs x4 = []"
    using r2(2) r3(2) r4(2) unfolding r2(1) r3(1) r4(1) e0 by simp_all
  show ?thesis
    unfolding r1 r2(1) r3(1) r4(1) by (simp add: print_def d)
qed

section \<open>The progress line of the 29th of 50 pages\<close>

lemma fl_29_50: "fl (29 / 50) = 5224175567749775 / 9007199254740992"
  by code_simp

lemma fl_29_50_times_100:
  "fl (5224175567749775 / 9007199254740992 * 100) = 8162774324609023 / 140737488355328"
  by code_simp

lemma floor_tick: "\<lfloor>8162774324609023 / 140737488355328 :: rat\<rfloor> = 57"
  by code_simp

lemma floor_exact: "\<lfloor>(29 :: rat) / 50 * 100\<rfloor> = 58"
  by simp

lemma str_int_57: "str_int 57 = ''57''"
  by code_simp

lemma int_truediv_29_50: "int_truediv 29 50 = Inr (5224175567749775 / 9007199254740992)"
  by (simp add: int_truediv_def round_double_def fl_29_50)

lemma float_mul_29_50:
  "float_mul (5224175567749775 / 9007199254740992) 100 = Fin (8162774324609023 / 140737488355328)"
  unfolding float_mul_def round_double_def Let_def fl_29_50_times_100
  by simp

lemma progress_percent_29_50: "progress_percent 29 50 = Inr 57"
  unfolding progress_percent_def int_truediv_29_50 sum.case float_mul_29_50
  by (simp add: py_int_def floor_tick)

text \<open>
  C6 at a deck of 50 pages. The expression \<open>int((page_num + 1) / total_pages * 100)\<close> is
  evaluated in floats: 29 / 50 is rounded to the nearest float, the product with 100 is
  rounded again to a float just below 58, and \<open>int\<close> truncates it to 57, while the floor
  of the exact value is 58. So the line printed for the 29th page is \<open>PROGRESS:57\<close>.
\<close>

theorem progress_tick_29_of_50:
  "progress_percent 29 50 = Inr 57 \<and>
   \<lfloor>(29 :: rat) / 50 * 100\<rfloor> = 58 \<and>
   stdout (fst (pdf_page_step example_env 1920 1080 50 28 example_page empty_world)) =
     [''PROGRESS:57''] \<and>
   stdout (fst (direct_slide_step example_env 1920 1080 50 28 empty_world)) = [''PROGRESS:57'']"
proof -
  have r: "render_page example_env 1920 1080 example_page = Inr example_slide"
    by (simp add: example_render example_slide_def)
  have p: "PIL_AVAILABLE example_env" by (simp add: example_env_def)
  have 1: "stdout (fst (pdf_page_step example_env 1920 1080 50 28 example_page empty_world)) =
     [''PROGRESS:57'']"
    by (simp add: pdf_page_step_def r progress_percent_29_50 print_progress_def str_int_57
        print_def save_def empty_world_def)
  have 2: "stdout (fst (direct_slide_step example_env 1920 1080 50 28 empty_world)) =
     [''PROGRESS:57'']"
    by (simp add: direct_slide_step_def p Image_new_def progress_percent_29_50 print_progress_def
        str_int_57 print_def save_def empty_world_def)
  from progress_percent_29_50 floor_exact 1 2 show ?thesis by simp
qed

section \<open>The height of a thumbnail\<close>

lemma fl_16_9: "fl (16 / 9) = 2001599834386887 / 1125899906842624"
  by code_simp

lemma fl_thumb: "fl (300 / (2001599834386887 / 1125899906842624)) = 675 / 4"
  by code_simp

lemma aspect_1920_1080: "int_truediv 1920 1080 = Inr (2001599834386887 / 1125899906842624)"
  by (simp add: int_truediv_def round_double_def fl_16_9)

lemma float_truediv_thumb:
  "float_truediv 300 (2001599834386887 / 1125899906842624) = Inr (Fin (675 / 4))"
  unfolding float_truediv_def round_double_def Let_def fl_thumb
  by simp

lemma int_float_truediv_thumb:
  "int_float_truediv 300 (2001599834386887 / 1125899906842624) = Inr (Fin (675 / 4))"
proof -
  have "int_to_float 300 = Inr 300" using int_to_float_exact[of 300] by simp
  then show ?thesis
    unfolding int_float_truediv_def by (simp only: sum.case float_truediv_thumb)
qed

lemma floor_675_4: "\<lfloor>675 / 4 :: rat\<rfloor> = 168"
  by code_simp

lemma round_675_4: "round_half_even (675 / 4) = 169"
  by code_simp

lemma thumb_height_example: "thumb_height 300 example_slide = Inr 168"
proof -
  have d: "img_width example_slide = 1920" "img_height example_slide = 1080"
    by (simp_all add: example_slide_def)
  show ?thesis
    unfolding thumb_height_def d aspect_1920_1080 sum.case int_float_truediv_thumb
    by (simp add: py_int_def floor_675_4)
qed

lemma spec_thumb_height_example: "spec_thumb_height 300 example_slide = Inr 169"
proof -
  have d: "img_width example_slide = 1920" "img_height example_slide = 1080"
    by (simp_all add: example_slide_def)
  show ?thesis
    unfolding spec_thumb_height_def d aspect_1920_1080 sum.case int_float_truediv_thumb
    by (simp add: py_round_def round_675_4)
qed

lemma thumb_filename_example: "thumb_filename ''slide_001.jpg'' = ''slide_001_thumb.jpg''"
  by code_simp

lemma py_int_truncates:
  assumes "py_int d = Inr th"
  shows "\<exists>x. d = Fin x \<and> th = (if 0 \<le> x then \<lfloor>x\<rfloor> else \<lceil>x\<rceil>) \<and>
             \<bar>of_int th\<bar> \<le> \<bar>x\<bar> \<and> \<bar>x\<bar> < \<bar>of_int th\<bar> + 1"
proof (cases d)
  case (Fin x)
  with assms have th: "th = (if 0 \<le> x then \<lfloor>x\<rfloor> else \<lceil>x\<rceil>)"
    by (simp add: py_int_def)
  have "\<bar>of_int th\<bar> \<le> \<bar>x\<bar> \<and> \<bar>x\<bar> < \<bar>of_int th\<bar> + 1"
  proof (cases "0 \<le> x")
    case True
    then have "0 \<le> \<lfloor>x\<rfloor>" by simp
    moreover have "of_int \<lfloor>x\<rfloor> \<le> x" "x < of_int \<lfloor>x\<rfloor> + 1" by linarith+
    ultimately show ?thesis using True th by simp
  next
    case False
    then have "\<lceil>x\<rceil> \<le> 0" by (simp add: ceiling_le_iff)
    moreover have "x \<le> of_int \<lceil>x\<rceil>" "of_int \<lceil>x\<rceil> - 1 < x" by linarith+
    ultimately show ?thesis using False th by simp
  qed
  with Fin th show ?thesis by simp
next
  case PInf
  with assms show ?thesis by (simp add: py_int_def)
next
  case NInf
  with assms show ?thesis by (simp add: py_int_def)
qed

lemma thumb_height_truncates:
  assumes "thumb_height thumb_width img = Inr th"
  shows "\<exists>aspect x. int_truediv (img_width img) (img_height img) = Inr aspect \<and>
           int_float_truediv thumb_width aspect = Inr (Fin x) \<and>
           th = (if 0 \<le> x then \<lfloor>x\<rfloor> else \<lceil>x\<rceil>) \<and>
           \<bar>of_int th\<bar> \<le> \<bar>x\<bar> \<and> \<bar>x\<bar> < \<bar>of_int th\<bar> + 1"
proof -
  from assms obtain aspect d where
    a: "int_truediv (img_width img) (img_height img) = Inr aspect"
    and b: "int_float_truediv thumb_width aspect = Inr d" and c: "py_int d = Inr th"
    by (auto simp: thumb_height_def split: sum.splits)
  from py_int_truncates[OF c] a b show ?thesis by blast
qed

lemma make_thumbnail_saved:
  assumes "make_thumbnail env thumb_width img = Inr f"
  shows "\<exists>th thumb. thumb_height thumb_width img = Inr th \<and>
           pil_thumbnail env img (thumb_width, th) LANCZOS = Inr thumb \<and>
           f = ImageFile ''JPEG'' 85 False thumb"
  using assms by (auto simp: make_thumbnail_def split: sum.splits)

lemma thumbnail_step_saved:
  assumes "thumbnail_step env thumb_width slide_file w = (w', Inr u)"
  shows "\<exists>img f. Image_open w slide_file = Inr img \<and> make_thumbnail env thumb_width img = Inr f \<and>
           w' = save (thumb_filename slide_file) f w"
  using assms by (auto simp: thumbnail_step_def split: sum.splits)

text \<open>
  C7, as the code has it. The height handed to \<open>thumbnail\<close> is
  \<open>int(thumb_width / (img.width / img.height))\<close>: the float quotient truncated towards
  zero, not rounded. The thumbnail is made by \<open>thumbnail\<close> with that size and the
  Lanczos filter, and saved as JPEG at quality 85 under the name of the slide with
  \<open>_thumb\<close> before the extension.
\<close>

theorem thumbnail_height_is_truncated:
  "(thumb_height thumb_width img = Inr th \<longrightarrow>
      (\<exists>aspect x. int_truediv (img_width img) (img_height img) = Inr aspect \<and>
           int_float_truediv thumb_width aspect = Inr (Fin x) \<and>
           th = (if 0 \<le> x then \<lfloor>x\<rfloor> else \<lceil>x\<rceil>) \<and>
           \<bar>of_int th\<bar> \<le> \<bar>x\<bar> \<and> \<bar>x\<bar> < \<bar>of_int th\<bar> + 1)) \<and>
   (make_thumbnail env thumb_width img = Inr f \<longrightarrow>
      (\<exists>th thumb. thumb_height thumb_width img = Inr th \<and>
           pil_thumbnail env img (thumb_width, th) LANCZOS = Inr thumb \<and>
           f = ImageFile ''JPEG'' 85 False thumb)) \<and>
   (thumbnail_step env thumb_width slide_file w = (w', Inr u) \<longrightarrow>
      (\<exists>img f. Image_open w slide_file = Inr img \<and> make_thumbnail env thumb_width img = Inr f \<and>
           w' = save (thumb_filename slide_file) f w))"
  using thumb_height_truncates make_thumbnail_saved thumbnail_step_saved
  by blast

lemma make_thumbnail_example:
  "make_thumbnail example_env 300 example_slide = Inr (ImageFile ''JPEG'' 85 False example_thumb)"
proof -
  have "pil_thumbnail example_env example_slide (300, 168) LANCZOS = Inr example_thumb"
    by (simp add: example_env_def example_thumb_def)
  then show ?thesis
    by (simp add: make_thumbnail_def thumb_height_example)
qed

lemma thumbnail_step_example:
  "thumbnail_step example_env 300 ''slide_001.jpg'' slide_world = (thumb_world, Inr ())"
proof -
  have "Image_open slide_world ''slide_001.jpg'' = Inr example_slide"
    by (simp add: Image_open_def slide_world_def)
  then show ?thesis
    by (simp add: thumbnail_step_def make_thumbnail_example thumb_filename_example save_def
        slide_world_def thumb_world_def)
qed

theorem thumbnail_height_is_truncated_witness:
  "thumb_height 300 example_slide = Inr 168 \<and>
   int_truediv (img_width example_slide) (img_height example_slide) =
     Inr (2001599834386887 / 1125899906842624) \<and>
   int_float_truediv 300 (2001599834386887 / 1125899906842624) = Inr (Fin (675 / 4)) \<and>
   (168 :: int) = \<lfloor>675 / 4 :: rat\<rfloor> \<and>
   make_thumbnail example_env 300 example_slide = Inr (ImageFile ''JPEG'' 85 False example_thumb) \<and>
   pil_thumbnail example_env example_slide (300, 168) LANCZOS = Inr example_thumb \<and>
   thumbnail_step example_env 300 ''slide_001.jpg'' slide_world = (thumb_world, Inr ()) \<and>
   thumb_world =
     save (thumb_filename ''slide_001.jpg'') (ImageFile ''JPEG'' 85 False example_thumb) slide_world"
proof -
  note t = thumbnail_height_is_truncated[of 300 example_slide 168 example_env
      "ImageFile ''JPEG'' 85 False example_thumb" "''slide_001.jpg''" slide_world thumb_world "()"]
  have d: "img_width example_slide = 1920" "img_height example_slide = 1080"
    by (simp_all add: example_slide_def)
  from t[THEN conjunct1, THEN mp, OF thumb_height_example] obtain aspect x where
    a: "int_truediv (img_width example_slide) (img_height example_slide) = Inr aspect"
    and b: "int_float_truediv 300 aspect = Inr (Fin x)"
    and c: "(168 :: int) = (if 0 \<le> x then \<lfloor>x\<rfloor> else \<lceil>x\<rceil>)"
    by blast
  from a have a': "aspect = 2001599834386887 / 1125899906842624"
    unfolding d aspect_1920_1080 by simp
  from b have b': "x = 675 / 4"
    unfolding a' int_float_truediv_thumb by simp
  from t[THEN conjunct2, THEN conjunct1, THEN mp, OF make_thumbnail_example] obtain th thumb where
    e: "thumb_height 300 example_slide = Inr th"
    and f: "pil_thumbnail example_env example_slide (300, th) LANCZOS = Inr thumb"
    and g: "ImageFile ''JPEG'' 85 False example_thumb = ImageFile ''JPEG'' 85 False thumb"
    by blast
  from e have th: "th = 168" unfolding thumb_height_example by simp
  from g have tb: "thumb = example_thumb" by simp
  from t[THEN conjunct2, THEN conjunct2, THEN mp, OF thumbnail_step_example] obtain img h where
    i: "Image_open slide_world ''slide_001.jpg'' = Inr img"
    and j: "make_thumbnail example_env 300 img = Inr h"
    and k: "thumb_world = save (thumb_filename ''slide_001.jpg'') h slide_world"
    by blast
  have "Image_open slide_world ''slide_001.jpg'' = Inr example_slide"
    by (simp add: Image_open_def slide_world_def)
  with i have "img = example_slide" by simp
  with j have "h = ImageFile ''JPEG'' 85 False example_thumb"
    by (simp add: make_thumbnail_example)
  with k have k': "thumb_world =
     save (thumb_filename ''slide_001.jpg'') (ImageFile ''JPEG'' 85 False example_thumb) slide_world"
    by simp
  note w2 = a[unfolded a']
  note w6 = f[unfolded th tb]
  note w4 = floor_675_4[symmetric]
  from thumb_height_example w2 int_float_truediv_thumb w4 make_thumbnail_example w6
    thumbnail_step_example k'
  show ?thesis by blast
qed

text \<open>
  C7, as the specification states it, fails: for a slide of 1920 by 1080 and a thumbnail
  width of 300 the quotient is 168.75, which \<open>round\<close> takes to 169 and the script's \<open>int\<close>
  to 168.
\<close>

theorem thumbnail_height_counterexample:
  "thumb_height 300 example_slide = Inr 168 \<and> spec_thumb_height 300 example_slide = Inr 169"
  using thumb_height_example spec_thumb_height_example by simp

section \<open>A whole run\<close>

lemma render_example_page:
  assumes "PIL_AVAILABLE env"
  shows "render_page env 1920 1080 example_page = Inr example_slide"
  using assms
  by (simp add: render_page_def example_zoom example_pixmap center_on_canvas_def
      Image_new_def paste_def in_box_def x_offset_def y_offset_def fun_eq_iff example_slide_def)

lemma pdf_run_one_page:
  assumes "PYMUPDF_AVAILABLE env" "PIL_AVAILABLE env" "fitz_open w d n = Inr [example_page]"
  shows "convert_pdf_to_images env (d, n) 1920 1080 w =
           (print ''PROGRESS:100''
              (save ''slide_001.jpg'' (ImageFile ''JPEG'' 92 True example_slide) w), Inr 1)"
  using assms
  by (simp add: convert_pdf_to_images_def pdf_page_step_def render_example_page slide_filename_0
      progress_percent_full print_progress_def str_int_100)

lemma mismatch_machine:
  "PIL_AVAILABLE mismatch_env" "PYMUPDF_AVAILABLE mismatch_env" "PPTX_AVAILABLE mismatch_env"
  "os_path_exists mismatch_env ''deck.pptx''"
  "mkdtemp mismatch_env = ''/tmp/tmpa1''"
  "path_stem mismatch_env ''deck.pptx'' = ''deck''"
  "basename mismatch_env ''deck.pptx'' = ''deck.pptx''"
  "now_isoformat mismatch_env = ''2024-01-01T00:00:00''"
  "subprocess_run mismatch_env cmd = CompletedProcess 0 [] [] [(''deck.pdf'', Pdf [example_page])]"
  "Presentation mismatch_env ''deck.pptx'' =
     Inr [Inr \<lparr>slide_text = ''Hello'', firstLine = ''Hello''\<rparr>,
          Inr \<lparr>slide_text = ''Hidden'', firstLine = ''Hidden''\<rparr>]"
  "pil_thumbnail mismatch_env example_slide (300, 168) LANCZOS = Inr example_thumb"
  by (simp_all add: mismatch_env_def example_env_def example_thumb_def)

lemma find_libreoffice_mismatch: "find_libreoffice mismatch_env = Some ''soffice''"
  by (simp add: find_libreoffice_def mismatch_env_def example_env_def truthy_def)

lemma body_mismatch:
  "libreoffice_body mismatch_env ''soffice'' ''deck.pptx'' 1920 1080 ''/tmp/tmpa1''
     (start_world\<lparr>temp_dirs := [(''/tmp/tmpa1'', [])]\<rparr>) =
   (converted_world\<lparr>temp_dirs := [(''/tmp/tmpa1'', [(''deck.pdf'', Pdf [example_page])])]\<rparr>,
    Inr 1)"
proof -
  define w5 where "w5 = print ''LibreOffice stdout: ''
     (put_temp_files ''/tmp/tmpa1'' [(''deck.pdf'', Pdf [example_page])]
        (print ''Using LibreOffice at: soffice''
           (print ''Converting PPTX to PDF with LibreOffice...''
              (start_world\<lparr>temp_dirs := [(''/tmp/tmpa1'', [])]\<rparr>))))"
  have f: "find_pdf ''/tmp/tmpa1'' ''deck.pdf'' w5 =
      (print ''Looking for PDF at: /tmp/tmpa1/deck.pdf'' w5, Inr ''deck.pdf'')"
    by (simp add: find_pdf_def w5_def os_path_join_def)
  define w7 where "w7 = print ''Converting PDF pages to images...''
      (print ''Looking for PDF at: /tmp/tmpa1/deck.pdf'' w5)"
  have o: "fitz_open w7 ''/tmp/tmpa1'' ''deck.pdf'' = Inr [example_page]"
    by (simp add: fitz_open_def w7_def w5_def put_temp_files_def print_def start_world_def)
  have c: "convert_pdf_to_images mismatch_env (''/tmp/tmpa1'', ''deck.pdf'') 1920 1080 w7 =
      (print ''PROGRESS:100''
         (save ''slide_001.jpg'' (ImageFile ''JPEG'' 92 True example_slide) w7), Inr 1)"
    by (rule pdf_run_one_page[OF mismatch_machine(2) mismatch_machine(1) o])
  have b: "libreoffice_body mismatch_env ''soffice'' ''deck.pptx'' 1920 1080 ''/tmp/tmpa1''
     (start_world\<lparr>temp_dirs := [(''/tmp/tmpa1'', [])]\<rparr>) =
     convert_pdf_to_images mismatch_env (''/tmp/tmpa1'', ''deck.pdf'') 1920 1080 w7"
    by (simp add: libreoffice_body_def mismatch_machine Let_def w5_def[symmetric] f
        w7_def[symmetric])
  show ?thesis
    unfolding b c
    by (simp add: w7_def w5_def print_def save_def put_temp_files_def start_world_def
        converted_world_def)
qed

lemma convert_mismatch:
  "convert_with_libreoffice mismatch_env ''deck.pptx'' 1920 1080 start_world =
     (converted_world, Inr 1)"
proof -
  have s: "start_world\<lparr>temp_dirs := AList.update ''/tmp/tmpa1'' [] (temp_dirs start_world)\<rparr> =
      start_world\<lparr>temp_dirs := [(''/tmp/tmpa1'', [])]\<rparr>"
    by (simp add: start_world_def)
  show ?thesis
    unfolding convert_with_libreoffice_def find_libreoffice_mismatch option.case
      TemporaryDirectory_def Let_def mismatch_machine(5) s body_mismatch
    by (simp add: converted_world_def)
qed

lemma is_full_size_slide: "is_full_size_name ''slide_001.jpg''"
  by code_simp

lemma str_nat_1: "str_nat 1 = ''1''"
  by code_simp

lemma thumbnail_step_slide:
  assumes "Image_open w s = Inr example_slide"
    and "pil_thumbnail env example_slide (300, 168) LANCZOS = Inr example_thumb"
  shows "thumbnail_step env 300 s w =
           (save (thumb_filename s) (ImageFile ''JPEG'' 85 False example_thumb) w, Inr ())"
  using assms by (simp add: thumbnail_step_def make_thumbnail_def thumb_height_example)

lemma generate_thumbnails_mismatch:
  "generate_thumbnails mismatch_env 300 (print ''Converted 1 slides'' converted_world) =
     (save ''slide_001_thumb.jpg'' (ImageFile ''JPEG'' 85 False example_thumb)
        (print ''Generating thumbnails...'' (print ''Converted 1 slides'' converted_world)),
      Inr ())"
proof -
  define w1 where "w1 = print ''Generating thumbnails...''
      (print ''Converted 1 slides'' converted_world)"
  have i: "thumbnail_inputs w1 = [''slide_001.jpg'']"
    by (simp add: thumbnail_inputs_def w1_def converted_world_def print_def is_full_size_slide)
  have o: "Image_open w1 ''slide_001.jpg'' = Inr example_slide"
    by (simp add: Image_open_def w1_def converted_world_def print_def)
  show ?thesis
    unfolding generate_thumbnails_def Let_def w1_def[symmetric] i
    by (simp add: thumbnail_step_slide[OF o mismatch_machine(11)] thumb_filename_example)
qed

lemma extract_mismatch:
  "extract_text_from_pptx mismatch_env ''deck.pptx'' w =
     (print ''Extracting slide text...'' w,
      Inr [\<lparr>slide_text = ''Hello'', firstLine = ''Hello''\<rparr>,
           \<lparr>slide_text = ''Hidden'', firstLine = ''Hidden''\<rparr>])"
  by (simp add: extract_text_from_pptx_def mismatch_machine)

lemma after_conversion_mismatch:
  "after_conversion mismatch_env example_args 1 converted_world = (finished_world, Inr ())"
proof -
  have a: "arg_input example_args = ''deck.pptx''" "arg_output example_args = ''out''"
    "arg_thumbnail_width example_args = 300"
    by (simp_all add: example_args_def)
  have "after_conversion mismatch_env example_args 1 converted_world =
     (print ''Conversion complete!'' (print ''PROGRESS:100''
        (create_metadata mismatch_env ''out'' ''deck.pptx'' 1
           [\<lparr>slide_text = ''Hello'', firstLine = ''Hello''\<rparr>,
            \<lparr>slide_text = ''Hidden'', firstLine = ''Hidden''\<rparr>]
           (print ''Extracting slide text...''
              (save ''slide_001_thumb.jpg'' (ImageFile ''JPEG'' 85 False example_thumb)
                 (print ''Generating thumbnails...''
                    (print ''Converted 1 slides'' converted_world)))))), Inr ())"
    by (simp add: after_conversion_def a str_nat_1 mismatch_machine(1)
        generate_thumbnails_mismatch extract_mismatch del: One_nat_def str_nat.simps)
  then show ?thesis
    by (simp add: create_metadata_def mismatch_machine os_path_join_def print_def save_def
        converted_world_def finished_world_def mismatch_metadata_def del: One_nat_def)
qed

lemma main_mismatch: "main mismatch_env example_args empty_world = (finished_world, 0)"
proof -
  have a: "arg_input example_args = ''deck.pptx''" "arg_width example_args = 1920"
    "arg_height example_args = 1080"
    by (simp_all add: example_args_def)
  have t: "try_body mismatch_env example_args ''libreoffice'' start_world =
      (finished_world, Inr ())"
    by (simp add: try_body_def a convert_mismatch after_conversion_mismatch del: One_nat_def)
  show ?thesis
    using mismatch_machine(4)
    by (simp add: main_from_start a main_start_example[OF mismatch_machine(1)] t)
qed

lemma no_warning_line: "filter (\<lambda>l. contains l ''WARNING'') (stdout finished_world) = []"
  by code_simp

section \<open>The metadata when the counts differ\<close>

lemma create_metadata_writes:
  "out_dir (create_metadata env output_dir input_path slide_count slides_text w) =
     AList.update ''metadata.json''
       (MetadataFile \<lparr>sourceFile = basename env input_path, slideCount = slide_count,
                       generatedAt = now_isoformat env, slides = slides_text\<rparr>) (out_dir w) \<and>
   stdout (create_metadata env output_dir input_path slide_count slides_text w) =
     stdout w @ [''Metadata saved to '' @ os_path_join output_dir ''metadata.json'']"
  by (simp add: create_metadata_def Let_def save_def print_def)

lemma after_conversion_completes:
  assumes "(if PIL_AVAILABLE env
            then generate_thumbnails env (arg_thumbnail_width a)
                   (print (''Converted '' @ str_nat slide_count @ '' slides'') w)
            else (print (''Converted '' @ str_nat slide_count @ '' slides'') w, Inr ())) =
           (w2, Inr ())"
    and "extract_text_from_pptx env (arg_input a) w2 = (w3, Inr slides_text)"
  shows "after_conversion env a slide_count w =
           (print ''Conversion complete!''
              (print ''PROGRESS:100''
                 (create_metadata env (arg_output a) (arg_input a) slide_count slides_text w3)),
            Inr ())"
proof (cases "PIL_AVAILABLE env")
  case True
  with assms(1) have g: "generate_thumbnails env (arg_thumbnail_width a)
      (print (''Converted '' @ str_nat slide_count @ '' slides'') w) = (w2, Inr ())"
    by (simp only: if_True)
  show ?thesis
    unfolding after_conversion_def Let_def
    by (simp only: True if_True g prod.case sum.case assms(2))
next
  case False
  with assms(1) have g: "print (''Converted '' @ str_nat slide_count @ '' slides'') w = w2"
    by (simp only: if_False prod.inject)
  show ?thesis
    unfolding after_conversion_def Let_def
    by (simp only: False if_False g prod.case sum.case assms(2))
qed

lemma extract_text_lines:
  assumes "extract_text_from_pptx env input_path v = (v', Inr slides_text)"
  shows "stdout v' = stdout v @ [''Extracting slide text...''] \<or>
         stdout v' = stdout v @ [''WARNING: python-pptx not available, skipping text extraction''] \<and>
         slides_text = [] \<and> \<not> PPTX_AVAILABLE env"
  using assms
  by (auto simp: extract_text_from_pptx_def Let_def print_def split: if_splits sum.splits)

lemma main_success:
  assumes "os_path_exists env (arg_input a)" and "main_start env a w0 = (m, w5)"
    and "try_body env a m w5 = (w6, Inr u)"
  shows "main env a w0 = (w6, 0)"
  using assms by (simp add: main_from_start)

text \<open>
  C9, as the code has it. Nothing compares the number of rendered pages with the number
  of text records, and nothing is printed about a difference. \<open>create_metadata\<close> writes
  the count of the rendering and the list of the extraction as they are given, whatever
  their sizes, and prints one line. After the conversion, when the thumbnails and the
  extraction succeed, the run writes the metadata, prints \<open>PROGRESS:100\<close> and
  \<open>Conversion complete!\<close> and ends with exit status 0. The extraction prints one line of
  its own: that it starts, or the warning that python-pptx is missing, with which the
  list is empty.
\<close>

theorem metadata_written_without_count_check:
  "out_dir (create_metadata env output_dir input_path slide_count slides_text w) =
     AList.update ''metadata.json''
       (MetadataFile \<lparr>sourceFile = basename env input_path, slideCount = slide_count,
                       generatedAt = now_isoformat env, slides = slides_text\<rparr>) (out_dir w) \<and>
   stdout (create_metadata env output_dir input_path slide_count slides_text w) =
     stdout w @ [''Metadata saved to '' @ os_path_join output_dir ''metadata.json''] \<and>
   ((if PIL_AVAILABLE env
     then generate_thumbnails env (arg_thumbnail_width a)
            (print (''Converted '' @ str_nat slide_count @ '' slides'') w)
     else (print (''Converted '' @ str_nat slide_count @ '' slides'') w, Inr ())) = (w2, Inr ()) \<and>
    extract_text_from_pptx env (arg_input a) w2 = (w3, Inr slides_text) \<longrightarrow>
      after_conversion env a slide_count w =
        (print ''Conversion complete!''
           (print ''PROGRESS:100''
              (create_metadata env (arg_output a) (arg_input a) slide_count slides_text w3)),
         Inr ())) \<and>
   (extract_text_from_pptx env input_path v = (v', Inr slides_text) \<longrightarrow>
      stdout v' = stdout v @ [''Extracting slide text...''] \<or>
      stdout v' = stdout v @ [''WARNING: python-pptx not available, skipping text extraction''] \<and>
      slides_text = [] \<and> \<not> PPTX_AVAILABLE env) \<and>
   (os_path_exists env (arg_input a) \<and> main_start env a w0 = (m, w5) \<and>
    try_body env a m w5 = (w6, Inr u) \<longrightarrow>
      main env a w0 = (w6, 0))"
proof (intro conjI impI)
  show "out_dir (create_metadata env output_dir input_path slide_count slides_text w) =
     AList.update ''metadata.json''
       (MetadataFile \<lparr>sourceFile = basename env input_path, slideCount = slide_count,
                       generatedAt = now_isoformat env, slides = slides_text\<rparr>) (out_dir w)"
    using create_metadata_writes by blast
  show "stdout (create_metadata env output_dir input_path slide_count slides_text w) =
     stdout w @ [''Metadata saved to '' @ os_path_join output_dir ''metadata.json'']"
    using create_metadata_writes by blast
next
  assume "(if PIL_AVAILABLE env
     then generate_thumbnails env (arg_thumbnail_width a)
            (print (''Converted '' @ str_nat slide_count @ '' slides'') w)
     else (print (''Converted '' @ str_nat slide_count @ '' slides'') w, Inr ())) = (w2, Inr ()) \<and>
    extract_text_from_pptx env (arg_input a) w2 = (w3, Inr slides_text)"
  then show "after_conversion env a slide_count w =
        (print ''Conversion complete!''
           (print ''PROGRESS:100''
              (create_metadata env (arg_output a) (arg_input a) slide_count slides_text w3)),
         Inr ())"
    using after_conversion_completes by blast
next
  assume "extract_text_from_pptx env input_path v = (v', Inr slides_text)"
  then show "stdout v' = stdout v @ [''Extracting slide text...''] \<or>
      stdout v' = stdout v @ [''WARNING: python-pptx not available, skipping text extraction''] \<and>
      slides_text = [] \<and> \<not> PPTX_AVAILABLE env"
    by (rule extract_text_lines)
next
  assume "os_path_exists env (arg_input a) \<and> main_start env a w0 = (m, w5) \<and>
    try_body env a m w5 = (w6, Inr u)"
  then show "main env a w0 = (w6, 0)"
    using main_success by blast
qed

theorem metadata_written_without_count_check_witness:
  "after_conversion mismatch_env example_args 1 converted_world = (finished_world, Inr ()) \<and>
   main mismatch_env example_args empty_world = (finished_world, 0) \<and>
   map_of (out_dir finished_world) ''metadata.json'' = Some (MetadataFile mismatch_metadata) \<and>
   slideCount mismatch_metadata = 1 \<and> length (slides mismatch_metadata) = 2"
proof -
  define recs where "recs = [\<lparr>slide_text = ''Hello'', firstLine = ''Hello''\<rparr>,
           \<lparr>slide_text = ''Hidden'', firstLine = ''Hidden''\<rparr>]"
  define w2 where "w2 = save ''slide_001_thumb.jpg'' (ImageFile ''JPEG'' 85 False example_thumb)
        (print ''Generating thumbnails...'' (print ''Converted 1 slides'' converted_world))"
  define w3 where "w3 = print ''Extracting slide text...'' w2"
  have a: "arg_input example_args = ''deck.pptx''" "arg_output example_args = ''out''"
    "arg_thumbnail_width example_args = 300" "arg_width example_args = 1920"
    "arg_height example_args = 1080"
    by (simp_all add: example_args_def)
  have h1: "(if PIL_AVAILABLE mismatch_env
     then generate_thumbnails mismatch_env (arg_thumbnail_width example_args)
            (print (''Converted '' @ str_nat 1 @ '' slides'') converted_world)
     else (print (''Converted '' @ str_nat 1 @ '' slides'') converted_world, Inr ())) =
       (w2, Inr ()) \<and>
    extract_text_from_pptx mismatch_env (arg_input example_args) w2 = (w3, Inr recs)"
    by (simp add: a str_nat_1 mismatch_machine(1) generate_thumbnails_mismatch extract_mismatch
        w2_def w3_def recs_def del: One_nat_def str_nat.simps)
  note t = metadata_written_without_count_check[where env = mismatch_env and a = example_args
      and slide_count = 1 and w = converted_world and ?w2.0 = w2 and ?w3.0 = w3
      and slides_text = recs and ?w0.0 = empty_world and m = "''libreoffice''"
      and ?w5.0 = start_world and ?w6.0 = finished_world and u = "()"]
  note ac = t[THEN conjunct2, THEN conjunct2, THEN conjunct1, THEN mp, OF h1]
  have f: "print ''Conversion complete!''
           (print ''PROGRESS:100''
              (create_metadata mismatch_env (arg_output example_args) (arg_input example_args)
                 1 recs w3)) = finished_world"
    by (simp add: create_metadata_def mismatch_machine a os_path_join_def print_def save_def
        converted_world_def finished_world_def mismatch_metadata_def w3_def w2_def recs_def
        del: One_nat_def)
  have 1: "after_conversion mismatch_env example_args 1 converted_world =
      (finished_world, Inr ())"
    unfolding ac f ..
  have h2: "os_path_exists mismatch_env (arg_input example_args) \<and>
      main_start mismatch_env example_args empty_world = (''libreoffice'', start_world) \<and>
      try_body mismatch_env example_args ''libreoffice'' start_world = (finished_world, Inr ())"
    by (simp add: a mismatch_machine(4) main_start_example[OF mismatch_machine(1)] try_body_def
        convert_mismatch 1 del: One_nat_def)
  note 2 = t[THEN conjunct2, THEN conjunct2, THEN conjunct2, THEN conjunct2, THEN mp, OF h2]
  have 3: "map_of (out_dir finished_world) ''metadata.json'' =
      Some (MetadataFile mismatch_metadata)"
    by (simp add: finished_world_def)
  have 4: "slideCount mismatch_metadata = 1 \<and> length (slides mismatch_metadata) = 2"
    by (simp add: mismatch_metadata_def)
  from 1 2 3 4 show ?thesis by blast
qed

text \<open>
  C9, as the specification states it, fails: in a run in which one page is rendered and
  two text records are extracted, the metadata is written with the count 1 and the two
  records, the run ends with exit status 0, and no line of its output is a warning.
\<close>

theorem count_mismatch_counterexample:
  "main mismatch_env example_args empty_world = (finished_world, 0) \<and>
   map_of (out_dir finished_world) ''metadata.json'' = Some (MetadataFile mismatch_metadata) \<and>
   slideCount mismatch_metadata = 1 \<and> length (slides mismatch_metadata) = 2 \<and>
   filter (\<lambda>l. contains l ''WARNING'') (stdout finished_world) = []"
proof -
  have "map_of (out_dir finished_world) ''metadata.json'' =
      Some (MetadataFile mismatch_metadata)"
    by (simp add: finished_world_def)
  moreover have "slideCount mismatch_metadata = 1 \<and> length (slides mismatch_metadata) = 2"
    by (simp add: mismatch_metadata_def)
  ultimately show ?thesis
    using main_mismatch no_warning_line by blast
qed

section \<open>Thumbnail names\<close>

lemma str_replace_occurs:
  assumes "old \<noteq> []" and "sublist old s"
  shows "sublist new (str_replace s old new)"
  using assms
proof (induction s)
  case Nil
  then show ?case by simp
next
  case (Cons c cs)
  show ?case
  proof (cases "prefix old (c # cs)")
    case True
    with Cons.prems show ?thesis by simp
  next
    case False
    with Cons.prems have "sublist old cs"
      by (simp add: sublist_Cons_right)
    with Cons have "sublist new (str_replace cs old new)"
      by simp
    then have "sublist new (c # str_replace cs old new)"
      by (simp add: sublist_Cons_right)
    with False show ?thesis by simp
  qed
qed

lemma sublist_trans_str: "sublist (a :: string) b \<Longrightarrow> sublist b c \<Longrightarrow> sublist a c"
  by (meson sublist_order.order_trans)

lemma thumb_filename_contains:
  assumes "endswith s ''.jpg''"
  shows "contains (thumb_filename s) ''_thumb''"
proof -
  from assms have "sublist ''.jpg'' s"
    by (auto simp: endswith_def suffix_def sublist_def)
  then have "sublist ''_thumb.jpg'' (str_replace s ''.jpg'' ''_thumb.jpg'')"
    by (intro str_replace_occurs) simp_all
  moreover have "sublist ''_thumb'' ''_thumb.jpg''"
    using sublist_append_rightI[of "''_thumb''" "''.jpg''"] by simp
  ultimately show ?thesis
    unfolding contains_def thumb_filename_def by (rule sublist_trans_str[rotated])
qed

lemma thumb_filename_not_input:
  assumes "is_full_size_name s"
  shows "\<not> is_full_size_name (thumb_filename s)"
  using thumb_filename_contains[of s] assms by (simp add: is_full_size_name_def)

lemma str_replace_head:
  assumes "str_replace x ''.jpg'' ''_thumb.jpg'' = c # ys" and "c \<noteq> CHR ''_''"
  shows "\<exists>x'. x = c # x' \<and> ys = str_replace x' ''.jpg'' ''_thumb.jpg''"
  using assms by (cases x) (auto split: if_splits)

lemma str_replace_no_old:
  "\<not> prefix ''.jpg'' (str_replace x ''.jpg'' ''_thumb.jpg'')"
proof
  assume "prefix ''.jpg'' (str_replace x ''.jpg'' ''_thumb.jpg'')"
  then obtain zs where z: "str_replace x ''.jpg'' ''_thumb.jpg'' = CHR ''.'' # ''jpg'' @ zs"
    by (auto simp: prefix_def)
  from str_replace_head[OF z] obtain x1 where
    x1: "x = CHR ''.'' # x1" "''jpg'' @ zs = str_replace x1 ''.jpg'' ''_thumb.jpg''"
    by auto
  from str_replace_head[of x1 "CHR ''j''" "''pg'' @ zs"] x1(2) obtain x2 where
    x2: "x1 = CHR ''j'' # x2" "''pg'' @ zs = str_replace x2 ''.jpg'' ''_thumb.jpg''"
    by auto
  from str_replace_head[of x2 "CHR ''p''" "''g'' @ zs"] x2(2) obtain x3 where
    x3: "x2 = CHR ''p'' # x3" "''g'' @ zs = str_replace x3 ''.jpg'' ''_thumb.jpg''"
    by auto
  from str_replace_head[of x3 "CHR ''g''" zs] x3(2) obtain x4 where
    x4: "x3 = CHR ''g'' # x4"
    by auto
  from x1(1) x2(1) x3(1) x4 have "x = ''.jpg'' @ x4" by simp
  with z show False by simp
qed

lemma str_replace_clash:
  assumes "prefix ''.jpg'' s" and "\<not> prefix ''.jpg'' t"
  shows "str_replace s ''.jpg'' ''_thumb.jpg'' \<noteq> str_replace t ''.jpg'' ''_thumb.jpg''"
proof
  assume eq: "str_replace s ''.jpg'' ''_thumb.jpg'' = str_replace t ''.jpg'' ''_thumb.jpg''"
  from assms(1) obtain s' where s: "s = CHR ''.'' # ''jpg'' @ s'"
    by (auto simp: prefix_def)
  define R where "R = str_replace s' ''.jpg'' ''_thumb.jpg''"
  have l: "str_replace s ''.jpg'' ''_thumb.jpg'' = ''_thumb.jpg'' @ R"
    unfolding s R_def by simp
  from eq l have t0: "str_replace t ''.jpg'' ''_thumb.jpg'' = CHR ''_'' # ''thumb.jpg'' @ R"
    by simp
  then obtain t1 where t1: "t = CHR ''_'' # t1"
    "str_replace t1 ''.jpg'' ''_thumb.jpg'' = ''thumb.jpg'' @ R"
    using assms(2) by (cases t) (auto split: if_splits)
  from str_replace_head[of t1 "CHR ''t''" "''humb.jpg'' @ R"] t1(2) obtain t2 where
    t2: "''humb.jpg'' @ R = str_replace t2 ''.jpg'' ''_thumb.jpg''"
    by auto
  from str_replace_head[of t2 "CHR ''h''" "''umb.jpg'' @ R"] t2 obtain t3 where
    t3: "''umb.jpg'' @ R = str_replace t3 ''.jpg'' ''_thumb.jpg''"
    by auto
  from str_replace_head[of t3 "CHR ''u''" "''mb.jpg'' @ R"] t3 obtain t4 where
    t4: "''mb.jpg'' @ R = str_replace t4 ''.jpg'' ''_thumb.jpg''"
    by auto
  from str_replace_head[of t4 "CHR ''m''" "''b.jpg'' @ R"] t4 obtain t5 where
    t5: "''b.jpg'' @ R = str_replace t5 ''.jpg'' ''_thumb.jpg''"
    by auto
  from str_replace_head[of t5 "CHR ''b''" "''.jpg'' @ R"] t5 obtain t6 where
    t6: "''.jpg'' @ R = str_replace t6 ''.jpg'' ''_thumb.jpg''"
    by auto
  have "prefix ''.jpg'' (str_replace t6 ''.jpg'' ''_thumb.jpg'')"
    unfolding t6[symmetric] by simp
  with str_replace_no_old show False by blast
qed

lemma str_replace_inj:
  assumes "str_replace s ''.jpg'' ''_thumb.jpg'' = str_replace t ''.jpg'' ''_thumb.jpg''"
  shows "s = t"
  using assms
proof (induction "length s" arbitrary: s t rule: less_induct)
  case less
  show ?case
  proof (cases s)
    case Nil
    with less.prems show ?thesis by (cases t) (auto split: if_splits)
  next
    case (Cons c cs)
    show ?thesis
    proof (cases "prefix ''.jpg'' s")
      case True
      with less.prems str_replace_clash[of s t] have pt: "prefix ''.jpg'' t"
        by blast
      from True obtain s' where s: "s = ''.jpg'' @ s'" by (auto simp: prefix_def)
      from pt obtain t' where t: "t = ''.jpg'' @ t'" by (auto simp: prefix_def)
      from less.prems have "str_replace s' ''.jpg'' ''_thumb.jpg'' = str_replace t' ''.jpg'' ''_thumb.jpg''"
        unfolding s t by simp
      moreover have "length s' < length s" unfolding s by simp
      ultimately have "s' = t'" by (rule less.hyps[rotated])
      with s t show ?thesis by simp
    next
      case False
      with less.prems str_replace_clash[of t s] have npt: "\<not> prefix ''.jpg'' t"
        by metis
      have l: "str_replace s ''.jpg'' ''_thumb.jpg'' = c # str_replace cs ''.jpg'' ''_thumb.jpg''"
        using False unfolding Cons by auto
      with less.prems have "t \<noteq> []" by auto
      then obtain d ds where t: "t = d # ds" by (cases t) auto
      have r: "str_replace t ''.jpg'' ''_thumb.jpg'' = d # str_replace ds ''.jpg'' ''_thumb.jpg''"
        using npt unfolding t by auto
      from l r less.prems have cd: "c = d"
        and "str_replace cs ''.jpg'' ''_thumb.jpg'' = str_replace ds ''.jpg'' ''_thumb.jpg''"
        by simp_all
      moreover have "length cs < length s" using Cons by simp
      ultimately have "cs = ds" using less.hyps[of cs ds] by blast
      with cd Cons t show ?thesis by simp
    qed
  qed
qed

lemma thumb_filename_inj: "thumb_filename s = thumb_filename t \<Longrightarrow> s = t"
  unfolding thumb_filename_def by (rule str_replace_inj)

section \<open>The thumbnail loop reads the slides and writes the thumbnails\<close>

lemma Image_open_cong:
  "map_of (out_dir v) s = map_of (out_dir w) s \<Longrightarrow> Image_open v s = Image_open w s"
  by (simp add: Image_open_def)

lemma map_of_save_other:
  "k \<noteq> name \<Longrightarrow> map_of (out_dir (save name f w)) k = map_of (out_dir w) k"
  by (simp add: save_def update_conv')

lemma map_of_save_same:
  "map_of (out_dir (save name f w)) name = Some f"
  by (simp add: save_def update_conv')

lemma thumbnail_step_cases:
  assumes "thumbnail_step env tw s v = (v1, r)"
  shows "(\<exists>e. r = Inl e \<and> v1 = v) \<or>
         (\<exists>img f. r = Inr () \<and> Image_open v s = Inr img \<and> make_thumbnail env tw img = Inr f \<and>
            v1 = save (thumb_filename s) f v)"
  using assms by (auto simp: thumbnail_step_def split: sum.splits)

lemma thumbnails_loop_slides_kept:
  assumes "\<forall>s\<in>set L. is_full_size_name s"
    and "thumbnails_loop env tw L v = (v', r)"
    and "\<not> contains name ''_thumb''"
  shows "map_of (out_dir v') name = map_of (out_dir v) name"
  using assms
proof (induction L arbitrary: v)
  case Nil
  then show ?case by simp
next
  case (Cons s L)
  obtain v1 r1 where st: "thumbnail_step env tw s v = (v1, r1)"
    by (cases "thumbnail_step env tw s v")
  from Cons.prems(1) have "endswith s ''.jpg''"
    by (simp add: is_full_size_name_def)
  with Cons.prems(3) have ne: "name \<noteq> thumb_filename s"
    using thumb_filename_contains[of s] by auto
  from thumbnail_step_cases[OF st] show ?case
  proof
    assume "\<exists>e. r1 = Inl e \<and> v1 = v"
    with st Cons.prems(2) show ?thesis by auto
  next
    assume "\<exists>img f. r1 = Inr () \<and> Image_open v s = Inr img \<and>
      make_thumbnail env tw img = Inr f \<and> v1 = save (thumb_filename s) f v"
    then obtain f where r1: "r1 = Inr ()" and v1: "v1 = save (thumb_filename s) f v"
      by blast
    from st r1 Cons.prems(2) have "thumbnails_loop env tw L v1 = (v', r)"
      by simp
    with Cons.IH[of v1] Cons.prems(1,3) have "map_of (out_dir v') name = map_of (out_dir v1) name"
      by simp
    with v1 ne show ?thesis by (simp add: map_of_save_other)
  qed
qed

lemma thumbnails_loop_names:
  assumes "\<forall>s\<in>set L. is_full_size_name s"
    and "thumbnails_loop env tw L v = (v', r)"
  shows "filter is_full_size_name (map fst (out_dir v')) =
         filter is_full_size_name (map fst (out_dir v))"
  using assms
proof (induction L arbitrary: v)
  case Nil
  then show ?case by simp
next
  case (Cons s L)
  obtain v1 r1 where st: "thumbnail_step env tw s v = (v1, r1)"
    by (cases "thumbnail_step env tw s v")
  from Cons.prems(1) have ni: "\<not> is_full_size_name (thumb_filename s)"
    by (simp add: thumb_filename_not_input)
  from thumbnail_step_cases[OF st] show ?case
  proof
    assume "\<exists>e. r1 = Inl e \<and> v1 = v"
    with st Cons.prems(2) show ?thesis by auto
  next
    assume "\<exists>img f. r1 = Inr () \<and> Image_open v s = Inr img \<and>
      make_thumbnail env tw img = Inr f \<and> v1 = save (thumb_filename s) f v"
    then obtain f where r1: "r1 = Inr ()" and v1: "v1 = save (thumb_filename s) f v"
      by blast
    from st r1 Cons.prems(2) have "thumbnails_loop env tw L v1 = (v', r)"
      by simp
    with Cons.IH[of v1] Cons.prems(1) have
      "filter is_full_size_name (map fst (out_dir v')) =
       filter is_full_size_name (map fst (out_dir v1))"
      by simp
    also have "\<dots> = filter is_full_size_name (map fst (out_dir v))"
      using ni by (simp add: v1 save_def update_keys)
    finally show ?thesis .
  qed
qed

lemma thumbnails_loop_survives:
  assumes "\<forall>s\<in>set L. is_full_size_name s"
    and "thumbnails_loop env tw L v = (v', r)"
    and "is_full_size_name s0"
    and "Image_open v s0 = Inr img0"
    and "make_thumbnail env tw img0 = Inr f0"
    and "map_of (out_dir v) (thumb_filename s0) = Some f0"
  shows "map_of (out_dir v') (thumb_filename s0) = Some f0"
  using assms
proof (induction L arbitrary: v)
  case Nil
  then show ?case by simp
next
  case (Cons s L)
  obtain v1 r1 where st: "thumbnail_step env tw s v = (v1, r1)"
    by (cases "thumbnail_step env tw s v")
  from Cons.prems(1) have "endswith s ''.jpg''"
    by (simp add: is_full_size_name_def)
  then have c: "contains (thumb_filename s) ''_thumb''"
    by (rule thumb_filename_contains)
  from Cons.prems(3) have "\<not> contains s0 ''_thumb''"
    by (simp add: is_full_size_name_def)
  with c have ne: "s0 \<noteq> thumb_filename s" by auto
  from thumbnail_step_cases[OF st] show ?case
  proof
    assume "\<exists>e. r1 = Inl e \<and> v1 = v"
    with st Cons.prems(2,6) show ?thesis by auto
  next
    assume "\<exists>img f. r1 = Inr () \<and> Image_open v s = Inr img \<and>
      make_thumbnail env tw img = Inr f \<and> v1 = save (thumb_filename s) f v"
    then obtain img f where r1: "r1 = Inr ()" and io: "Image_open v s = Inr img"
      and mk: "make_thumbnail env tw img = Inr f" and v1: "v1 = save (thumb_filename s) f v"
      by blast
    from st r1 Cons.prems(2) have run: "thumbnails_loop env tw L v1 = (v', r)"
      by simp
    have o1: "Image_open v1 s0 = Inr img0"
      using Cons.prems(4) ne Image_open_cong[of v1 s0 v] by (simp add: v1 map_of_save_other)
    have m1: "map_of (out_dir v1) (thumb_filename s0) = Some f0"
    proof (cases "thumb_filename s0 = thumb_filename s")
      case True
      then have "s0 = s" by (rule thumb_filename_inj)
      with io mk Cons.prems(4,5) have "f = f0" by simp
      with True show ?thesis by (simp add: v1 map_of_save_same)
    next
      case False
      with Cons.prems(6) show ?thesis by (simp add: v1 map_of_save_other)
    qed
    from Cons.IH[OF _ run Cons.prems(3) o1 Cons.prems(5) m1] Cons.prems(1)
    show ?thesis by simp
  qed
qed

lemma thumbnails_loop_made:
  assumes "\<forall>s\<in>set L. is_full_size_name s"
    and "thumbnails_loop env tw L v = (v', Inr ())"
    and "s0 \<in> set L"
  shows "\<exists>img f. Image_open v s0 = Inr img \<and> make_thumbnail env tw img = Inr f \<and>
           map_of (out_dir v') (thumb_filename s0) = Some f"
  using assms
proof (induction L arbitrary: v)
  case Nil
  then show ?case by simp
next
  case (Cons s L)
  obtain v1 r1 where st: "thumbnail_step env tw s v = (v1, r1)"
    by (cases "thumbnail_step env tw s v")
  from thumbnail_step_cases[OF st] show ?case
  proof
    assume "\<exists>e. r1 = Inl e \<and> v1 = v"
    with st Cons.prems(2) show ?thesis by auto
  next
    assume "\<exists>img f. r1 = Inr () \<and> Image_open v s = Inr img \<and>
      make_thumbnail env tw img = Inr f \<and> v1 = save (thumb_filename s) f v"
    then obtain img f where r1: "r1 = Inr ()" and io: "Image_open v s = Inr img"
      and mk: "make_thumbnail env tw img = Inr f" and v1: "v1 = save (thumb_filename s) f v"
      by blast
    from st r1 Cons.prems(2) have run: "thumbnails_loop env tw L v1 = (v', Inr ())"
      by simp
    from Cons.prems(1) have fs: "is_full_size_name s" and fL: "\<forall>s\<in>set L. is_full_size_name s"
      by simp_all
    from Cons.prems(1,3) have f0: "is_full_size_name s0" by auto
    then have n0: "\<not> contains s0 ''_thumb''" by (simp add: is_full_size_name_def)
    from fs have "contains (thumb_filename s) ''_thumb''"
      by (intro thumb_filename_contains) (simp add: is_full_size_name_def)
    with n0 have ne: "s0 \<noteq> thumb_filename s" by auto
    have same: "Image_open v1 s0 = Image_open v s0"
      using ne by (intro Image_open_cong) (simp add: v1 map_of_save_other)
    show ?thesis
    proof (cases "s0 = s")
      case True
      have o1: "Image_open v1 s = Inr img" using same io True by simp
      have "map_of (out_dir v1) (thumb_filename s) = Some f"
        by (simp add: v1 map_of_save_same)
      from thumbnails_loop_survives[OF fL run fs o1 mk this] io mk True
      show ?thesis by blast
    next
      case False
      with Cons.prems(3) have "s0 \<in> set L" by simp
      from Cons.IH[OF fL run this] same show ?thesis by simp
    qed
  qed
qed

lemma thumbnails_loop_again:
  assumes "\<forall>s\<in>set L. is_full_size_name s"
    and "thumbnails_loop env tw L v = (v', r)"
  shows "thumbnails_loop env tw L v' = (v', r)"
  using assms
proof (induction L arbitrary: v)
  case Nil
  then show ?case by simp
next
  case (Cons s L)
  obtain v1 r1 where st: "thumbnail_step env tw s v = (v1, r1)"
    by (cases "thumbnail_step env tw s v")
  from Cons.prems(1) have fs: "is_full_size_name s" and fL: "\<forall>s\<in>set L. is_full_size_name s"
    by simp_all
  from fs have n0: "\<not> contains s ''_thumb''" by (simp add: is_full_size_name_def)
  have same: "Image_open v' s = Image_open v s"
    using thumbnails_loop_slides_kept[OF Cons.prems(1,2) n0] by (rule Image_open_cong)
  from thumbnail_step_cases[OF st] show ?case
  proof
    assume "\<exists>e. r1 = Inl e \<and> v1 = v"
    then obtain e where r1: "r1 = Inl e" and v1: "v1 = v" by blast
    from st r1 v1 Cons.prems(2) have "v' = v" "r = Inl e" by auto
    with Cons.prems(2) show ?thesis by simp
  next
    assume "\<exists>img f. r1 = Inr () \<and> Image_open v s = Inr img \<and>
      make_thumbnail env tw img = Inr f \<and> v1 = save (thumb_filename s) f v"
    then obtain img f where r1: "r1 = Inr ()" and io: "Image_open v s = Inr img"
      and mk: "make_thumbnail env tw img = Inr f" and v1: "v1 = save (thumb_filename s) f v"
      by blast
    from st r1 Cons.prems(2) have run: "thumbnails_loop env tw L v1 = (v', r)"
      by simp
    from n0 thumb_filename_contains[of s] fs have ne: "s \<noteq> thumb_filename s"
      by (auto simp: is_full_size_name_def)
    have o1: "Image_open v1 s = Inr img"
      using io ne Image_open_cong[of v1 s v] by (simp add: v1 map_of_save_other)
    have "map_of (out_dir v1) (thumb_filename s) = Some f"
      by (simp add: v1 map_of_save_same)
    from thumbnails_loop_survives[OF fL run fs o1 mk this]
    have "map_of (out_dir v') (thumb_filename s) = Some f" .
    then have "save (thumb_filename s) f v' = v'"
      by (simp add: save_def update_triv)
    with same io mk have "thumbnail_step env tw s v' = (v', Inr ())"
      by (simp add: thumbnail_step_def)
    with Cons.IH[OF fL run] show ?thesis by simp
  qed
qed

lemma thumbnail_step_print:
  "thumbnail_step env tw s (print l v) =
     (print l (fst (thumbnail_step env tw s v)), snd (thumbnail_step env tw s v))"
  by (simp add: thumbnail_step_def Image_open_def print_def save_def split: sum.splits option.splits out_file.splits)

lemma thumbnails_loop_print:
  "thumbnails_loop env tw L (print l v) =
     (print l (fst (thumbnails_loop env tw L v)), snd (thumbnails_loop env tw L v))"
proof (induction L arbitrary: v)
  case Nil
  then show ?case by simp
next
  case (Cons s L)
  obtain v1 r1 where st: "thumbnail_step env tw s v = (v1, r1)"
    by (cases "thumbnail_step env tw s v")
  then have "thumbnail_step env tw s (print l v) = (print l v1, r1)"
    by (simp add: thumbnail_step_print)
  with st Cons show ?case by (cases r1) simp_all
qed

lemma thumbnail_inputs_full_size: "\<forall>s\<in>set (thumbnail_inputs w). is_full_size_name s"
  by (simp add: thumbnail_inputs_def)

lemma thumbnail_inputs_print: "thumbnail_inputs (print l w) = thumbnail_inputs w"
  by (simp add: thumbnail_inputs_def print_def)

lemma generate_thumbnails_loop:
  "generate_thumbnails env tw w = (w1, r1) \<longleftrightarrow>
     thumbnails_loop env tw (thumbnail_inputs w) (print ''Generating thumbnails...'' w) = (w1, r1)"
  by (simp add: generate_thumbnails_def Let_def thumbnail_inputs_print)

lemma generate_thumbnails_again:
  assumes "generate_thumbnails env tw w = (w1, r1)"
  shows "thumbnail_inputs w1 = thumbnail_inputs w"
    and "\<not> contains name ''_thumb'' \<Longrightarrow> map_of (out_dir w1) name = map_of (out_dir w) name"
    and "generate_thumbnails env tw w1 = (print ''Generating thumbnails...'' w1, r1)"
    and "r1 = Inr () \<Longrightarrow> s \<in> set (thumbnail_inputs w) \<Longrightarrow>
           \<exists>img f. Image_open w s = Inr img \<and> make_thumbnail env tw img = Inr f \<and>
             map_of (out_dir w1) (thumb_filename s) = Some f"
proof -
  define w0 where "w0 = print ''Generating thumbnails...'' w"
  from assms have run: "thumbnails_loop env tw (thumbnail_inputs w) w0 = (w1, r1)"
    by (simp add: generate_thumbnails_loop w0_def)
  note full = thumbnail_inputs_full_size[of w]
  have od: "out_dir w0 = out_dir w" by (simp add: w0_def print_def)
  from thumbnails_loop_names[OF full run] show inp: "thumbnail_inputs w1 = thumbnail_inputs w"
    by (simp add: thumbnail_inputs_def od)
  show "\<not> contains name ''_thumb'' \<Longrightarrow> map_of (out_dir w1) name = map_of (out_dir w) name"
    using thumbnails_loop_slides_kept[OF full run] by (simp add: od)
  from thumbnails_loop_again[OF full run]
  have "thumbnails_loop env tw (thumbnail_inputs w) (print ''Generating thumbnails...'' w1) =
          (print ''Generating thumbnails...'' w1, r1)"
    by (simp add: thumbnails_loop_print)
  then show "generate_thumbnails env tw w1 = (print ''Generating thumbnails...'' w1, r1)"
    by (simp add: generate_thumbnails_loop inp)
  show "\<exists>img f. Image_open w s = Inr img \<and> make_thumbnail env tw img = Inr f \<and>
             map_of (out_dir w1) (thumb_filename s) = Some f"
    if "r1 = Inr ()" "s \<in> set (thumbnail_inputs w)"
  proof -
    from run that(1) have "thumbnails_loop env tw (thumbnail_inputs w) w0 = (w1, Inr ())"
      by simp
    from thumbnails_loop_made[OF full this that(2)]
    show ?thesis using Image_open_cong[of w0 s w] by (simp add: od)
  qed
qed

lemma thumbnail_inputs_example: "thumbnail_inputs slide_world = [''slide_001.jpg'']"
  by (simp add: thumbnail_inputs_def slide_world_def is_full_size_slide)

lemma generate_thumbnails_example:
  "generate_thumbnails example_env 300 slide_world =
     (print ''Generating thumbnails...'' thumb_world, Inr ())"
  unfolding generate_thumbnails_loop thumbnail_inputs_example
  by (simp add: thumbnail_step_print thumbnail_step_example)

section \<open>Running the thumbnail pass twice\<close>

text \<open>
  C8: \<open>generate_thumbnails\<close> takes as inputs exactly the names of the output directory that
  start with \<open>slide_\<close>, end with \<open>.jpg\<close> and do not contain \<open>_thumb\<close>, in sorted order. A run
  leaves every file whose name does not contain \<open>_thumb\<close> as it was, so the inputs of a
  second run are the inputs of the first; when the run succeeds, every input has its
  thumbnail, made from the opened slide, under the name with \<open>.jpg\<close> replaced by
  \<open>_thumb.jpg\<close>. A second run over the directory the first one left returns the same
  result and leaves the same directory: every thumbnail is overwritten with an identical
  file.
\<close>

theorem generate_thumbnails_idempotent:
  "thumbnail_inputs w =
     sort (filter (\<lambda>f. prefix ''slide_'' f \<and> suffix ''.jpg'' f \<and> \<not> sublist ''_thumb'' f)
       (map fst (out_dir w))) \<and>
   (generate_thumbnails env thumb_width w = (w1, r1) \<longrightarrow>
      thumbnail_inputs w1 = thumbnail_inputs w \<and>
      (\<forall>name. \<not> sublist ''_thumb'' name \<longrightarrow>
         map_of (out_dir w1) name = map_of (out_dir w) name) \<and>
      (r1 = Inr () \<longrightarrow>
         (\<forall>s\<in>set (thumbnail_inputs w).
            \<exists>img f. Image_open w s = Inr img \<and> make_thumbnail env thumb_width img = Inr f \<and>
              map_of (out_dir w1) (str_replace s ''.jpg'' ''_thumb.jpg'') = Some f)) \<and>
      (\<exists>w2. generate_thumbnails env thumb_width w1 = (w2, r1) \<and> out_dir w2 = out_dir w1))"
proof (intro conjI impI)
  show "thumbnail_inputs w =
     sort (filter (\<lambda>f. prefix ''slide_'' f \<and> suffix ''.jpg'' f \<and> \<not> sublist ''_thumb'' f)
       (map fst (out_dir w)))"
    by (simp add: thumbnail_inputs_def is_full_size_name_def startswith_def endswith_def
        contains_def cong: filter_cong)
next
  assume run: "generate_thumbnails env thumb_width w = (w1, r1)"
  show "thumbnail_inputs w1 = thumbnail_inputs w"
    by (rule generate_thumbnails_again(1)[OF run])
  show "\<forall>name. \<not> sublist ''_thumb'' name \<longrightarrow>
         map_of (out_dir w1) name = map_of (out_dir w) name"
    using generate_thumbnails_again(2)[OF run] by (simp add: contains_def)
  show "\<exists>w2. generate_thumbnails env thumb_width w1 = (w2, r1) \<and> out_dir w2 = out_dir w1"
    using generate_thumbnails_again(3)[OF run] by (simp add: print_def)
  show "\<forall>s\<in>set (thumbnail_inputs w).
            \<exists>img f. Image_open w s = Inr img \<and> make_thumbnail env thumb_width img = Inr f \<and>
              map_of (out_dir w1) (str_replace s ''.jpg'' ''_thumb.jpg'') = Some f"
    if "r1 = Inr ()"
    using generate_thumbnails_again(4)[OF run that] by (simp add: thumb_filename_def)
qed

theorem generate_thumbnails_idempotent_witness:
  "thumbnail_inputs slide_world = [''slide_001.jpg''] \<and>
   generate_thumbnails example_env 300 slide_world =
     (print ''Generating thumbnails...'' thumb_world, Inr ()) \<and>
   thumbnail_inputs (print ''Generating thumbnails...'' thumb_world) = [''slide_001.jpg''] \<and>
   map_of (out_dir (print ''Generating thumbnails...'' thumb_world)) ''slide_001.jpg'' =
     Some (ImageFile ''JPEG'' 92 True example_slide) \<and>
   (\<exists>img f. Image_open slide_world ''slide_001.jpg'' = Inr img \<and>
      make_thumbnail example_env 300 img = Inr f \<and>
      map_of (out_dir (print ''Generating thumbnails...'' thumb_world)) ''slide_001_thumb.jpg'' =
        Some f) \<and>
   (\<exists>w2. generate_thumbnails example_env 300 (print ''Generating thumbnails...'' thumb_world) =
            (w2, Inr ()) \<and>
      out_dir w2 =
        [(''slide_001.jpg'', ImageFile ''JPEG'' 92 True example_slide),
         (''slide_001_thumb.jpg'', ImageFile ''JPEG'' 85 False example_thumb)])"
proof -
  note t = generate_thumbnails_idempotent[where w = slide_world and env = example_env
      and thumb_width = 300 and ?w1.0 = "print ''Generating thumbnails...'' thumb_world"
      and ?r1.0 = "Inr ()", THEN conjunct2, THEN mp, OF generate_thumbnails_example]
  have n: "\<not> sublist ''_thumb'' ''slide_001.jpg''"
    by code_simp
  have a: "thumbnail_inputs (print ''Generating thumbnails...'' thumb_world) = [''slide_001.jpg'']"
    using t[THEN conjunct1] by (simp only: thumbnail_inputs_example)
  have "map_of (out_dir (print ''Generating thumbnails...'' thumb_world)) ''slide_001.jpg'' =
      map_of (out_dir slide_world) ''slide_001.jpg''"
    using t[THEN conjunct2, THEN conjunct1, THEN spec, THEN mp, OF n] .
  then have b: "map_of (out_dir (print ''Generating thumbnails...'' thumb_world)) ''slide_001.jpg'' =
     Some (ImageFile ''JPEG'' 92 True example_slide)"
    by (simp add: slide_world_def)
  have m: "''slide_001.jpg'' \<in> set (thumbnail_inputs slide_world)"
    by (simp only: thumbnail_inputs_example list.set_intros)
  have r: "str_replace ''slide_001.jpg'' ''.jpg'' ''_thumb.jpg'' = ''slide_001_thumb.jpg''"
    using thumb_filename_example by (simp only: thumb_filename_def)
  have c: "\<exists>img f. Image_open slide_world ''slide_001.jpg'' = Inr img \<and>
      make_thumbnail example_env 300 img = Inr f \<and>
      map_of (out_dir (print ''Generating thumbnails...'' thumb_world)) ''slide_001_thumb.jpg'' =
        Some f"
    using t[THEN conjunct2, THEN conjunct2, THEN conjunct1, THEN mp, OF refl, THEN bspec, OF m]
    by (simp only: r)
  have d: "\<exists>w2. generate_thumbnails example_env 300 (print ''Generating thumbnails...'' thumb_world) =
            (w2, Inr ()) \<and>
      out_dir w2 =
        [(''slide_001.jpg'', ImageFile ''JPEG'' 92 True example_slide),
         (''slide_001_thumb.jpg'', ImageFile ''JPEG'' 85 False example_thumb)]"
    using t[THEN conjunct2, THEN conjunct2, THEN conjunct2]
    by (simp add: print_def thumb_world_def)
  from thumbnail_inputs_example generate_thumbnails_example a b c d show ?thesis
    by (intro conjI)
qed

section \<open>The zoom factor\<close>

lemma fl_0: "fl 0 = 0"
  by (simp add: fl_def)

lemma fl_error_absolute: "\<bar>fl x - x\<bar> \<le> \<bar>x\<bar> / 2 ^ 53 + 1 / 2 ^ 1075"
proof (cases "x = 0")
  case True
  then show ?thesis by (simp add: fl_0)
next
  case False
  then have pos: "0 < \<bar>x\<bar>" by simp
  define k where "k = ilog2 \<bar>x\<bar>"
  have err: "\<bar>fl x - x\<bar> \<le> 2 powi (max (k - 52) (- 1074)) / 2"
    unfolding k_def by (rule fl_error_exponent[OF False])
  have nn: "0 \<le> \<bar>x\<bar> / 2 ^ 53" by simp
  have nd: "(0::rat) \<le> 1 / 2 ^ 1075" by simp
  show ?thesis
  proof (cases "- 1074 \<le> k - 52")
    case True
    then have "max (k - 52) (- 1074) = k - 52" by linarith
    with err have "\<bar>fl x - x\<bar> \<le> 2 powi (k - 52) / 2" by simp
    also have "\<dots> = 2 powi k / 2 ^ 53"
      by (simp add: power_int_diff)
    also have "\<dots> \<le> \<bar>x\<bar> / 2 ^ 53"
      using ilog2_bounds(1)[OF pos] by (simp add: divide_right_mono k_def)
    finally show ?thesis using nd by linarith
  next
    case False
    then have "max (k - 52) (- 1074) = - 1074" by linarith
    with err have "\<bar>fl x - x\<bar> \<le> 2 powi (- 1074) / 2" by simp
    also have "(2::rat) powi (- 1074) / 2 = 1 / 2 ^ 1075"
      by (simp add: power_int_minus field_simps)
    finally show ?thesis using nn by linarith
  qed
qed

lemma scaled_side_error:
  assumes "0 < w"
  shows "\<bar>fl (W / w) * w - W\<bar> \<le> \<bar>W\<bar> / 2 ^ 53 + w / 2 ^ 1075"
proof -
  define x where "x = W / w"
  define d :: rat where "d = 1 / 2 ^ 1075"
  have W: "W = x * w" using assms by (simp add: x_def)
  have "\<bar>fl x - x\<bar> \<le> \<bar>x\<bar> / 2 ^ 53 + d"
    unfolding d_def by (rule fl_error_absolute)
  then have "\<bar>fl x - x\<bar> * w \<le> (\<bar>x\<bar> / 2 ^ 53 + d) * w"
    using assms by (intro mult_right_mono) simp_all
  moreover have "\<bar>fl x - x\<bar> * w = \<bar>fl x * w - W\<bar>"
  proof -
    have "\<bar>fl x - x\<bar> * w = \<bar>fl x - x\<bar> * \<bar>w\<bar>" using assms by simp
    also have "\<dots> = \<bar>(fl x - x) * w\<bar>" by (simp add: abs_mult)
    also have "(fl x - x) * w = fl x * w - W" by (simp add: W algebra_simps)
    finally show ?thesis .
  qed
  moreover have "(\<bar>x\<bar> / 2 ^ 53 + d) * w = \<bar>W\<bar> / 2 ^ 53 + w * d"
  proof -
    have "\<bar>W\<bar> = \<bar>x\<bar> * w" using assms by (simp add: W abs_mult)
    then show ?thesis by (simp add: algebra_simps)
  qed
  ultimately have "\<bar>fl x * w - W\<bar> \<le> \<bar>W\<bar> / 2 ^ 53 + w * d" by simp
  then show ?thesis unfolding x_def d_def by simp
qed

lemma py_min_Fin:
  assumes "py_min (round_double a) (round_double b) = Fin z"
  shows "z \<le> fl a \<and> z \<le> fl b \<and> (z = fl a \<or> z = fl b)"
proof -
  define p :: rat where "p = 2 ^ 1024"
  have p: "0 < p" by (simp add: p_def)
  have ra: "round_double a = (if p \<le> fl a then PInf else if fl a \<le> - p then NInf else Fin (fl a))"
    by (simp add: round_double_def Let_def p_def)
  have rb: "round_double b = (if p \<le> fl b then PInf else if fl b \<le> - p then NInf else Fin (fl b))"
    by (simp add: round_double_def Let_def p_def)
  from assms p show ?thesis
    unfolding ra rb py_min_def by (auto split: if_splits)
qed

lemma zoom_for_positive:
  assumes "rect_width pg \<noteq> 0" and "rect_height pg \<noteq> 0"
    and "int_to_float width = Inr W'" and "int_to_float height = Inr H'"
  shows "zoom_for width height pg =
           Inr (py_min (round_double (W' / rect_width pg)) (round_double (H' / rect_height pg)))"
  using assms by (simp add: zoom_for_def int_float_truediv_def float_truediv_def)

lemma zoom_for_Inr:
  assumes "zoom_for width height pg = Inr d"
  shows "\<exists>W' H'. int_to_float width = Inr W' \<and> int_to_float height = Inr H' \<and>
           d = py_min (round_double (W' / rect_width pg)) (round_double (H' / rect_height pg))"
  using assms
  by (auto simp: zoom_for_def int_float_truediv_def float_truediv_def split: sum.splits if_splits)

lemma zoom_for_fit:
  assumes w: "0 < rect_width pg" and h: "0 < rect_height pg"
    and z: "zoom_for width height pg = Inr (Fin z)"
  shows "\<exists>W' H'. int_to_float width = Inr W' \<and> int_to_float height = Inr H' \<and>
           (z = fl (W' / rect_width pg) \<or> z = fl (H' / rect_height pg)) \<and>
           z \<le> fl (W' / rect_width pg) \<and> z \<le> fl (H' / rect_height pg) \<and>
           z * rect_width pg \<le> W' + \<bar>W'\<bar> / 2 ^ 53 + rect_width pg / 2 ^ 1075 \<and>
           z * rect_height pg \<le> H' + \<bar>H'\<bar> / 2 ^ 53 + rect_height pg / 2 ^ 1075 \<and>
           (\<bar>z * rect_width pg - W'\<bar> \<le> \<bar>W'\<bar> / 2 ^ 53 + rect_width pg / 2 ^ 1075 \<or>
            \<bar>z * rect_height pg - H'\<bar> \<le> \<bar>H'\<bar> / 2 ^ 53 + rect_height pg / 2 ^ 1075)"
proof -
  define pw where "pw = rect_width pg"
  define ph where "ph = rect_height pg"
  define dw where "dw = pw / 2 ^ 1075"
  define dh where "dh = ph / 2 ^ 1075"
  from zoom_for_Inr[OF z] obtain W' H' where
    W: "int_to_float width = Inr W'" and H: "int_to_float height = Inr H'"
    and m: "py_min (round_double (W' / pw)) (round_double (H' / ph)) = Fin z"
    unfolding pw_def ph_def by auto
  from py_min_Fin[OF m] have le: "z \<le> fl (W' / pw)" "z \<le> fl (H' / ph)"
    and eq: "z = fl (W' / pw) \<or> z = fl (H' / ph)"
    by simp_all
  have pw: "0 < pw" and ph: "0 < ph" using w h by (simp_all add: pw_def ph_def)
  have ew: "\<bar>fl (W' / pw) * pw - W'\<bar> \<le> \<bar>W'\<bar> / 2 ^ 53 + dw"
    unfolding dw_def by (rule scaled_side_error[OF pw])
  have eh: "\<bar>fl (H' / ph) * ph - H'\<bar> \<le> \<bar>H'\<bar> / 2 ^ 53 + dh"
    unfolding dh_def by (rule scaled_side_error[OF ph])
  have "z * pw \<le> fl (W' / pw) * pw"
    using le(1) pw by (intro mult_right_mono) simp_all
  with ew have bw: "z * pw \<le> W' + \<bar>W'\<bar> / 2 ^ 53 + dw" by linarith
  have "z * ph \<le> fl (H' / ph) * ph"
    using le(2) ph by (intro mult_right_mono) simp_all
  with eh have bh: "z * ph \<le> H' + \<bar>H'\<bar> / 2 ^ 53 + dh" by linarith
  from eq ew eh have tight:
    "\<bar>z * pw - W'\<bar> \<le> \<bar>W'\<bar> / 2 ^ 53 + dw \<or> \<bar>z * ph - H'\<bar> \<le> \<bar>H'\<bar> / 2 ^ 53 + dh"
    by blast
  from W H eq le bw bh tight show ?thesis
    unfolding pw_def ph_def dw_def dh_def by blast
qed

lemma render_page_composite:
  assumes "zoom_for width height pg = Inr d" and "get_pixmap pg d = Inr buf"
    and "PIL_AVAILABLE env" and "0 \<le> width" and "0 \<le> height"
    and "img_width buf \<noteq> width \<or> img_height buf \<noteq> height"
  shows "render_page env width height pg =
           Inr \<lparr>img_width = width, img_height = height,
                img_pixel = (\<lambda>x y. if (width - img_width buf) div 2 \<le> x \<and>
                                     x < (width - img_width buf) div 2 + img_width buf \<and>
                                     (height - img_height buf) div 2 \<le> y \<and>
                                     y < (height - img_height buf) div 2 + img_height buf
                                  then img_pixel buf (x - (width - img_width buf) div 2)
                                         (y - (height - img_height buf) div 2)
                                  else (0, 0, 0))\<rparr>"
  using assms(1-3) center_on_canvas_composite[OF assms(6,4,5)]
  by (simp add: render_page_def)

section \<open>The page of 113 by 63 points\<close>

lemma fl_1920_113: "fl (1920 / 113) = 4782583675083713 / 281474976710656"
  by code_simp

lemma fl_1080_63: "fl (120 / 7) = 4825285315039817 / 281474976710656"
  by code_simp

lemma fl_narrow_product:
  "fl (540431955284459569 / 281474976710656) = 8444249301319681 / 4398046511104"
  by code_simp

lemma narrow_zoom:
  "zoom_for 1920 1080 narrow_page = Inr (Fin (4782583675083713 / 281474976710656))"
proof -
  have a: "int_float_truediv 1920 113 = Inr (Fin (4782583675083713 / 281474976710656))"
    by (simp add: int_float_truediv_def int_to_float_exact float_truediv_def round_double_def
        fl_1920_113)
  have b: "int_float_truediv 1080 63 = Inr (Fin (4825285315039817 / 281474976710656))"
    by (simp add: int_float_truediv_def int_to_float_exact float_truediv_def round_double_def
        fl_1080_63)
  show ?thesis
    by (simp add: zoom_for_def narrow_page_def a b py_min_def)
qed

lemma narrow_product:
  "float_mul (4782583675083713 / 281474976710656) 113 = Fin (8444249301319681 / 4398046511104)"
  by (simp add: float_mul_def round_double_def fl_narrow_product)

section \<open>The fit of a page into the target\<close>

text \<open>
  C2 (corrected). For a page of positive width and height, the zoom factor is the smaller
  of the two quotients target width by page width and target height by page height, each
  computed in floating point from the target side converted to a float (which is the
  target side itself up to \<open>2 ^ 53\<close>) and rounded to the nearest float. When the zoom is
  finite it is one of the two rounded quotients and not above either of them; the zoomed
  page exceeds neither target side by more than the rounding error of one division (the
  side divided by \<open>2 ^ 53\<close>, plus the page side divided by \<open>2 ^ 1075\<close> for a quotient in
  the subnormal range), and one of its sides is within that error of the target side. The
  rendered buffer, when its size is not the target's, is pasted on a black canvas at the
  offsets \<open>(width - buffer width) div 2\<close> and \<open>(height - buffer height) div 2\<close>. The
  inequalities and the equality of the specification do not hold exactly: for a page of
  113 by 63 points and a target of 1920 by 1080, the zoomed width is above 1920 and the
  zoomed height below 1080.
\<close>

theorem zoom_fits_up_to_rounding:
  assumes "0 < rect_width pg" and "0 < rect_height pg"
  shows
    "(\<forall>W' H'. int_to_float width = Inr W' \<and> int_to_float height = Inr H' \<longrightarrow>
        zoom_for width height pg =
          Inr (py_min (round_double (W' / rect_width pg)) (round_double (H' / rect_height pg)))) \<and>
     (\<bar>width\<bar> \<le> 2 ^ 53 \<longrightarrow> int_to_float width = Inr (of_int width)) \<and>
     (\<bar>height\<bar> \<le> 2 ^ 53 \<longrightarrow> int_to_float height = Inr (of_int height)) \<and>
     (\<forall>z. zoom_for width height pg = Inr (Fin z) \<longrightarrow>
        (\<exists>W' H'. int_to_float width = Inr W' \<and> int_to_float height = Inr H' \<and>
           (z = fl (W' / rect_width pg) \<or> z = fl (H' / rect_height pg)) \<and>
           z \<le> fl (W' / rect_width pg) \<and> z \<le> fl (H' / rect_height pg) \<and>
           z * rect_width pg \<le> W' + \<bar>W'\<bar> / 2 ^ 53 + rect_width pg / 2 ^ 1075 \<and>
           z * rect_height pg \<le> H' + \<bar>H'\<bar> / 2 ^ 53 + rect_height pg / 2 ^ 1075 \<and>
           (\<bar>z * rect_width pg - W'\<bar> \<le> \<bar>W'\<bar> / 2 ^ 53 + rect_width pg / 2 ^ 1075 \<or>
            \<bar>z * rect_height pg - H'\<bar> \<le> \<bar>H'\<bar> / 2 ^ 53 + rect_height pg / 2 ^ 1075))) \<and>
     (\<forall>d buf. zoom_for width height pg = Inr d \<and> get_pixmap pg d = Inr buf \<and>
          PIL_AVAILABLE env \<and> 0 \<le> width \<and> 0 \<le> height \<and>
          (img_width buf \<noteq> width \<or> img_height buf \<noteq> height) \<longrightarrow>
        render_page env width height pg =
          Inr \<lparr>img_width = width, img_height = height,
               img_pixel = (\<lambda>x y. if (width - img_width buf) div 2 \<le> x \<and>
                                    x < (width - img_width buf) div 2 + img_width buf \<and>
                                    (height - img_height buf) div 2 \<le> y \<and>
                                    y < (height - img_height buf) div 2 + img_height buf
                                 then img_pixel buf (x - (width - img_width buf) div 2)
                                        (y - (height - img_height buf) div 2)
                                 else (0, 0, 0))\<rparr>)"
proof (intro conjI allI impI)
  fix W' H'
  assume "int_to_float width = Inr W' \<and> int_to_float height = Inr H'"
  with assms show "zoom_for width height pg =
      Inr (py_min (round_double (W' / rect_width pg)) (round_double (H' / rect_height pg)))"
    by (intro zoom_for_positive) simp_all
next
  assume "\<bar>width\<bar> \<le> 2 ^ 53"
  then show "int_to_float width = Inr (of_int width)" by (rule int_to_float_exact)
next
  assume "\<bar>height\<bar> \<le> 2 ^ 53"
  then show "int_to_float height = Inr (of_int height)" by (rule int_to_float_exact)
next
  fix z
  assume "zoom_for width height pg = Inr (Fin z)"
  from zoom_for_fit[OF assms this]
  show "\<exists>W' H'. int_to_float width = Inr W' \<and> int_to_float height = Inr H' \<and>
           (z = fl (W' / rect_width pg) \<or> z = fl (H' / rect_height pg)) \<and>
           z \<le> fl (W' / rect_width pg) \<and> z \<le> fl (H' / rect_height pg) \<and>
           z * rect_width pg \<le> W' + \<bar>W'\<bar> / 2 ^ 53 + rect_width pg / 2 ^ 1075 \<and>
           z * rect_height pg \<le> H' + \<bar>H'\<bar> / 2 ^ 53 + rect_height pg / 2 ^ 1075 \<and>
           (\<bar>z * rect_width pg - W'\<bar> \<le> \<bar>W'\<bar> / 2 ^ 53 + rect_width pg / 2 ^ 1075 \<or>
            \<bar>z * rect_height pg - H'\<bar> \<le> \<bar>H'\<bar> / 2 ^ 53 + rect_height pg / 2 ^ 1075)" .
next
  fix d buf
  assume a: "zoom_for width height pg = Inr d \<and> get_pixmap pg d = Inr buf \<and>
          PIL_AVAILABLE env \<and> 0 \<le> width \<and> 0 \<le> height \<and>
          (img_width buf \<noteq> width \<or> img_height buf \<noteq> height)"
  show "render_page env width height pg =
          Inr \<lparr>img_width = width, img_height = height,
               img_pixel = (\<lambda>x y. if (width - img_width buf) div 2 \<le> x \<and>
                                    x < (width - img_width buf) div 2 + img_width buf \<and>
                                    (height - img_height buf) div 2 \<le> y \<and>
                                    y < (height - img_height buf) div 2 + img_height buf
                                 then img_pixel buf (x - (width - img_width buf) div 2)
                                        (y - (height - img_height buf) div 2)
                                 else (0, 0, 0))\<rparr>"
    by (rule render_page_composite) (use a in blast)+
qed

theorem zoom_fits_up_to_rounding_witness:
  "0 < rect_width example_page \<and> 0 < rect_height example_page \<and>
   int_to_float 1920 = Inr 1920 \<and> int_to_float 1080 = Inr 1080 \<and>
   zoom_for 1920 1080 example_page = Inr (Fin (8106479329266893 / 4503599627370496)) \<and>
   fl (1080 / rect_height example_page) = 8106479329266893 / 4503599627370496 \<and>
   8106479329266893 / 4503599627370496 * rect_width example_page
     \<le> 1920 + \<bar>1920\<bar> / 2 ^ 53 + rect_width example_page / 2 ^ 1075 \<and>
   8106479329266893 / 4503599627370496 * rect_height example_page
     \<le> 1080 + \<bar>1080\<bar> / 2 ^ 53 + rect_height example_page / 2 ^ 1075 \<and>
   1080 < 8106479329266893 / 4503599627370496 * rect_height example_page \<and>
   get_pixmap example_page (Fin (8106479329266893 / 4503599627370496)) =
     Inr \<lparr>img_width = 1440, img_height = 1080, img_pixel = (\<lambda>x y. (255, 255, 255))\<rparr> \<and>
   render_page example_env 1920 1080 example_page =
     Inr \<lparr>img_width = 1920, img_height = 1080,
          img_pixel = (\<lambda>x y. if 240 \<le> x \<and> x < 1680 \<and> 0 \<le> y \<and> y < 1080
                               then (255, 255, 255) else (0, 0, 0))\<rparr>"
proof -
  define Z :: rat where "Z = 8106479329266893 / 4503599627370496"
  define buf where
    "buf = \<lparr>img_width = 1440, img_height = 1080, img_pixel = (\<lambda>x y. (255 :: nat, 255 :: nat, 255 :: nat))\<rparr>"
  have pw: "0 < rect_width example_page" and ph: "0 < rect_height example_page"
    by (simp_all add: example_page_def)
  note t = zoom_fits_up_to_rounding[OF pw ph, where width = 1920 and height = 1080
      and env = example_env]
  have W: "int_to_float 1920 = Inr 1920"
    using t[THEN conjunct2, THEN conjunct1] by simp
  have H: "int_to_float 1080 = Inr 1080"
    using t[THEN conjunct2, THEN conjunct2, THEN conjunct1] by simp
  have z: "zoom_for 1920 1080 example_page = Inr (Fin Z)"
    unfolding Z_def by (rule example_zoom)
  have f: "fl (1080 / rect_height example_page) = Z"
    unfolding Z_def by (simp add: example_page_def fl_9_5)
  from t[THEN conjunct2, THEN conjunct2, THEN conjunct2, THEN conjunct1, THEN spec, THEN mp, OF z]
  obtain W' H' where W': "int_to_float 1920 = Inr W'" and H': "int_to_float 1080 = Inr H'"
    and bw: "Z * rect_width example_page \<le> W' + \<bar>W'\<bar> / 2 ^ 53 + rect_width example_page / 2 ^ 1075"
    and bh: "Z * rect_height example_page \<le> H' + \<bar>H'\<bar> / 2 ^ 53 + rect_height example_page / 2 ^ 1075"
    by blast
  from W W' have "W' = 1920" by simp
  with bw have bw': "Z * rect_width example_page \<le> 1920 + \<bar>1920\<bar> / 2 ^ 53 + rect_width example_page / 2 ^ 1075"
    by (simp only:)
  from H H' have "H' = 1080" by simp
  with bh have bh': "Z * rect_height example_page \<le> 1080 + \<bar>1080\<bar> / 2 ^ 53 + rect_height example_page / 2 ^ 1075"
    by (simp only:)
  have over: "1080 < Z * rect_height example_page"
    unfolding Z_def by (simp add: example_page_def)
  have g: "get_pixmap example_page (Fin Z) = Inr buf"
    unfolding Z_def buf_def by (rule example_pixmap)
  have "zoom_for 1920 1080 example_page = Inr (Fin Z) \<and> get_pixmap example_page (Fin Z) = Inr buf \<and>
          PIL_AVAILABLE example_env \<and> (0::int) \<le> 1920 \<and> (0::int) \<le> 1080 \<and>
          (img_width buf \<noteq> 1920 \<or> img_height buf \<noteq> 1080)"
    using z g by (simp add: example_env_def buf_def)
  from t[THEN conjunct2, THEN conjunct2, THEN conjunct2, THEN conjunct2, THEN spec, THEN spec,
      THEN mp, OF this]
  have "render_page example_env 1920 1080 example_page =
     Inr \<lparr>img_width = 1920, img_height = 1080,
          img_pixel = (\<lambda>x y. if 240 \<le> x \<and> x < 1680 \<and> 0 \<le> y \<and> y < 1080
                               then (255, 255, 255) else (0, 0, 0))\<rparr>"
    by (simp add: buf_def fun_eq_iff)
  with pw ph W H z f bw' bh' over g show ?thesis
    unfolding Z_def buf_def by (intro conjI)
qed

theorem tight_fit_counterexample:
  "zoom_for 1920 1080 narrow_page = Inr (Fin (4782583675083713 / 281474976710656)) \<and>
   spec_scale 1920 1080 (rect_width narrow_page) (rect_height narrow_page)
     < 4782583675083713 / 281474976710656 \<and>
   \<not> spec_tight_fit 1920 1080 (rect_width narrow_page) (rect_height narrow_page)
       (4782583675083713 / 281474976710656) \<and>
   1920 < 4782583675083713 / 281474976710656 * rect_width narrow_page \<and>
   4782583675083713 / 281474976710656 * rect_height narrow_page < 1080 \<and>
   float_mul (4782583675083713 / 281474976710656) (rect_width narrow_page) =
     Fin (8444249301319681 / 4398046511104) \<and>
   (1920 :: rat) < 8444249301319681 / 4398046511104"
proof -
  have w: "rect_width narrow_page = 113" and h: "rect_height narrow_page = 63"
    by (simp_all add: narrow_page_def)
  have a: "spec_scale 1920 1080 113 63 < 4782583675083713 / 281474976710656"
    by (simp add: spec_scale_def)
  have b: "\<not> spec_tight_fit 1920 1080 113 63 (4782583675083713 / 281474976710656)"
    by (simp add: spec_tight_fit_def)
  have c: "(1920 :: rat) < 4782583675083713 / 281474976710656 * 113" by simp
  have d: "(4782583675083713 / 281474976710656 * 63 :: rat) < 1080" by simp
  have e: "(1920 :: rat) < 8444249301319681 / 4398046511104" by simp
  from narrow_zoom a b c d narrow_product e show ?thesis
    unfolding w h by (intro conjI)
qed

end
